(* ===== verification/Prelude.thy ===== *)
theory Prelude
  imports Complex_Main
begin

text \<open>
  Shared vocabulary of the development: JSON values as the scripts print them, the
  JavaScript string, array and object primitives the four resolvers use
  (\<open>toLowerCase\<close>, \<open>startsWith\<close>, \<open>replace\<close>, \<open>indexOf\<close>, the
  \<open>indexOf\<close>-based de-duplication idiom, property access on plain objects with
  \<open>Object.prototype\<close> behind them), and the outcome of one command-line run.
  Strings are sequences of Latin-1 code units (Isabelle's 8-bit \<open>char\<close>);
  \<open>toLowerCase\<close> is modelled on that range exactly.
\<close>

named_theorems js_eval "rules that evaluate the JavaScript primitives on literals"

section \<open>JSON values\<close>

text \<open>
  A JSON document as \<open>JSON.stringify\<close> prints it. Numbers are the exact values
  of the doubles they denote; an object is its list of members in insertion order.
\<close>

datatype json =
    JNull
  | JBool bool
  | JNum rat
  | JStr string
  | JArr "json list"
  | JObj "(string \<times> json) list"

text \<open>
  An object literal whose members may be \<open>undefined\<close>: \<open>JSON.stringify\<close> omits
  those members.
\<close>

definition jobj :: "(string \<times> json option) list \<Rightarrow> json" where
  "jobj ms = JObj (List.map_filter (\<lambda>(k, v). map_option (Pair k) v) ms)"

definition jnum_int :: "int \<Rightarrow> json" where
  "jnum_int n = JNum (of_int n)"

definition jstr_opt :: "string option \<Rightarrow> json" where
  "jstr_opt s = (case s of None \<Rightarrow> JNull | Some v \<Rightarrow> JStr v)"

text \<open>
  Reading a member of an object as \<open>JSON.parse\<close> built it (its members have distinct
  names), and truthiness of a value that may be \<open>undefined\<close>.
\<close>

definition jmember :: "(string \<times> json) list \<Rightarrow> string \<Rightarrow> json option" where
  "jmember ms k = map_of ms k"

fun js_truthy :: "json option \<Rightarrow> bool" where
  "js_truthy None = False"
| "js_truthy (Some JNull) = False"
| "js_truthy (Some (JBool b)) = b"
| "js_truthy (Some (JNum r)) = (r \<noteq> 0)"
| "js_truthy (Some (JStr s)) = (s \<noteq> [])"
| "js_truthy (Some (JArr _)) = True"
| "js_truthy (Some (JObj _)) = True"

text \<open>\<open>a || b\<close>.\<close>

definition js_or :: "json option \<Rightarrow> json option \<Rightarrow> json option" where
  "js_or a b = (if js_truthy a then a else b)"

text \<open>
  \<open>{ ...o }\<close> inside an object literal: each own member of \<open>o\<close> overwrites a member
  of the same name in place, or is appended.
\<close>

fun js_set :: "(string \<times> json option) list \<Rightarrow> string \<Rightarrow> json option \<Rightarrow> (string \<times> json option) list" where
  "js_set [] k v = [(k, v)]"
| "js_set ((k', v') # ms) k v = (if k' = k then (k, v) # ms else (k', v') # js_set ms k v)"

definition js_spread :: "(string \<times> json option) list \<Rightarrow> json option \<Rightarrow> (string \<times> json option) list" where
  "js_spread ms v = (case v of Some (JObj src) \<Rightarrow> foldl (\<lambda>acc (k, v). js_set acc k (Some v)) ms src | _ \<Rightarrow> ms)"

section \<open>Strings\<close>

text \<open>
  \<open>String.prototype.toLowerCase\<close> on Latin-1: the letters A--Z and the
  accented capitals U+00C0--U+00DE (all but U+00D7) move up by 32.
\<close>

definition js_lower_char :: "char \<Rightarrow> char" where
  "js_lower_char c =
     (let n = of_char c :: nat in
      if (65 \<le> n \<and> n \<le> 90) \<or> (192 \<le> n \<and> n \<le> 222 \<and> n \<noteq> 215)
      then char_of (n + 32) else c)"

definition js_lower :: "string \<Rightarrow> string" where
  "js_lower s = map js_lower_char s"

text \<open>\<open>s.startsWith(p)\<close>.\<close>

definition js_starts_with :: "string \<Rightarrow> string \<Rightarrow> bool" where
  "js_starts_with p s \<longleftrightarrow> take (length p) s = p"

text \<open>\<open>s.replace(c, "")\<close> with a one-character pattern: only the first occurrence goes.\<close>

fun js_remove_first :: "char \<Rightarrow> string \<Rightarrow> string" where
  "js_remove_first c [] = []"
| "js_remove_first c (x # xs) = (if x = c then xs else x # js_remove_first c xs)"

section \<open>Arrays\<close>

text \<open>\<open>a.indexOf(v)\<close>: the first index holding \<open>v\<close>, or -1.\<close>

fun js_index_of :: "'a list \<Rightarrow> 'a \<Rightarrow> int" where
  "js_index_of [] v = -1"
| "js_index_of (x # xs) v = (if x = v then 0 else (let i = js_index_of xs v in if i < 0 then i else i + 1))"

text \<open>\<open>a.filter((v, i, a) => a.indexOf(v) === i)\<close>: keep the first occurrence of each value.\<close>

definition js_unique :: "'a list \<Rightarrow> 'a list" where
  "js_unique xs = map fst (filter (\<lambda>(v, i). js_index_of xs v = int i) (zip xs [0..<length xs]))"

section \<open>Plain objects\<close>

text \<open>
  A property read \<open>o[k]\<close> on an object built by a literal or by \<open>JSON.parse\<close>:
  an own member, else a member inherited from \<open>Object.prototype\<close> (a function, or the
  prototype itself for \<open>__proto__\<close>, and truthy in both cases), else \<open>undefined\<close>.
\<close>

definition object_prototype_keys :: "string list" where
  "object_prototype_keys =
     [''constructor'', ''__defineGetter__'', ''__defineSetter__'', ''hasOwnProperty'',
      ''__lookupGetter__'', ''__lookupSetter__'', ''isPrototypeOf'', ''propertyIsEnumerable'',
      ''toString'', ''valueOf'', ''__proto__'', ''toLocaleString'']"

datatype 'v js_prop = Own 'v | Inherited string | Undefined

definition js_get :: "(string \<times> 'v) list \<Rightarrow> string \<Rightarrow> 'v js_prop" where
  "js_get obj k =
     (case map_of obj k of
        Some v \<Rightarrow> Own v
      | None \<Rightarrow> if k \<in> set object_prototype_keys then Inherited k else Undefined)"

text \<open>
  What \<open>JSON.stringify\<close> makes of a property read: an inherited method is a function
  and is omitted, \<open>Object.prototype\<close> itself (\<open>__proto__\<close>) prints as \<open>{}\<close>.
\<close>

fun prop_json :: "json js_prop \<Rightarrow> json option" where
  "prop_json (Own v) = Some v"
| "prop_json (Inherited k) = (if k = ''__proto__'' then Some (JObj []) else None)"
| "prop_json Undefined = None"

fun prop_truthy :: "json js_prop \<Rightarrow> bool" where
  "prop_truthy (Own v) = js_truthy (Some v)"
| "prop_truthy (Inherited k) = True"
| "prop_truthy Undefined = False"

text \<open>Truthiness of a string that may be \<open>undefined\<close> (the empty string is falsy).\<close>

definition js_truthy_str :: "string option \<Rightarrow> bool" where
  "js_truthy_str s \<longleftrightarrow> (case s of None \<Rightarrow> False | Some v \<Rightarrow> v \<noteq> [])"

text \<open>\<open>a || b\<close> on optional strings, as the scripts use it for fallbacks.\<close>

definition js_or_str :: "string option \<Rightarrow> string option \<Rightarrow> string option" where
  "js_or_str a b = (if js_truthy_str a then a else b)"

section \<open>Outcome of one command-line run\<close>

text \<open>
  What a process run leaves behind: one JSON document on stdout (\<open>out(o)\<close>, status 0),
  diagnostics on stderr followed by \<open>process.exit(1)\<close>, an uncaught exception or
  promise rejection (Node prints it, status 1), or the help text with the status the
  script passes to \<open>process.exit\<close>.
\<close>

datatype crash =
    TypeError string
  | RangeError string
  | SyntaxError string
  | ModuleNotFound string
  | ModuleEvalError string

datatype 'e outcome =
    Printed json
  | Failed 'e
  | Crashed crash
  | Usage nat

fun exit_status :: "'e outcome \<Rightarrow> nat" where
  "exit_status (Printed _) = 0"
| "exit_status (Failed _) = 1"
| "exit_status (Crashed _) = 1"
| "exit_status (Usage c) = c"

fun stdout_of :: "'e outcome \<Rightarrow> json option" where
  "stdout_of (Printed j) = Some j"
| "stdout_of _ = None"

section \<open>Callbacks that may throw\<close>

text \<open>
  A computation that may throw is a value of \<open>crash + 'a\<close>; \<open>js_then\<close> sequences two of
  them, and \<open>js_run\<close> turns an escaped exception into the outcome of the run.
\<close>

definition js_then :: "crash + 'a \<Rightarrow> ('a \<Rightarrow> crash + 'b) \<Rightarrow> crash + 'b" where
  "js_then x f = (case x of Inl e \<Rightarrow> Inl e | Inr a \<Rightarrow> f a)"

definition js_run :: "crash + 'e outcome \<Rightarrow> 'e outcome" where
  "js_run r = (case r of Inl e \<Rightarrow> Crashed e | Inr res \<Rightarrow> res)"

text \<open>\<open>a && b\<close> and \<open>a || b\<close> on booleans: the right operand runs only when needed.\<close>

definition js_and_e :: "crash + bool \<Rightarrow> crash + bool \<Rightarrow> crash + bool" where
  "js_and_e a b = js_then a (\<lambda>x. if x then b else Inr False)"

definition js_or_e :: "crash + bool \<Rightarrow> crash + bool \<Rightarrow> crash + bool" where
  "js_or_e a b = js_then a (\<lambda>x. if x then Inr True else b)"

text \<open>
  \<open>a.filter(p)\<close>, \<open>a.find(p)\<close> and \<open>a.map(f)\<close> with a callback that may throw: the
  callback runs on the elements in order, the first exception escapes, and \<open>find\<close> stops
  at the first element it accepts.
\<close>

fun js_filter :: "('a \<Rightarrow> crash + bool) \<Rightarrow> 'a list \<Rightarrow> crash + 'a list" where
  "js_filter p [] = Inr []"
| "js_filter p (x # xs) =
     js_then (p x) (\<lambda>b. js_then (js_filter p xs) (\<lambda>ys. Inr (if b then x # ys else ys)))"

fun js_find :: "('a \<Rightarrow> crash + bool) \<Rightarrow> 'a list \<Rightarrow> crash + 'a option" where
  "js_find p [] = Inr None"
| "js_find p (x # xs) = js_then (p x) (\<lambda>b. if b then Inr (Some x) else js_find p xs)"

fun js_map_e :: "('a \<Rightarrow> crash + 'b) \<Rightarrow> 'a list \<Rightarrow> crash + 'b list" where
  "js_map_e f [] = Inr []"
| "js_map_e f (x # xs) = js_then (f x) (\<lambda>y. js_then (js_map_e f xs) (\<lambda>ys. Inr (y # ys)))"

text \<open>
  \<open>x.toLowerCase()\<close> on a value read from JSON (\<open>expr\<close> is the source text of
  \<open>x\<close>, as Node names it in the message): only strings have the method.
\<close>

definition js_to_lower :: "string \<Rightarrow> json option \<Rightarrow> crash + string" where
  "js_to_lower expr v =
     (case v of
        Some (JStr s) \<Rightarrow> Inr (js_lower s)
      | None \<Rightarrow> Inl (TypeError ''Cannot read properties of undefined (reading 'toLowerCase')'')
      | Some JNull \<Rightarrow> Inl (TypeError ''Cannot read properties of null (reading 'toLowerCase')'')
      | Some _ \<Rightarrow> Inl (TypeError (expr @ ''.toLowerCase is not a function'')))"

text \<open>\<open>args[i]\<close> of the command-line arguments; a missing one reads as the empty string, which
  the scripts only ever test for truthiness.\<close>

definition js_arg :: "string list \<Rightarrow> nat \<Rightarrow> string" where
  "js_arg args i = (if i < length args then args ! i else [])"

section \<open>Lemmas on the primitives\<close>

lemma js_lower_char_idem [simp]: "js_lower_char (js_lower_char c) = js_lower_char c"
  by (auto simp: js_lower_char_def Let_def)

lemma js_lower_idem [simp]: "js_lower (js_lower s) = js_lower s"
  by (simp add: js_lower_def comp_def)

lemma js_lower_Nil [simp]: "js_lower [] = []"
  and js_lower_Cons [simp]: "js_lower (c # s) = js_lower_char c # js_lower s"
  and js_lower_append [simp]: "js_lower (s @ t) = js_lower s @ js_lower t"
  and length_js_lower [simp]: "length (js_lower s) = length s"
  by (simp_all add: js_lower_def)

lemma js_lower_char_of_lower:
  "of_char c < (65::nat) \<or> 90 < (of_char c :: nat) \<Longrightarrow> of_char c < (192::nat) \<Longrightarrow> js_lower_char c = c"
  by (auto simp: js_lower_char_def Let_def)

lemma eq_char_of_iff: "c = char_of n \<longleftrightarrow> take_bit 8 n = of_char c"
  for n :: nat
  using char_of_eq_iff [of n c] by auto

lemmas js_lower_eval [js_eval] = js_lower_def js_lower_char_def char_of_eq_iff eq_char_of_iff

lemma set_map_filter_eq: "set (List.map_filter f xs) = {y. \<exists>x \<in> set xs. f x = Some y}"
  by (induction xs) (auto split: option.splits)

lemma js_index_of_ge: "-1 \<le> js_index_of xs v"
  by (induction xs) (auto simp: Let_def)

lemma js_index_of_neg_iff: "js_index_of xs v < 0 \<longleftrightarrow> v \<notin> set xs"
  by (induction xs) (auto simp: Let_def)

lemma js_index_of_nonneg: "v \<in> set xs \<Longrightarrow> 0 \<le> js_index_of xs v"
  using js_index_of_neg_iff [of xs v] by simp

lemma js_index_of_nth: "v \<in> set xs \<Longrightarrow> nat (js_index_of xs v) < length xs \<and> xs ! nat (js_index_of xs v) = v"
proof (induction xs)
  case Nil
  then show ?case by simp
next
  case (Cons x xs)
  show ?case
  proof (cases "x = v")
    case True
    then show ?thesis by simp
  next
    case False
    with Cons.prems have v: "v \<in> set xs" by simp
    then have nn: "0 \<le> js_index_of xs v" by (rule js_index_of_nonneg)
    then have "nat (js_index_of xs v + 1) = Suc (nat (js_index_of xs v))" by simp
    with nn False Cons.IH [OF v] show ?thesis by (simp add: Let_def)
  qed
qed

lemma js_index_of_append [simp]:
  "js_index_of (xs @ ys) v = (if v \<in> set xs then js_index_of xs v
     else (let i = js_index_of ys v in if i < 0 then i else i + int (length xs)))"
proof (induction xs)
  case Nil
  then show ?case by (simp add: Let_def)
next
  case (Cons x xs)
  have "0 \<le> js_index_of ys v" if "v \<in> set ys" using that by (rule js_index_of_nonneg)
  with Cons.IH show ?case by (auto simp: Let_def js_index_of_neg_iff)
qed

lemma js_index_of_length: "v \<notin> set xs \<Longrightarrow> js_index_of (xs @ [v]) v = int (length xs)"
  by simp

lemma js_index_of_less_length: "v \<in> set xs \<Longrightarrow> js_index_of xs v < int (length xs)"
  using js_index_of_nth [of v xs] js_index_of_nonneg [of v xs] by linarith

lemma js_unique_snoc:
  "js_unique (xs @ [x]) = js_unique xs @ (if x \<in> set xs then [] else [x])"
proof -
  let ?z = "zip xs [0..<length xs]"
  have z: "zip (xs @ [x]) [0..<length (xs @ [x])] = ?z @ [(x, length xs)]"
    by simp
  have f: "filter (\<lambda>(v, i). js_index_of (xs @ [x]) v = int i) ?z
         = filter (\<lambda>(v, i). js_index_of xs v = int i) ?z"
    by (rule filter_cong) (auto dest: set_zip_leftD)
  have l: "js_index_of (xs @ [x]) x = int (length xs) \<longleftrightarrow> x \<notin> set xs"
    using js_index_of_less_length [of x xs] by auto
  show ?thesis
    unfolding js_unique_def z filter_append f using l by auto
qed

text \<open>The de-duplication idiom keeps first occurrences: it is \<open>remdups\<close> read backwards.\<close>

lemma js_unique_remdups: "js_unique xs = rev (remdups (rev xs))"
proof (induction xs rule: rev_induct)
  case Nil
  then show ?case by (simp add: js_unique_def)
next
  case (snoc x xs)
  then show ?case by (simp add: js_unique_snoc)
qed

lemma length_js_unique: "length (js_unique xs) = card (set xs)"
  by (simp add: js_unique_remdups length_remdups_card_conv)

lemma set_js_unique [simp]: "set (js_unique xs) = set xs"
  by (simp add: js_unique_remdups)

lemma distinct_js_unique [simp]: "distinct (js_unique xs)"
  by (simp add: js_unique_remdups)

lemmas js_unique_eval [js_eval] = js_unique_def

lemma js_get_Own [simp]: "map_of obj k = Some v \<Longrightarrow> js_get obj k = Own v"
  by (simp add: js_get_def)

lemma js_get_absent: "map_of obj k = None \<Longrightarrow> k \<notin> set object_prototype_keys \<Longrightarrow> js_get obj k = Undefined"
  by (simp add: js_get_def)

lemmas js_get_eval [js_eval] = js_get_def object_prototype_keys_def

lemma map_of_js_set: "map_of (js_set ms k v) q = (if q = k then Some v else map_of ms q)"
  by (induction ms) auto

lemma map_of_spread_other:
  "q \<notin> fst ` set src \<Longrightarrow> map_of (foldl (\<lambda>acc (k, v). js_set acc k (Some v)) acc src) q = map_of acc q"
  by (induction src arbitrary: acc) (auto simp: map_of_js_set)

lemma map_of_spread:
  "distinct (map fst src) \<Longrightarrow> map_of src q = Some v \<Longrightarrow>
   map_of (foldl (\<lambda>acc (k, v). js_set acc k (Some v)) acc src) q = Some (Some v)"
proof (induction src arbitrary: acc)
  case (Cons kv src)
  obtain k x where kv: "kv = (k, x)" by fastforce
  show ?case
  proof (cases "k = q")
    case True
    then have "q \<notin> fst ` set src" "x = v" using Cons.prems kv by auto
    then show ?thesis using kv True by (simp add: map_of_spread_other map_of_js_set)
  next
    case False
    then show ?thesis using Cons kv by simp
  qed
qed simp

lemma map_of_jobj:
  "map_of ms q = Some (Some v) \<Longrightarrow> map_of (List.map_filter (\<lambda>(k, v). map_option (Pair k) v) ms) q = Some v"
  by (induction ms) (auto simp: List.map_filter_def split: if_splits)

lemmas jmember_eval [js_eval] = jmember_def

text \<open>\<open>Array.prototype.find\<close> returns the one element that satisfies the predicate.\<close>

lemma find_unique:
  assumes "x \<in> set xs" "P x" "\<forall>y \<in> set xs. P y \<longrightarrow> y = x"
  shows "find P xs = Some x"
  using assms
proof (induction xs)
  case Nil
  then show ?case by simp
next
  case (Cons a xs)
  show ?case
  proof (cases "P a")
    case True
    moreover have "a \<in> set (a # xs)" by simp
    ultimately have "a = x" using Cons.prems(3) by blast
    then show ?thesis using True by simp
  next
    case False
    then have "x \<in> set xs" using Cons.prems(1,2) by auto
    moreover have "\<forall>y \<in> set xs. P y \<longrightarrow> y = x" using Cons.prems(3) by simp
    ultimately have "find P xs = Some x" using Cons.IH Cons.prems(2) by blast
    then show ?thesis using False by simp
  qed
qed

lemma js_then_Inr [simp]: "js_then (Inr a) f = f a"
  by (simp add: js_then_def)

lemma js_then_Inl [simp]: "js_then (Inl e) f = Inl e"
  by (simp add: js_then_def)

lemma find_SomeD: "find P xs = Some x \<Longrightarrow> x \<in> set xs \<and> P x"
  by (induction xs) (auto split: if_splits)

lemma find_upt_least:
  assumes "P b" "a \<le> b" "b < c"
  shows "find P [a..<c] = Some (LEAST k. a \<le> k \<and> P k)"
  using assms
proof (induction "c - a" arbitrary: a)
  case 0
  then show ?case by simp
next
  case (Suc d)
  then have up: "[a..<c] = a # [Suc a..<c]" by (simp add: upt_conv_Cons)
  show ?case
  proof (cases "P a")
    case True
    then have "(LEAST k. a \<le> k \<and> P k) = a" by (intro Least_equality) auto
    then show ?thesis using True up by simp
  next
    case False
    then have "Suc a \<le> b" using Suc.prems by (cases "a = b") auto
    then have ih: "find P [Suc a..<c] = Some (LEAST k. Suc a \<le> k \<and> P k)"
      using Suc by simp
    have "(\<lambda>k. a \<le> k \<and> P k) = (\<lambda>k. Suc a \<le> k \<and> P k)"
      using False by (force simp: fun_eq_iff Suc_le_eq le_less)
    then show ?thesis using False up ih by simp
  qed
qed

lemma find_append_first:
  "(\<forall>x \<in> set xs. \<not> P x) \<Longrightarrow> P a \<Longrightarrow> find P (xs @ a # ys) = Some a"
  by (induction xs) auto

lemma js_filter_pure:
  "(\<forall>x \<in> set xs. p x = Inr (P x)) \<Longrightarrow> js_filter p xs = Inr (filter P xs)"
  by (induction xs) auto

lemma js_find_pure:
  "(\<forall>x \<in> set xs. p x = Inr (P x)) \<Longrightarrow> js_find p xs = Inr (find P xs)"
  by (induction xs) auto

lemma js_map_e_pure:
  "(\<forall>x \<in> set xs. f x = Inr (g x)) \<Longrightarrow> js_map_e f xs = Inr (map g xs)"
  by (induction xs) auto

lemma js_to_lower_str [simp]: "js_to_lower expr (Some (JStr s)) = Inr (js_lower s)"
  by (simp add: js_to_lower_def)

lemma js_arg_Cons_0 [simp]: "js_arg (a # args) 0 = a"
  by (simp add: js_arg_def)

lemma js_arg_Cons_Suc [simp]: "js_arg (a # args) (Suc i) = js_arg args i"
  by (simp add: js_arg_def)

lemma js_arg_Nil [simp]: "js_arg [] i = []"
  by (simp add: js_arg_def)

lemmas js_run_eval [js_eval] = js_run_def js_and_e_def js_or_e_def js_to_lower_def

lemma outcome_not_crashed [simp]:
  "Printed j \<notin> range Crashed" "Failed e \<notin> range Crashed" "Usage n \<notin> range Crashed"
  by auto

lemma sum_length_filter_image:
  "(\<Sum>i \<in> f ` set xs. length (filter (\<lambda>x. f x = i) xs)) = length xs"
proof (induction xs)
  case Nil
  then show ?case by simp
next
  case (Cons x xs)
  let ?S = "f ` set (x # xs)"
  have "(\<Sum>i \<in> ?S. length (filter (\<lambda>y. f y = i) (x # xs)))
      = (\<Sum>i \<in> ?S. (if f x = i then 1 else 0) + length (filter (\<lambda>y. f y = i) xs))"
    by (rule sum.cong) auto
  also have "\<dots> = (\<Sum>i \<in> ?S. if f x = i then 1 else 0) + (\<Sum>i \<in> ?S. length (filter (\<lambda>y. f y = i) xs))"
    by (rule sum.distrib)
  also have "(\<Sum>i \<in> ?S. if f x = i then 1 else (0::nat)) = 1"
    by (simp add: sum.delta)
  also have "(\<Sum>i \<in> ?S. length (filter (\<lambda>y. f y = i) xs)) = (\<Sum>i \<in> f ` set xs. length (filter (\<lambda>y. f y = i) xs))"
  proof (cases "f x \<in> f ` set xs")
    case True
    then show ?thesis by (simp add: insert_absorb)
  next
    case False
    have "filter (\<lambda>y. f y = f x) xs = []"
    proof (rule ccontr)
      assume "filter (\<lambda>y. f y = f x) xs \<noteq> []"
      then obtain y where "y \<in> set xs" "f y = f x" by (auto simp: filter_empty_conv)
      with False show False by (metis image_eqI)
    qed
    with False show ?thesis by simp
  qed
  finally show ?case using Cons.IH by simp
qed

end
