(* ===== verification/Fetch.thy ===== *)
theory Fetch
  imports Prelude
begin

text \<open>
  The cache store and the fetch-with-fallback routine that every script repeats:
  \<open>loadTokens\<close> (tokenlist.mjs, balance.mjs), \<open>loadNetworks\<close> (metadata.mjs),
  both in JSON mode, and \<open>loadModule\<close> (abi.mjs) in module mode. The cache is a map
  from file paths to file contents that persists between runs; one run sees the network
  as a function from URL to the response \<open>fetch\<close> gets, and the disk as the way a
  cache write ends (it succeeds, throws before the file is opened, or throws after the
  file was truncated and only a prefix was written).
\<close>

section \<open>The environment of one run\<close>

type_synonym path = string
type_synonym blob = string
type_synonym cache = "path \<rightharpoonup> blob"

datatype http =
    Rejected string        \<comment> \<open>\<open>fetch(url)\<close> or reading the body rejects, with this message\<close>
  | Response nat blob      \<comment> \<open>HTTP status and body text\<close>

datatype write_env =
    WriteOk
  | WriteFails             \<comment> \<open>\<open>mkdirSync\<close> or opening the file throws; nothing changes\<close>
  | WriteTorn nat          \<comment> \<open>the file is truncated, then the write throws after this many bytes\<close>

record world =
  net :: "string \<Rightarrow> http"
  disk :: write_env

datatype fetch_error =
    NetworkError string
  | HttpStatus nat
  | InvalidBody            \<comment> \<open>\<open>res.json()\<close> throws a SyntaxError\<close>

text \<open>The diagnostic of a double failure: the CDN URL and the fetch error.\<close>

datatype fetch_failure = FetchFailure string fetch_error

section \<open>Cache writes and HTTP responses\<close>

text \<open>\<open>try { mkdirSync(CACHE_DIR, { recursive: true }); writeFileSync(file, payload); } catch {}\<close>\<close>

fun persist :: "write_env \<Rightarrow> path \<Rightarrow> blob \<Rightarrow> cache \<Rightarrow> cache" where
  "persist WriteOk p b c = c(p \<mapsto> b)"
| "persist WriteFails p b c = c"
| "persist (WriteTorn n) p b c = c(p \<mapsto> take n b)"

definition res_ok :: "nat \<Rightarrow> bool" where
  "res_ok st \<longleftrightarrow> 200 \<le> st \<and> st \<le> 299"

text \<open>\<open>const res = await fetch(url); if (!res.ok) throw new Error(`HTTP ${res.status}`); ... res.text()\<close>\<close>

fun response_text :: "http \<Rightarrow> fetch_error + blob" where
  "response_text (Rejected m) = Inl (NetworkError m)"
| "response_text (Response st b) = (if res_ok st then Inr b else Inl (HttpStatus st))"

section \<open>JSON mode: loadTokens and loadNetworks\<close>

text \<open>
  A JSON data source: the CDN URL, the cache file, \<open>JSON.parse\<close> and
  \<open>JSON.stringify\<close> on the source's documents, and the projection the loader
  returns (\<open>data.tokens\<close> for the token list, the whole array for networks).
\<close>

record ('v, 'a) json_source =
  src_url :: string
  src_file :: path
  src_parse :: "blob \<Rightarrow> 'v option"
  src_print :: "'v \<Rightarrow> blob"
  src_select :: "'v \<Rightarrow> 'a"

text \<open>\<open>try { return JSON.parse(readFileSync(CACHE_FILE, "utf-8")).tokens; } catch {}\<close>\<close>

definition read_cache :: "('v, 'a) json_source \<Rightarrow> cache \<Rightarrow> 'a option" where
  "read_cache s c =
     (case c (src_file s) of
        None \<Rightarrow> None
      | Some b \<Rightarrow> map_option (src_select s) (src_parse s b))"

definition load_json ::
  "('v, 'a) json_source \<Rightarrow> world \<Rightarrow> cache \<Rightarrow> (fetch_failure + 'a) \<times> cache" where
  "load_json s w c =
     (let fallback = (\<lambda>e. (case read_cache s c of
                             Some a \<Rightarrow> Inr a
                           | None \<Rightarrow> Inl (FetchFailure (src_url s) e), c))
      in case response_text (net w (src_url s)) of
           Inl e \<Rightarrow> fallback e
         | Inr body \<Rightarrow>
             (case src_parse s body of
                None \<Rightarrow> fallback InvalidBody
              | Some data \<Rightarrow>
                  (Inr (src_select s data), persist (disk w) (src_file s) (src_print s data) c)))"

text \<open>Successive runs of one JSON-mode loader share the cache.\<close>

fun json_runs ::
  "('v, 'a) json_source \<Rightarrow> world list \<Rightarrow> cache \<Rightarrow> (fetch_failure + 'a) list \<times> cache" where
  "json_runs s [] c = ([], c)"
| "json_runs s (w # ws) c =
     (let (r, c') = load_json s w c; (rs, c'') = json_runs s ws c' in (r # rs, c''))"

section \<open>Module mode: loadModule\<close>

text \<open>
  \<open>import(pathToFileURL(cached).href)\<close>: the module is evaluated from the cache file,
  whatever it holds at that moment. A missing file or code that does not evaluate
  rejects the promise.
\<close>

definition import_file :: "(blob \<Rightarrow> 'm option) \<Rightarrow> path \<Rightarrow> cache \<Rightarrow> crash + 'm" where
  "import_file ev p c =
     (case c p of
        None \<Rightarrow> Inl (ModuleNotFound p)
      | Some code \<Rightarrow> (case ev code of None \<Rightarrow> Inl (ModuleEvalError p) | Some m \<Rightarrow> Inr m))"

text \<open>
  Both \<open>return import(...)\<close> statements sit in a \<open>try\<close> block of an \<open>async\<close>
  function without \<open>await\<close>: a rejected import is never caught there and reaches the
  caller's top-level \<open>await\<close> as an uncaught rejection. The diagnostic lines after the
  inner \<open>catch\<close> are therefore never reached, and the fetch error is dropped.
\<close>

definition load_module_at ::
  "string \<Rightarrow> path \<Rightarrow> (blob \<Rightarrow> 'm option) \<Rightarrow> world \<Rightarrow> cache \<Rightarrow> (crash + 'm) \<times> cache" where
  "load_module_at url p ev w c =
     (case response_text (net w url) of
        Inl e \<Rightarrow> (import_file ev p c, c)
      | Inr code \<Rightarrow> (let c' = persist (disk w) p code c in (import_file ev p c', c')))"

section \<open>Invariants of the cache\<close>

text \<open>
  The JSON-mode cache is usable when the file, if present, parses. The scripts write
  \<open>JSON.stringify(data)\<close> of a parsed document; \<open>JSON.parse\<close> reads that back
  to the same document, which is the round-trip law below, assumed of the JSON library.
\<close>

definition cache_valid :: "('v, 'a) json_source \<Rightarrow> cache \<Rightarrow> bool" where
  "cache_valid s c \<longleftrightarrow> (\<forall>b. c (src_file s) = Some b \<longrightarrow> src_parse s b \<noteq> None)"

definition print_parse_roundtrip :: "('v, 'a) json_source \<Rightarrow> bool" where
  "print_parse_roundtrip s \<longleftrightarrow> (\<forall>d. src_parse s (src_print s d) = Some d)"

fun torn :: "write_env \<Rightarrow> bool" where
  "torn (WriteTorn _) = True"
| "torn _ = False"

text \<open>
  A concrete source for the witnesses: documents are strings, printed with a closing
  marker that the parser requires, as a JSON array needs its closing bracket.
\<close>

definition demo_src :: "(string, string) json_source" where
  "demo_src =
     \<lparr>src_url = ''https://cdn.example/list.json'', src_file = ''.cache/list.json'',
      src_parse = (\<lambda>b. if b \<noteq> [] \<and> last b = CHR ''.'' then Some (butlast b) else None),
      src_print = (\<lambda>d. d @ ''.''), src_select = id\<rparr>"

definition demo_online :: "blob \<Rightarrow> write_env \<Rightarrow> world" where
  "demo_online b d = \<lparr>net = (\<lambda>_. Response 200 b), disk = d\<rparr>"

definition demo_offline :: world where
  "demo_offline = \<lparr>net = (\<lambda>_. Rejected ''getaddrinfo ENOTFOUND''), disk = WriteOk\<rparr>"

section \<open>Lemmas: one JSON-mode run\<close>

lemma persist_other [simp]: "q \<noteq> p \<Longrightarrow> persist w p b c q = c q"
  by (cases w) auto

lemma load_json_fetched:
  assumes "response_text (net w (src_url s)) = Inr body" and "src_parse s body = Some d"
  shows "load_json s w c = (Inr (src_select s d), persist (disk w) (src_file s) (src_print s d) c)"
  using assms by (simp add: load_json_def)

lemma load_json_not_fetched:
  assumes "response_text (net w (src_url s)) = Inl e \<or>
           (response_text (net w (src_url s)) = Inr body \<and> src_parse s body = None \<and> e = InvalidBody)"
  shows "load_json s w c =
           ((case read_cache s c of Some a \<Rightarrow> Inr a | None \<Rightarrow> Inl (FetchFailure (src_url s) e)), c)"
  using assms by (auto simp add: load_json_def)

lemma load_json_cache_cases:
  "snd (load_json s w c) = c \<or>
   (\<exists>body d. response_text (net w (src_url s)) = Inr body \<and> src_parse s body = Some d \<and>
      snd (load_json s w c) = persist (disk w) (src_file s) (src_print s d) c)"
  by (auto simp: load_json_def Let_def split: sum.splits option.splits)

lemma read_cache_valid: "cache_valid s c \<Longrightarrow> c (src_file s) \<noteq> None \<Longrightarrow> read_cache s c \<noteq> None"
  by (auto simp: cache_valid_def read_cache_def)

lemma load_json_valid:
  assumes rt: "print_parse_roundtrip s" and nt: "\<not> torn (disk w)" and v: "cache_valid s c"
  shows "cache_valid s (snd (load_json s w c))"
  using load_json_cache_cases [of s w c]
proof
  assume "snd (load_json s w c) = c"
  with v show ?thesis by simp
next
  assume "\<exists>body d. response_text (net w (src_url s)) = Inr body \<and> src_parse s body = Some d \<and>
      snd (load_json s w c) = persist (disk w) (src_file s) (src_print s d) c"
  then obtain d where "snd (load_json s w c) = persist (disk w) (src_file s) (src_print s d) c"
    by blast
  with rt nt v show ?thesis
    by (cases "disk w") (auto simp: cache_valid_def print_parse_roundtrip_def)
qed

lemma load_json_keeps_cache:
  "c (src_file s) \<noteq> None \<Longrightarrow> snd (load_json s w c) (src_file s) \<noteq> None"
  using load_json_cache_cases [of s w c] by (cases "disk w") auto

lemma load_json_result:
  assumes "cache_valid s c" and "c (src_file s) \<noteq> None"
  shows "\<exists>a. fst (load_json s w c) = Inr a"
  using assms read_cache_valid [OF assms]
  by (auto simp: load_json_def Let_def split: sum.splits option.splits)

lemma load_json_step_ok:
  assumes "print_parse_roundtrip s" "\<not> torn (disk w)" "cache_valid s c" "c (src_file s) \<noteq> None"
    and "load_json s w c = (r, c')"
  shows "(\<exists>a. r = Inr a) \<and> cache_valid s c' \<and> c' (src_file s) \<noteq> None"
  using load_json_result [of s c w] load_json_valid [of s w c] load_json_keeps_cache [of c s w] assms
  by simp

section \<open>Lemmas: sequences of runs\<close>

lemma json_runs_length [simp]: "length (fst (json_runs s ws c)) = length ws"
  by (induction ws arbitrary: c) (simp_all add: case_prod_beta)

lemma json_runs_append:
  "json_runs s (ws1 @ ws2) c =
     (let (rs1, c1) = json_runs s ws1 c; (rs2, c2) = json_runs s ws2 c1 in (rs1 @ rs2, c2))"
  by (induction ws1 arbitrary: c) (auto split: prod.splits)

lemmas demo_eval = demo_src_def demo_online_def demo_offline_def load_json_def read_cache_def res_ok_def

section \<open>Properties of the fetch-with-fallback protocol\<close>

text \<open>
  C1. Cache fallback: when a run fetched and stored its dataset and a later run cannot
  reach the CDN, the later run returns the very data of the earlier one.
\<close>

theorem cache_fallback:
  assumes rt: "print_parse_roundtrip s"
    and first: "load_json s w1 c = (Inr a, c1)" and ok: "disk w1 = WriteOk"
    and offline: "response_text (net w2 (src_url s)) = Inl e"
  shows "fst (load_json s w2 c1) = Inr a"
proof -
  have "read_cache s c1 = Some a"
    using load_json_cache_cases [of s w1 c] first ok rt
    by (auto simp: load_json_def read_cache_def print_parse_roundtrip_def Let_def
             split: sum.splits option.splits)
  with offline show ?thesis by (simp add: load_json_def)
qed

theorem cache_fallback_witness:
  "print_parse_roundtrip demo_src \<and>
   load_json demo_src (demo_online ''[1].'' WriteOk) Map.empty = (Inr ''[1]'', [''.cache/list.json'' \<mapsto> ''[1].''])
   \<and> response_text (net demo_offline (src_url demo_src)) = Inl (NetworkError ''getaddrinfo ENOTFOUND'')
   \<and> fst (load_json demo_src demo_offline [''.cache/list.json'' \<mapsto> ''[1].'']) = Inr ''[1]''"
proof -
  have rt: "print_parse_roundtrip demo_src" by (simp add: print_parse_roundtrip_def demo_src_def)
  have first: "load_json demo_src (demo_online ''[1].'' WriteOk) Map.empty = (Inr ''[1]'', [''.cache/list.json'' \<mapsto> ''[1].''])"
    by (simp add: demo_eval)
  have off: "response_text (net demo_offline (src_url demo_src)) = Inl (NetworkError ''getaddrinfo ENOTFOUND'')"
    by (simp add: demo_offline_def)
  have ok: "disk (demo_online ''[1].'' WriteOk) = WriteOk" by (simp add: demo_online_def)
  show ?thesis using rt first off cache_fallback [OF rt first ok off] by simp
qed

text \<open>
  C2. Double failure: when the CDN cannot be used and the cache holds nothing usable, the
  loader reports the CDN URL with the fetch error, and leaves the cache as it was.
\<close>

theorem load_json_double_failure:
  assumes "response_text (net w (src_url s)) = Inl e" and "read_cache s c = None"
  shows "load_json s w c = (Inl (FetchFailure (src_url s) e), c)"
  using assms by (simp add: load_json_def)

theorem load_json_double_failure_witness:
  "response_text (net demo_offline (src_url demo_src)) = Inl (NetworkError ''getaddrinfo ENOTFOUND'')
   \<and> read_cache demo_src Map.empty = None
   \<and> load_json demo_src demo_offline Map.empty
       = (Inl (FetchFailure ''https://cdn.example/list.json'' (NetworkError ''getaddrinfo ENOTFOUND'')), Map.empty)"
proof -
  have a: "response_text (net demo_offline (src_url demo_src)) = Inl (NetworkError ''getaddrinfo ENOTFOUND'')"
    by (simp add: demo_offline_def)
  have b: "read_cache demo_src Map.empty = None" by (simp add: read_cache_def)
  show ?thesis using a b load_json_double_failure [OF a b] by (simp add: demo_src_def)
qed

text \<open>
  C3. Once the cache holds a usable copy, no later run of the loader fails, whatever the
  network does, as long as no cache write is torn: every write stores a printed document,
  which parses again.
\<close>

theorem json_runs_never_fail:
  assumes rt: "print_parse_roundtrip s"
    and nt: "\<forall>w \<in> set ws. \<not> torn (disk w)"
    and v: "cache_valid s c" and present: "c (src_file s) \<noteq> None"
  shows "\<forall>r \<in> set (fst (json_runs s ws c)). \<exists>a. r = Inr a"
  using nt v present
proof (induction ws arbitrary: c)
  case Nil
  then show ?case by simp
next
  case (Cons w ws)
  obtain r c' where step: "load_json s w c = (r, c')" by fastforce
  show ?case using load_json_step_ok [OF rt _ Cons.prems(2,3) step] Cons.IH [of c'] Cons.prems(1) step
    by (auto split: prod.splits)
qed

theorem json_runs_never_fail_witness:
  "print_parse_roundtrip demo_src \<and> \<not> torn (disk demo_offline) \<and> \<not> torn (disk (demo_online ''x'' WriteFails))
   \<and> src_parse demo_src ''[1].'' = Some ''[1]''
   \<and> list_all (\<lambda>r. \<exists>a. r = Inr a)
        (fst (json_runs demo_src [demo_offline, demo_online ''x'' WriteFails] [''.cache/list.json'' \<mapsto> ''[1].'']))"
proof -
  have rt: "print_parse_roundtrip demo_src" by (simp add: print_parse_roundtrip_def demo_src_def)
  have nt: "\<forall>w \<in> set [demo_offline, demo_online ''x'' WriteFails]. \<not> torn (disk w)"
    by (simp add: demo_offline_def demo_online_def)
  have v: "cache_valid demo_src [''.cache/list.json'' \<mapsto> ''[1].'']" by (simp add: cache_valid_def demo_src_def)
  have p: "[''.cache/list.json'' \<mapsto> ''[1].''] (src_file demo_src) \<noteq> None" by (simp add: demo_src_def)
  have "\<forall>r \<in> set (fst (json_runs demo_src [demo_offline, demo_online ''x'' WriteFails] [''.cache/list.json'' \<mapsto> ''[1].''])).
          \<exists>a. r = Inr a"
    by (rule json_runs_never_fail [OF rt nt v p])
  moreover have "src_parse demo_src ''[1].'' = Some ''[1]''" by (simp add: demo_src_def)
  ultimately show ?thesis using rt nt by (simp add: list_all_iff)
qed

text \<open>
  C4. Recovery: whatever the cache held before, from the first run that fetches a parsable
  dataset and stores it, every later run loads a dataset, as long as no later write is torn.
  The runs before it may all fail; the loader is available from that run on.
\<close>

theorem json_runs_recover:
  assumes rt: "print_parse_roundtrip s"
    and fetched: "response_text (net w (src_url s)) = Inr body" "src_parse s body = Some d"
    and ok: "disk w = WriteOk"
    and nt: "\<forall>w' \<in> set ws2. \<not> torn (disk w')"
  shows "\<forall>r \<in> set (drop (length ws1) (fst (json_runs s (ws1 @ w # ws2) c))). \<exists>a. r = Inr a"
proof -
  obtain rs1 c1 where first: "json_runs s ws1 c = (rs1, c1)" by fastforce
  let ?c2 = "c1(src_file s \<mapsto> src_print s d)"
  have step: "load_json s w c1 = (Inr (src_select s d), ?c2)"
    using load_json_fetched [OF fetched] ok by simp
  have later: "\<forall>r \<in> set (fst (json_runs s ws c')). \<exists>a. r = Inr a"
    if "cache_valid s c'" "c' (src_file s) \<noteq> None" "\<forall>w' \<in> set ws. \<not> torn (disk w')" for ws c'
    using that
  proof (induction ws arbitrary: c')
    case Nil
    then show ?case by simp
  next
    case (Cons w' ws)
    obtain r c'' where run: "load_json s w' c' = (r, c'')" by fastforce
    show ?case using load_json_step_ok [OF rt _ Cons.prems(1,2) run] Cons.IH [of c''] Cons.prems(3) run
      by (auto split: prod.splits)
  qed
  have "cache_valid s ?c2" using rt by (simp add: cache_valid_def print_parse_roundtrip_def)
  then have rest: "\<forall>r \<in> set (fst (json_runs s ws2 ?c2)). \<exists>a. r = Inr a" using later nt by simp
  have "length rs1 = length ws1" using json_runs_length [of s ws1 c] first by simp
  then show ?thesis using first step rest by (auto simp: json_runs_append split: prod.splits)
qed

theorem json_runs_recover_witness:
  "print_parse_roundtrip demo_src
   \<and> response_text (net (demo_online ''[2].'' WriteOk) (src_url demo_src)) = Inr ''[2].''
   \<and> src_parse demo_src ''[2].'' = Some ''[2]'' \<and> disk (demo_online ''[2].'' WriteOk) = WriteOk
   \<and> \<not> torn (disk demo_offline) \<and> \<not> torn (disk (demo_online ''x'' WriteFails))
   \<and> hd (fst (json_runs demo_src [demo_offline, demo_online ''[2].'' WriteOk, demo_offline,
                                   demo_online ''x'' WriteFails] Map.empty))
       = Inl (FetchFailure ''https://cdn.example/list.json'' (NetworkError ''getaddrinfo ENOTFOUND''))
   \<and> list_all (\<lambda>r. \<exists>a. r = Inr a)
        (drop 1 (fst (json_runs demo_src [demo_offline, demo_online ''[2].'' WriteOk, demo_offline,
                                          demo_online ''x'' WriteFails] Map.empty)))"
proof -
  have rt: "print_parse_roundtrip demo_src" by (simp add: print_parse_roundtrip_def demo_src_def)
  have f: "response_text (net (demo_online ''[2].'' WriteOk) (src_url demo_src)) = Inr ''[2].''"
    "src_parse demo_src ''[2].'' = Some ''[2]''" and ok: "disk (demo_online ''[2].'' WriteOk) = WriteOk"
    by (simp_all add: demo_eval)
  have nt: "\<forall>w' \<in> set [demo_offline, demo_online ''x'' WriteFails]. \<not> torn (disk w')"
    by (simp add: demo_offline_def demo_online_def)
  have "\<forall>r \<in> set (drop (length [demo_offline]) (fst (json_runs demo_src ([demo_offline] @
          demo_online ''[2].'' WriteOk # [demo_offline, demo_online ''x'' WriteFails]) Map.empty))). \<exists>a. r = Inr a"
    by (rule json_runs_recover [OF rt f ok nt])
  moreover have "hd (fst (json_runs demo_src [demo_offline, demo_online ''[2].'' WriteOk, demo_offline,
                                   demo_online ''x'' WriteFails] Map.empty))
       = Inl (FetchFailure ''https://cdn.example/list.json'' (NetworkError ''getaddrinfo ENOTFOUND''))"
    by (simp add: demo_eval)
  ultimately show ?thesis using rt f ok nt by (simp add: list_all_iff)
qed

end
