(* ===== verification/Abi.thy ===== *)
theory Abi
  imports Fetch
begin

text \<open>
  The ABI resolver, src/skills/superfluid/scripts/abi.mjs: the static contract table
  \<open>ABI_MAP\<close> and alias table \<open>ALIASES\<close>, \<open>resolveContract\<close>, the CDN URL and
  cache path of an SDK module, \<open>loadModule\<close> (the module-mode instance of the fetch
  protocol of theory \<open>Fetch\<close>), the fragment lookup, and the command dispatch.
  A loaded SDK module is its list of named exports, each an ABI array of JSON items.
\<close>

section \<open>Static tables\<close>

record abi_entry =
  ae_module :: string
  ae_export :: string

definition abi_map :: "(string \<times> abi_entry) list" where
  "abi_map =
     [(''CFAv1Forwarder'', \<lparr>ae_module = ''main'', ae_export = ''cfaForwarderAbi''\<rparr>),
      (''GDAv1Forwarder'', \<lparr>ae_module = ''main'', ae_export = ''gdaForwarderAbi''\<rparr>),
      (''SuperfluidPool'', \<lparr>ae_module = ''main'', ae_export = ''gdaPoolAbi''\<rparr>),
      (''SuperToken'', \<lparr>ae_module = ''main'', ae_export = ''superTokenAbi''\<rparr>),
      (''Superfluid'', \<lparr>ae_module = ''core'', ae_export = ''hostAbi''\<rparr>),
      (''ConstantFlowAgreementV1'', \<lparr>ae_module = ''core'', ae_export = ''cfaAbi''\<rparr>),
      (''GeneralDistributionAgreementV1'', \<lparr>ae_module = ''core'', ae_export = ''gdaAbi''\<rparr>),
      (''InstantDistributionAgreementV1'', \<lparr>ae_module = ''core'', ae_export = ''idaAbi''\<rparr>),
      (''SuperTokenFactory'', \<lparr>ae_module = ''core'', ae_export = ''superTokenFactoryAbi''\<rparr>),
      (''BatchLiquidator'', \<lparr>ae_module = ''core'', ae_export = ''batchLiquidatorAbi''\<rparr>),
      (''TOGA'', \<lparr>ae_module = ''core'', ae_export = ''togaAbi''\<rparr>),
      (''Governance'', \<lparr>ae_module = ''core'', ae_export = ''governanceAbi''\<rparr>),
      (''AutoWrapManager'', \<lparr>ae_module = ''automation'', ae_export = ''autoWrapManagerAbi''\<rparr>),
      (''AutoWrapStrategy'', \<lparr>ae_module = ''automation'', ae_export = ''autoWrapStrategyAbi''\<rparr>),
      (''FlowScheduler'', \<lparr>ae_module = ''automation'', ae_export = ''flowSchedulerAbi''\<rparr>),
      (''VestingSchedulerV3'', \<lparr>ae_module = ''automation'', ae_export = ''vestingSchedulerV3Abi''\<rparr>)]"

definition aliases :: "(string \<times> string) list" where
  "aliases =
     [(''cfaforwarder'', ''CFAv1Forwarder''),
      (''gdaforwarder'', ''GDAv1Forwarder''),
      (''pool'', ''SuperfluidPool''),
      (''gdapool'', ''SuperfluidPool''),
      (''supertoken'', ''SuperToken''),
      (''token'', ''SuperToken''),
      (''host'', ''Superfluid''),
      (''cfa'', ''ConstantFlowAgreementV1''),
      (''gda'', ''GeneralDistributionAgreementV1''),
      (''ida'', ''InstantDistributionAgreementV1''),
      (''supertokenfactory'', ''SuperTokenFactory''),
      (''factory'', ''SuperTokenFactory''),
      (''batchliquidator'', ''BatchLiquidator''),
      (''liquidator'', ''BatchLiquidator''),
      (''toga'', ''TOGA''),
      (''governance'', ''Governance''),
      (''autowrapmanager'', ''AutoWrapManager''),
      (''autowrap'', ''AutoWrapManager''),
      (''autowrapstrategy'', ''AutoWrapStrategy''),
      (''flowscheduler'', ''FlowScheduler''),
      (''vestingschedulerv3'', ''VestingSchedulerV3''),
      (''vestingscheduler'', ''VestingSchedulerV3''),
      (''vesting'', ''VestingSchedulerV3'')]"

section \<open>Contract resolution\<close>

text \<open>
  \<open>resolveContract\<close>: a case-insensitive match on the canonical names first, then
  \<open>ALIASES[query.toLowerCase()] ?? null\<close>. The alias table is a plain object, so a
  lower-case query naming a member of \<open>Object.prototype\<close> (\<open>constructor\<close>,
  \<open>__proto__\<close>) yields that inherited member instead of \<open>null\<close>.
\<close>

datatype contract_ref =
    Canonical string
  | ProtoMember string

definition resolve_contract :: "string \<Rightarrow> contract_ref option" where
  "resolve_contract query =
     (case find (\<lambda>k. js_lower k = js_lower query) (map fst abi_map) of
        Some k \<Rightarrow> Some (Canonical k)
      | None \<Rightarrow>
          (case js_get aliases (js_lower query) of
             Own n \<Rightarrow> Some (Canonical n)
           | Inherited k \<Rightarrow> Some (ProtoMember k)
           | Undefined \<Rightarrow> None))"

section \<open>Where a module comes from\<close>

definition cdn_base :: string where
  "cdn_base = ''https://cdn.jsdelivr.net/npm/@sfpro/sdk/dist/abi''"

definition cache_dir :: path where
  "cache_dir = ''.cache''"

definition cdn_url :: "string \<Rightarrow> string" where
  "cdn_url m = (if m = ''main'' then cdn_base @ ''/generated.js'' else cdn_base @ ''/'' @ m @ ''/generated.js'')"

definition cache_file :: "string \<Rightarrow> path" where
  "cache_file m = cache_dir @ ''/abi-'' @ m @ ''.mjs''"

definition sdk_import_path :: "string \<Rightarrow> string" where
  "sdk_import_path m = (if m = ''main'' then ''@sfpro/sdk/abi'' else ''@sfpro/sdk/abi/'' @ m)"

type_synonym abi_module = "(string \<times> json list) list"

definition load_module ::
  "(blob \<Rightarrow> abi_module option) \<Rightarrow> string \<Rightarrow> world \<Rightarrow> cache \<Rightarrow> (crash + abi_module) \<times> cache" where
  "load_module ev m w c = load_module_at (cdn_url m) (cache_file m) ev w c"

section \<open>Fragments and output\<close>

text \<open>\<open>item.name\<close> of an ABI item (every name in an SDK ABI is a string).\<close>

definition item_name :: "json \<Rightarrow> string option" where
  "item_name it =
     (case it of
        JObj ms \<Rightarrow> (case map_of ms ''name'' of Some (JStr s) \<Rightarrow> Some s | _ \<Rightarrow> None)
      | _ \<Rightarrow> None)"

text \<open>\<open>abi.filter(item => item.name?.toLowerCase() === fnName.toLowerCase())\<close>\<close>

definition fragments :: "json list \<Rightarrow> string \<Rightarrow> json list" where
  "fragments abi fn = filter (\<lambda>it. map_option js_lower (item_name it) = Some (js_lower fn)) abi"

text \<open>The hint: the number of distinct truthy names, by the \<open>indexOf\<close> idiom.\<close>

definition named_entries :: "json list \<Rightarrow> nat" where
  "named_entries abi = length (js_unique (filter (\<lambda>n. n \<noteq> []) (List.map_filter item_name abi)))"

datatype abi_error =
    UnknownContract string
  | NotInSdk string string
  | ExportNotFound string string
  | NoAbiEntry string string nat

definition not_in_sdk :: "string list" where
  "not_in_sdk = [''CFASuperAppBase'', ''SuperTokenV1Library'']"

definition abi_full_output :: "string \<Rightarrow> abi_entry \<Rightarrow> json list \<Rightarrow> json" where
  "abi_full_output name e abi =
     JObj [(''contract'', JStr name), (''sdkImport'', JStr (sdk_import_path (ae_module e))),
           (''sdkExport'', JStr (ae_export e)), (''abi'', JArr abi)]"

text \<open>Lines 179--190: an empty function name is falsy and prints the whole ABI.\<close>

definition abi_output :: "string \<Rightarrow> abi_entry \<Rightarrow> json list \<Rightarrow> string list \<Rightarrow> abi_error outcome" where
  "abi_output name e abi args =
     (case args of
        fn # _ \<Rightarrow>
          if fn \<noteq> [] then
            (case fragments abi fn of
               [] \<Rightarrow> Failed (NoAbiEntry fn name (named_entries abi))
             | [f] \<Rightarrow> Printed f
             | fs \<Rightarrow> Printed (JArr fs))
          else Printed (abi_full_output name e abi)
      | [] \<Rightarrow> Printed (abi_full_output name e abi))"

definition abi_list_output :: json where
  "abi_list_output =
     JArr (map (\<lambda>(name, e). JObj [(''contract'', JStr name),
                                  (''sdkImport'', JStr (sdk_import_path (ae_module e))),
                                  (''sdkExport'', JStr (ae_export e))]) abi_map)"

section \<open>Command dispatch\<close>

text \<open>
  The default branch. A prototype member returned by \<open>resolveContract\<close> is truthy,
  and \<open>ABI_MAP[name]\<close> on it is \<open>undefined\<close>, so \<open>entry.module\<close> throws.
\<close>

definition abi_lookup ::
  "(blob \<Rightarrow> abi_module option) \<Rightarrow> string \<Rightarrow> string list \<Rightarrow> world \<Rightarrow> cache \<Rightarrow> abi_error outcome \<times> cache" where
  "abi_lookup ev command args w c =
     (case resolve_contract command of
        None \<Rightarrow>
          (case find (\<lambda>n. js_lower n = js_lower command) not_in_sdk of
             Some m \<Rightarrow> (Failed (NotInSdk m (if m = ''CFASuperAppBase'' then ''abstract base contract''
                                             else ''Solidity library'')), c)
           | None \<Rightarrow> (Failed (UnknownContract command), c))
      | Some (ProtoMember k) \<Rightarrow> (Crashed (TypeError ''Cannot read properties of undefined (reading 'module')''), c)
      | Some (Canonical name) \<Rightarrow>
          (case js_get abi_map name of
             Own e \<Rightarrow>
               (case load_module ev (ae_module e) w c of
                  (Inl cr, c') \<Rightarrow> (Crashed cr, c')
                | (Inr md, c') \<Rightarrow>
                    (case map_of md (ae_export e) of
                       None \<Rightarrow> (Failed (ExportNotFound (ae_export e) (ae_module e)), c')
                     | Some abi \<Rightarrow> (abi_output name e abi args, c')))
           | _ \<Rightarrow> (Crashed (TypeError ''Cannot read properties of undefined (reading 'module')''), c)))"

definition abi_main ::
  "(blob \<Rightarrow> abi_module option) \<Rightarrow> string list \<Rightarrow> world \<Rightarrow> cache \<Rightarrow> abi_error outcome \<times> cache" where
  "abi_main ev argv w c =
     (case argv of
        [] \<Rightarrow> (Usage 0, c)
      | command # args \<Rightarrow>
          if command = ''list'' then (Printed abi_list_output, c)
          else if command \<in> set [''help'', ''--help'', ''-h''] then (Usage 0, c)
          else abi_lookup ev command args w c)"


section \<open>A concrete SDK module for the witnesses\<close>

definition demo_item :: "string \<Rightarrow> string \<Rightarrow> json" where
  "demo_item t n = JObj [(''type'', JStr t), (''name'', JStr n)]"

definition demo_token_abi :: "json list" where
  "demo_token_abi =
     [demo_item ''function'' ''transfer'', demo_item ''function'' ''approve'',
      demo_item ''event'' ''Approval'', demo_item ''function'' ''approve'',
      JObj [(''type'', JStr ''constructor'')]]"

definition demo_sdk :: "blob \<Rightarrow> abi_module option" where
  "demo_sdk code =
     (if code = ''export const superTokenAbi = [...]'' then Some [(''superTokenAbi'', demo_token_abi)] else None)"

section \<open>Lemmas on the tables and on resolution\<close>

lemmas abi_tables = abi_map_def aliases_def not_in_sdk_def

lemma aliases_canonical: "\<forall>(a, n) \<in> set aliases. n \<in> set (map fst abi_map)"
  by (simp add: abi_tables)

lemma abi_map_keys_self: "\<forall>n \<in> set (map fst abi_map). resolve_contract n = Some (Canonical n)"
  by (simp add: resolve_contract_def abi_tables js_eval)

lemma resolve_contract_lower:
  assumes "js_lower q = js_lower q'"
  shows "resolve_contract q = resolve_contract q'"
  unfolding resolve_contract_def by (simp only: assms)

lemma resolve_contract_in_map:
  assumes "resolve_contract q = Some (Canonical n)"
  shows "n \<in> set (map fst abi_map)"
proof (cases "find (\<lambda>k. js_lower k = js_lower q) (map fst abi_map)")
  case None
  with assms obtain a where "map_of aliases a = Some n"
    by (auto simp: resolve_contract_def js_get_def split: option.splits if_splits js_prop.splits)
  then have "(a, n) \<in> set aliases" by (rule map_of_SomeD)
  with aliases_canonical show ?thesis by auto
next
  case (Some k)
  with assms show ?thesis by (auto simp: resolve_contract_def find_Some_iff)
qed

lemma abi_lookup_canonical:
  assumes "resolve_contract q = Some (Canonical name)" and "map_of abi_map name = Some e"
  shows "abi_lookup ev q args w c =
           (case load_module ev (ae_module e) w c of
              (Inl cr, c') \<Rightarrow> (Crashed cr, c')
            | (Inr md, c') \<Rightarrow>
                (case map_of md (ae_export e) of
                   None \<Rightarrow> (Failed (ExportNotFound (ae_export e) (ae_module e)), c')
                 | Some abi \<Rightarrow> (abi_output name e abi args, c')))"
  using assms by (simp add: abi_lookup_def)

lemma named_entries_card:
  "named_entries abi = card {n. n \<noteq> [] \<and> (\<exists>it \<in> set abi. item_name it = Some n)}"
proof -
  have "set (filter (\<lambda>n. n \<noteq> []) (List.map_filter item_name abi))
          = {n. n \<noteq> [] \<and> (\<exists>it \<in> set abi. item_name it = Some n)}"
    by (auto simp: set_map_filter_eq)
  then show ?thesis by (simp add: named_entries_def length_js_unique)
qed

lemma map_of_abi_map_CFA:
  "map_of abi_map ''ConstantFlowAgreementV1'' = Some \<lparr>ae_module = ''core'', ae_export = ''cfaAbi''\<rparr>"
  by (simp add: abi_map_def)

lemma demo_load:
  "load_module demo_sdk (ae_module \<lparr>ae_module = ''main'', ae_export = ''superTokenAbi''\<rparr>)
     \<lparr>net = \<lambda>_. Response 200 ''export const superTokenAbi = [...]'', disk = WriteOk\<rparr> Map.empty
     = (Inr [(''superTokenAbi'', demo_token_abi)], [''.cache/abi-main.mjs'' \<mapsto> ''export const superTokenAbi = [...]''])"
  by (simp add: load_module_def load_module_at_def import_file_def demo_sdk_def cache_file_def
                cache_dir_def res_ok_def)

lemma abi_main_lookup:
  assumes "js_lower q \<noteq> ''list''" "js_lower q \<notin> {''help'', ''--help'', ''-h''}"
  shows "abi_main ev (q # args) w c = abi_lookup ev q args w c"
proof -
  have "q \<noteq> ''list'' \<and> q \<notin> {''help'', ''--help'', ''-h''}"
    using assms by (auto simp: js_eval)
  then show ?thesis by (simp add: abi_main_def)
qed

lemma resolve_contract_proto:
  "list_all (\<lambda>k. js_lower k = k \<longrightarrow> resolve_contract k = Some (ProtoMember k)) object_prototype_keys"
  by (simp add: object_prototype_keys_def resolve_contract_def abi_tables js_eval)

lemma resolve_contract_proto_member:
  "resolve_contract q = Some (ProtoMember k) \<Longrightarrow> js_lower q \<in> set object_prototype_keys"
  by (auto simp: resolve_contract_def js_get_def split: option.splits if_splits)

lemma load_module_no_type_error: "fst (load_module ev m w c) \<noteq> Inl (TypeError s)"
  by (auto simp: load_module_def load_module_at_def import_file_def Let_def
      split: sum.splits option.splits)

lemma abi_output_not_crashed [simp]: "abi_output name e abi args \<noteq> Crashed x"
  by (auto simp: abi_output_def split: list.splits)

section \<open>Properties of the ABI resolver\<close>

text \<open>
  C5. Fragment cardinality: once the contract resolves and its ABI is loaded, a
  function name with exactly one match among the ABI items whose name equals it up to
  letter case prints that entry alone, one with several matches prints them all as an
  array in ABI order, and one with none fails with a hint that counts the distinct non-empty names of the ABI.
\<close>

theorem abi_fragment_cardinality:
  assumes r: "resolve_contract q = Some (Canonical name)" and e: "map_of abi_map name = Some e"
    and q: "q \<notin> set [''list'', ''help'', ''--help'', ''-h'']"
    and ld: "load_module ev (ae_module e) w c = (Inr md, c')" and x: "map_of md (ae_export e) = Some abi"
    and fn: "fn \<noteq> []"
  shows "(filter (\<lambda>it. map_option js_lower (item_name it) = Some (js_lower fn)) abi = [f]
            \<longrightarrow> abi_main ev (q # fn # rest) w c = (Printed f, c')) \<and>
         (2 \<le> length (filter (\<lambda>it. map_option js_lower (item_name it) = Some (js_lower fn)) abi) \<longrightarrow>
            abi_main ev (q # fn # rest) w c
              = (Printed (JArr (filter (\<lambda>it. map_option js_lower (item_name it) = Some (js_lower fn)) abi)), c')) \<and>
         (filter (\<lambda>it. map_option js_lower (item_name it) = Some (js_lower fn)) abi = [] \<longrightarrow>
            abi_main ev (q # fn # rest) w c =
              (Failed (NoAbiEntry fn name (card {n. n \<noteq> [] \<and> (\<exists>it \<in> set abi. item_name it = Some n)})), c'))"
proof -
  have fr: "fragments abi fn = filter (\<lambda>it. map_option js_lower (item_name it) = Some (js_lower fn)) abi" by (simp add: fragments_def)
  have main: "abi_main ev (q # fn # rest) w c = (abi_output name e abi (fn # rest), c')"
    using q ld x by (simp add: abi_main_def abi_lookup_canonical [OF r e])
  have many: "abi_output name e abi (fn # rest) = Printed (JArr (fragments abi fn))"
    if "2 \<le> length (fragments abi fn)"
    using that fn by (auto simp: abi_output_def split: list.splits)
  show ?thesis unfolding fr [symmetric]
    using main many fn by (simp add: abi_output_def named_entries_card)
qed

theorem abi_fragment_cardinality_witness:
  "abi_main demo_sdk [''token'', ''TRANSFER'']
       \<lparr>net = \<lambda>_. Response 200 ''export const superTokenAbi = [...]'', disk = WriteOk\<rparr> Map.empty
     = (Printed (demo_item ''function'' ''transfer''),
        [''.cache/abi-main.mjs'' \<mapsto> ''export const superTokenAbi = [...]''])
   \<and> abi_main demo_sdk [''token'', ''approve'']
       \<lparr>net = \<lambda>_. Response 200 ''export const superTokenAbi = [...]'', disk = WriteOk\<rparr> Map.empty
     = (Printed (JArr [demo_item ''function'' ''approve'', demo_item ''function'' ''approve'']),
        [''.cache/abi-main.mjs'' \<mapsto> ''export const superTokenAbi = [...]''])
   \<and> abi_main demo_sdk [''token'', ''mint'']
       \<lparr>net = \<lambda>_. Response 200 ''export const superTokenAbi = [...]'', disk = WriteOk\<rparr> Map.empty
     = (Failed (NoAbiEntry ''mint'' ''SuperToken'' 3),
        [''.cache/abi-main.mjs'' \<mapsto> ''export const superTokenAbi = [...]''])"
proof -
  have r: "resolve_contract ''token'' = Some (Canonical ''SuperToken'')"
    by (simp add: resolve_contract_def abi_tables js_eval)
  have e: "map_of abi_map ''SuperToken'' = Some \<lparr>ae_module = ''main'', ae_export = ''superTokenAbi''\<rparr>"
    by (simp add: abi_map_def)
  have q: "''token'' \<notin> set [''list'', ''help'', ''--help'', ''-h'']" by simp
  have x: "map_of [(''superTokenAbi'', demo_token_abi)]
             (ae_export \<lparr>ae_module = ''main'', ae_export = ''superTokenAbi''\<rparr>) = Some demo_token_abi"
    by simp
  note fc = abi_fragment_cardinality [OF r e q demo_load x]
  have f1: "fragments demo_token_abi ''TRANSFER'' = [demo_item ''function'' ''transfer'']"
    by (simp add: fragments_def demo_token_abi_def demo_item_def item_name_def js_eval)
  have f2: "fragments demo_token_abi ''approve''
              = [demo_item ''function'' ''approve'', demo_item ''function'' ''approve'']"
    by (simp add: fragments_def demo_token_abi_def demo_item_def item_name_def js_eval)
  have f3: "fragments demo_token_abi ''mint'' = []"
    by (simp add: fragments_def demo_token_abi_def demo_item_def item_name_def js_eval)
  have "{n. n \<noteq> [] \<and> (\<exists>it \<in> set demo_token_abi. item_name it = Some n)} = {''transfer'', ''approve'', ''Approval''}"
    by (auto simp: demo_token_abi_def demo_item_def item_name_def)
  then have card3: "card {n. n \<noteq> [] \<and> (\<exists>it \<in> set demo_token_abi. item_name it = Some n)} = 3"
    by simp
  show ?thesis
    using fc [of "''TRANSFER''" "demo_item ''function'' ''transfer''" "[]"]
          fc [of "''approve''" "demo_item ''function'' ''transfer''" "[]"]
          fc [of "''mint''" "demo_item ''function'' ''transfer''" "[]"]
          f1 f2 f3 card3
    by (simp add: fragments_def)
qed

text \<open>
  C6. Contract resolution is case-insensitive and idempotent: two queries equal up to
  case resolve to the same canonical contract, and resolving that canonical name yields
  it again.
\<close>

theorem resolve_contract_case_insensitive:
  assumes "js_lower q = js_lower q'" and "resolve_contract q = Some (Canonical n)"
  shows "resolve_contract q' = Some (Canonical n) \<and> resolve_contract n = Some (Canonical n)"
proof -
  have "n \<in> set (map fst abi_map)" using assms(2) by (rule resolve_contract_in_map)
  with abi_map_keys_self have "resolve_contract n = Some (Canonical n)" by blast
  with assms show ?thesis using resolve_contract_lower [OF assms(1)] by simp
qed

theorem resolve_contract_case_insensitive_witness:
  "js_lower ''CFA'' = js_lower ''cfa''
   \<and> resolve_contract ''CFA'' = Some (Canonical ''ConstantFlowAgreementV1'')
   \<and> resolve_contract ''cfa'' = Some (Canonical ''ConstantFlowAgreementV1'')
   \<and> resolve_contract ''ConstantFlowAgreementV1'' = Some (Canonical ''ConstantFlowAgreementV1'')"
proof -
  have l: "js_lower ''CFA'' = js_lower ''cfa''" by (simp add: js_eval)
  have r: "resolve_contract ''CFA'' = Some (Canonical ''ConstantFlowAgreementV1'')"
    by (simp add: resolve_contract_def abi_tables js_eval)
  show ?thesis using l r resolve_contract_case_insensitive [OF l r] by simp
qed

text \<open>
  C7. Without network and without a cached module, the ABI command does not print the
  diagnostic that names the CDN URL and the fetch error: the rejected \<open>import\<close> of the
  missing cache file escapes as an uncaught rejection.
\<close>

theorem abi_offline_without_cache_crashes:
  assumes "resolve_contract q = Some (Canonical name)" and "map_of abi_map name = Some e"
    and "q \<notin> set [''list'', ''help'', ''--help'', ''-h'']"
    and "response_text (net w (cdn_url (ae_module e))) = Inl err"
    and "c (cache_file (ae_module e)) = None"
  shows "abi_main ev (q # args) w c = (Crashed (ModuleNotFound (cache_file (ae_module e))), c)"
  using assms
  by (simp add: abi_main_def abi_lookup_canonical load_module_def load_module_at_def import_file_def)

theorem abi_offline_without_cache_crashes_witness:
  "abi_main demo_sdk [''cfa''] \<lparr>net = \<lambda>_. Rejected ''offline'', disk = WriteOk\<rparr> Map.empty
     = (Crashed (ModuleNotFound ''.cache/abi-core.mjs''), Map.empty)"
proof -
  have r: "resolve_contract ''cfa'' = Some (Canonical ''ConstantFlowAgreementV1'')"
    by (simp add: resolve_contract_def abi_tables js_eval)
  have q: "''cfa'' \<notin> set [''list'', ''help'', ''--help'', ''-h'']" by simp
  have n: "response_text (net \<lparr>net = \<lambda>_. Rejected ''offline'', disk = WriteOk\<rparr>
             (cdn_url (ae_module \<lparr>ae_module = ''core'', ae_export = ''cfaAbi''\<rparr>))) = Inl (NetworkError ''offline'')"
    by simp
  have c: "(Map.empty :: cache) (cache_file (ae_module \<lparr>ae_module = ''core'', ae_export = ''cfaAbi''\<rparr>)) = None"
    by simp
  show ?thesis
    using abi_offline_without_cache_crashes [OF r map_of_abi_map_CFA q n c, of demo_sdk "[]"]
    by (simp add: cache_file_def cache_dir_def)
qed

text \<open>
  C8. When the fetch succeeds but the cache write fails, \<open>loadModule\<close> does not use the
  code it just fetched: it imports whatever older module the cache file still holds.
\<close>

theorem load_module_ignores_fetched_code:
  assumes "response_text (net w (cdn_url m)) = Inr code" and "disk w = WriteFails"
    and "c (cache_file m) = Some old" and "ev old = Some md"
  shows "load_module ev m w c = (Inr md, c)"
  using assms by (simp add: load_module_def load_module_at_def import_file_def)

theorem load_module_ignores_fetched_code_witness:
  "load_module demo_sdk ''main'' \<lparr>net = \<lambda>_. Response 200 ''export const superTokenAbi = [/* v2 */]'', disk = WriteFails\<rparr>
      [''.cache/abi-main.mjs'' \<mapsto> ''export const superTokenAbi = [...]'']
     = (Inr [(''superTokenAbi'', demo_token_abi)], [''.cache/abi-main.mjs'' \<mapsto> ''export const superTokenAbi = [...]''])"
proof -
  let ?w = "\<lparr>net = \<lambda>_. Response 200 ''export const superTokenAbi = [/* v2 */]'', disk = WriteFails\<rparr>"
  let ?c = "[''.cache/abi-main.mjs'' \<mapsto> ''export const superTokenAbi = [...]'']"
  have a: "response_text (net ?w (cdn_url ''main'')) = Inr ''export const superTokenAbi = [/* v2 */]''"
    by (simp add: res_ok_def)
  have b: "disk ?w = WriteFails" by simp
  have c: "?c (cache_file ''main'') = Some ''export const superTokenAbi = [...]''"
    by (simp add: cache_file_def cache_dir_def)
  have d: "demo_sdk ''export const superTokenAbi = [...]'' = Some [(''superTokenAbi'', demo_token_abi)]"
    by (simp add: demo_sdk_def)
  from a b c d show ?thesis by (rule load_module_ignores_fetched_code)
qed

text \<open>
  C9. A query whose lower-case form names a member of \<open>Object.prototype\<close>
  (\<open>constructor\<close> or \<open>__proto__\<close>; a member with capitals, such as
  \<open>hasOwnProperty\<close>, is never a lower-case form) is not reported as an unknown
  contract, in any letter case and whatever follows it: the alias lookup returns the inherited member and the script crashes with a
  TypeError, before any module is fetched and with the cache untouched.
\<close>

theorem abi_prototype_name_crashes:
  assumes p: "js_lower q \<in> set object_prototype_keys"
  shows "abi_main ev (q # args) w c
     = (Crashed (TypeError ''Cannot read properties of undefined (reading 'module')''), c)"
proof -
  let ?l = "js_lower q"
  have low: "js_lower ?l = ?l" by simp
  have "resolve_contract q = resolve_contract ?l" by (rule resolve_contract_lower) simp
  moreover have "resolve_contract ?l = Some (ProtoMember ?l)"
    using resolve_contract_proto p low by (auto simp: list_all_iff)
  moreover have "?l \<noteq> ''list''" "?l \<notin> {''help'', ''--help'', ''-h''}"
    using p by (auto simp: object_prototype_keys_def)
  ultimately show ?thesis by (simp add: abi_main_lookup abi_lookup_def)
qed

theorem abi_prototype_name_crashes_witness:
  "js_lower ''Constructor'' \<in> set object_prototype_keys
   \<and> abi_main demo_sdk [''Constructor'', ''host''] demo_offline Map.empty
     = (Crashed (TypeError ''Cannot read properties of undefined (reading 'module')''), Map.empty)"
proof -
  have p: "js_lower ''Constructor'' \<in> set object_prototype_keys"
    by (simp add: object_prototype_keys_def js_eval)
  show ?thesis using p abi_prototype_name_crashes [OF p, of demo_sdk "[''host'']" demo_offline Map.empty] by simp
qed

text \<open>
  C10. A contract deliberately absent from the SDK is told apart from an unknown one, in
  any letter case and whatever follows it: the diagnostic names its canonical spelling and
  why it is absent, and nothing is fetched.
\<close>

theorem abi_not_in_sdk:
  assumes m: "m \<in> set not_in_sdk" and q: "js_lower q = js_lower m"
  shows "abi_main ev (q # args) w c
     = (Failed (NotInSdk m (if m = ''CFASuperAppBase'' then ''abstract base contract'' else ''Solidity library'')), c)"
proof -
  have "resolve_contract q = resolve_contract m" by (rule resolve_contract_lower) (rule q)
  moreover have "resolve_contract m = None"
  proof -
    have "resolve_contract ''CFASuperAppBase'' = None" "resolve_contract ''SuperTokenV1Library'' = None"
      by (simp_all add: resolve_contract_def abi_tables js_eval)
    with m show ?thesis by (auto simp: not_in_sdk_def)
  qed
  moreover have "find (\<lambda>n. js_lower n = js_lower q) not_in_sdk = Some m"
    using m unfolding q by (auto simp: abi_tables js_eval)
  moreover have "js_lower q \<noteq> ''list''" "js_lower q \<notin> {''help'', ''--help'', ''-h''}"
    using m unfolding q by (auto simp: abi_tables js_eval)
  ultimately show ?thesis by (simp add: abi_main_lookup abi_lookup_def)
qed

theorem abi_not_in_sdk_witness:
  "''SuperTokenV1Library'' \<in> set not_in_sdk \<and> js_lower ''superTokenV1library'' = js_lower ''SuperTokenV1Library''
   \<and> abi_main demo_sdk [''superTokenV1library''] demo_offline Map.empty
     = (Failed (NotInSdk ''SuperTokenV1Library'' ''Solidity library''), Map.empty)"
proof -
  have m: "''SuperTokenV1Library'' \<in> set not_in_sdk" by (simp add: not_in_sdk_def)
  have q: "js_lower ''superTokenV1library'' = js_lower ''SuperTokenV1Library''" by (simp add: js_eval)
  show ?thesis using m q abi_not_in_sdk [OF m q, of demo_sdk "[]" demo_offline Map.empty] by simp
qed

text \<open>
  C11. The \<open>'module'\<close> TypeError of C9 has no other source: for every query whose
  lower-case form is not a member of \<open>Object.prototype\<close>, every name \<open>resolveContract\<close>
  returns, through the canonical names or through an alias, has its entry in
  \<open>ABI_MAP\<close>, so \<open>entry.module\<close> is never read on \<open>undefined\<close>, whatever the
  network, the cache and the loaded module.
\<close>

theorem abi_no_undefined_entry:
  assumes p: "js_lower q \<notin> set object_prototype_keys"
  shows "fst (abi_main ev (q # args) w c) \<noteq> Crashed (TypeError ''Cannot read properties of undefined (reading 'module')'')"
proof (cases "resolve_contract q")
  case None
  then show ?thesis by (auto simp: abi_main_def abi_lookup_def split: option.splits)
next
  case (Some r)
  show ?thesis
  proof (cases r)
    case (ProtoMember k)
    then show ?thesis using Some p resolve_contract_proto_member by blast
  next
    case (Canonical n)
    have "n \<in> set (map fst abi_map)" using resolve_contract_in_map Some Canonical by simp
    then obtain e where e: "map_of abi_map n = Some e" by (cases "map_of abi_map n") (auto simp: map_of_eq_None_iff)
    obtain x c' where ld: "load_module ev (ae_module e) w c = (x, c')" by fastforce
    have "x \<noteq> Inl (TypeError ''Cannot read properties of undefined (reading 'module')'')"
      using load_module_no_type_error [of ev "ae_module e" w c] ld by simp
    then show ?thesis using Some Canonical e ld
      by (auto simp: abi_main_def abi_lookup_canonical split: sum.splits option.splits)
  qed
qed

theorem abi_no_undefined_entry_witness:
  "js_lower ''CFA'' \<notin> set object_prototype_keys
   \<and> fst (abi_main demo_sdk [''CFA''] demo_offline Map.empty)
       \<noteq> Crashed (TypeError ''Cannot read properties of undefined (reading 'module')'')"
proof -
  have p: "js_lower ''CFA'' \<notin> set object_prototype_keys" by (simp add: object_prototype_keys_def js_eval)
  show ?thesis using p abi_no_undefined_entry [OF p, of demo_sdk "[]" demo_offline Map.empty] by simp
qed

end
