(* ===== verification/JsNumber.thy ===== *)
theory JsNumber
  imports Prelude
begin

text \<open>
  The JavaScript conversion \<open>Number(s)\<close> of a string (ECMAScript StringToNumber),
  which metadata.mjs, tokenlist.mjs and balance.mjs apply to chain ids and amounts:
  white space is trimmed, the empty string is 0, a decimal literal (with sign, fraction,
  exponent, or \<open>Infinity\<close>) or an unsigned \<open>0b\<close>/\<open>0o\<close>/\<open>0x\<close> literal is
  read exactly and rounded to the nearest double, and anything else is \<open>NaN\<close>.
  A number is \<open>NaN\<close>, a finite value (the exact rational the double denotes; +0 and
  -0 are one value, which \<open>===\<close> does not tell apart), or an infinity.
\<close>

datatype js_num = NaN | Num rat | PosInf | NegInf

text \<open>\<open>isNaN(x)\<close> and \<open>x === y\<close> on numbers.\<close>

definition js_is_nan :: "js_num \<Rightarrow> bool" where
  "js_is_nan x \<longleftrightarrow> x = NaN"

definition js_num_eq :: "js_num \<Rightarrow> js_num \<Rightarrow> bool" where
  "js_num_eq x y \<longleftrightarrow> x \<noteq> NaN \<and> x = y"

text \<open>StrWhiteSpaceChar on Latin-1: TAB, LF, VT, FF, CR, SPACE, NBSP.\<close>

definition js_ws :: "char \<Rightarrow> bool" where
  "js_ws c \<longleftrightarrow> (of_char c :: nat) \<in> {9, 10, 11, 12, 13, 32, 160}"

definition js_trim :: "string \<Rightarrow> string" where
  "js_trim s = rev (dropWhile js_ws (rev (dropWhile js_ws s)))"

text \<open>The value of a digit in a radix up to 36, case-insensitive for letters.\<close>

definition digit_val :: "nat \<Rightarrow> char \<Rightarrow> nat option" where
  "digit_val radix c =
     (let n = of_char c :: nat;
          d = (if 48 \<le> n \<and> n \<le> 57 then n - 48
               else if 97 \<le> n \<and> n \<le> 122 then n - 87
               else if 65 \<le> n \<and> n \<le> 90 then n - 55 else radix)
      in if d < radix then Some d else None)"

fun take_digits :: "nat \<Rightarrow> string \<Rightarrow> nat list \<times> string" where
  "take_digits r [] = ([], [])"
| "take_digits r (c # cs) =
     (case digit_val r c of
        None \<Rightarrow> ([], c # cs)
      | Some d \<Rightarrow> (let (ds, rest) = take_digits r cs in (d # ds, rest)))"

definition digits_nat :: "nat \<Rightarrow> nat list \<Rightarrow> nat" where
  "digits_nat r ds = foldl (\<lambda>acc d. acc * r + d) 0 ds"

definition parse_exponent :: "string \<Rightarrow> int option" where
  "parse_exponent s =
     (case s of
        [] \<Rightarrow> Some 0
      | c # r \<Rightarrow>
          if c = CHR ''e'' \<or> c = CHR ''E'' then
            (let (sg, r') = (case r of
                               x # r'' \<Rightarrow> if x = CHR ''+'' then (1, r'') else if x = CHR ''-'' then (-1, r'') else (1, r)
                             | [] \<Rightarrow> (1, r));
                 (ds, rest) = take_digits 10 r'
             in if ds \<noteq> [] \<and> rest = [] then Some (sg * int (digits_nat 10 ds)) else None)
          else None)"

definition scaled :: "nat list \<Rightarrow> nat \<Rightarrow> int \<Rightarrow> rat" where
  "scaled ds k e = of_nat (digits_nat 10 ds) * 10 powi (e - int k)"

definition parse_unsigned_decimal :: "string \<Rightarrow> rat option" where
  "parse_unsigned_decimal s =
     (let (ip, r1) = take_digits 10 s in
      case r1 of
        c # r2 \<Rightarrow>
          if c = CHR ''.'' then
            (let (fp, r3) = take_digits 10 r2 in
             if ip = [] \<and> fp = [] then None
             else map_option (scaled (ip @ fp) (length fp)) (parse_exponent r3))
          else if ip = [] then None else map_option (scaled ip 0) (parse_exponent r1)
      | [] \<Rightarrow> if ip = [] then None else Some (of_nat (digits_nat 10 ip)))"

text \<open>The mathematical value of a StrNumericLiteral: finite, or an infinity with its sign.\<close>

datatype literal_value = LitFin rat | LitInf bool

definition parse_nondecimal :: "string \<Rightarrow> rat option" where
  "parse_nondecimal s =
     (case s of
        z # p # ds \<Rightarrow>
          (let radix = (if p = CHR ''b'' \<or> p = CHR ''B'' then 2
                        else if p = CHR ''o'' \<or> p = CHR ''O'' then 8
                        else if p = CHR ''x'' \<or> p = CHR ''X'' then 16 else 0)
           in if z = CHR ''0'' \<and> radix \<noteq> 0 then
                (let (vs, rest) = take_digits radix ds in
                 if vs \<noteq> [] \<and> rest = [] then Some (of_nat (digits_nat radix vs)) else None)
              else None)
      | _ \<Rightarrow> None)"

definition parse_signed_decimal :: "string \<Rightarrow> literal_value option" where
  "parse_signed_decimal s =
     (let (neg, u) = (case s of
                        c # r \<Rightarrow> if c = CHR ''-'' then (True, r) else if c = CHR ''+'' then (False, r) else (False, s)
                      | [] \<Rightarrow> (False, s))
      in if u = ''Infinity'' then Some (LitInf (\<not> neg))
         else map_option (\<lambda>v. LitFin (if neg then - v else v)) (parse_unsigned_decimal u))"

definition str_numeric_literal :: "string \<Rightarrow> literal_value option" where
  "str_numeric_literal s =
     (case parse_nondecimal s of
        Some v \<Rightarrow> Some (LitFin v)
      | None \<Rightarrow> parse_signed_decimal s)"

text \<open>\<open>\<lfloor>log2 r\<rfloor>\<close> of a positive rational, computed on its floor or on the ceiling of its inverse.\<close>

fun nat_log2 :: "nat \<Rightarrow> nat" where
  "nat_log2 n = (if n \<le> 1 then 0 else Suc (nat_log2 (n div 2)))"

definition nat_clog2 :: "nat \<Rightarrow> nat" where
  "nat_clog2 n = (if n \<le> 1 then 0 else Suc (nat_log2 (n - 1)))"

definition rat_log2 :: "rat \<Rightarrow> int" where
  "rat_log2 r = (if 1 \<le> r then int (nat_log2 (nat \<lfloor>r\<rfloor>)) else - int (nat_clog2 (nat \<lceil>inverse r\<rceil>)))"

definition round_half_even :: "rat \<Rightarrow> int" where
  "round_half_even x =
     (let f = \<lfloor>x\<rfloor>; d = x - of_int f in
      if d < 1/2 then f else if 1/2 < d then f + 1 else if even f then f else f + 1)"

text \<open>
  Rounding a real value to the nearest IEEE 754 binary64 value, ties to even: the
  exponent \<open>e\<close> of \<open>\<bar>r\<bar>\<close> fixes the quantum \<open>2 powi q\<close> with
  \<open>q = max e (-1022) - 52\<close> (subnormal below \<open>2 powi -1022\<close>); a value whose exponent
  exceeds 1023, or that rounds up to \<open>2 ^ 1024\<close>, becomes an infinity.
\<close>

definition round_to_double :: "rat \<Rightarrow> js_num" where
  "round_to_double r =
     (if r = 0 then Num 0
      else
        let a = \<bar>r\<bar>; e = rat_log2 a; inf = (if 0 < r then PosInf else NegInf) in
        if 1023 < e then inf
        else
          let q = max e (-1022) - 52; n = round_half_even (a * 2 powi (- q)) in
          if q = 971 \<and> 2 ^ 53 \<le> n then inf
          else Num (if 0 < r then of_int n * 2 powi q else - (of_int n * 2 powi q)))"

definition string_to_number :: "string \<Rightarrow> js_num" where
  "string_to_number s =
     (let t = js_trim s in
      if t = [] then Num 0
      else case str_numeric_literal t of
             None \<Rightarrow> NaN
           | Some (LitInf pos) \<Rightarrow> if pos then PosInf else NegInf
           | Some (LitFin v) \<Rightarrow> round_to_double v)"

section \<open>Printing naturals, letters\<close>

text \<open>The decimal digits of a natural number, most significant first, and the string of them.\<close>

fun dec_digits :: "nat \<Rightarrow> nat list" where
  "dec_digits n = (if n < 10 then [n] else dec_digits (n div 10) @ [n mod 10])"

definition dec_string :: "nat \<Rightarrow> string" where
  "dec_string n = map (\<lambda>d. char_of (48 + d)) (dec_digits n)"

text \<open>An ASCII letter.\<close>

definition js_letter :: "char \<Rightarrow> bool" where
  "js_letter c \<longleftrightarrow> (let n = of_char c :: nat in (65 \<le> n \<and> n \<le> 90) \<or> (97 \<le> n \<and> n \<le> 122))"

section \<open>Evaluation\<close>

declare nat_log2.simps [simp del]

lemma nat_log2_small: "n \<le> 1 \<Longrightarrow> nat_log2 n = 0"
  by (simp add: nat_log2.simps)

lemma nat_log2_big: "1 < n \<Longrightarrow> nat_log2 n = Suc (nat_log2 (n div 2))"
  by (simp add: nat_log2.simps)

lemma floor_numeral_div: "\<lfloor>(numeral a :: rat) / numeral b\<rfloor> = numeral a div numeral b"
  using floor_divide_of_int_eq [of "numeral a" "numeral b", where 'a = rat] by simp

lemma ceiling_numeral_div: "\<lceil>(numeral a :: rat) / numeral b\<rceil> = - (- numeral a div numeral b)"
  using floor_divide_of_int_eq [of "- numeral a" "numeral b", where 'a = rat] by (simp add: ceiling_def)

lemmas num_eval [js_eval] =
  string_to_number_def js_trim_def js_ws_def str_numeric_literal_def parse_nondecimal_def
  parse_signed_decimal_def parse_unsigned_decimal_def parse_exponent_def scaled_def digit_val_def
  digits_nat_def round_to_double_def rat_log2_def nat_clog2_def round_half_even_def
  nat_log2_small nat_log2_big Let_def floor_numeral_div ceiling_numeral_div js_num_eq_def js_is_nan_def

section \<open>Lemmas: decimal literals and rounding\<close>

declare dec_digits.simps [simp del]

lemma dec_digits_lt: "d \<in> set (dec_digits n) \<Longrightarrow> d < 10"
proof (induction n rule: dec_digits.induct)
  case (1 n)
  then show ?case by (subst (asm) dec_digits.simps) (auto split: if_splits)
qed

lemma dec_digits_ne: "dec_digits n \<noteq> []"
  by (subst dec_digits.simps) simp

lemma digits_nat_snoc: "digits_nat r (xs @ [d]) = digits_nat r xs * r + d"
  by (simp add: digits_nat_def)

lemma digits_nat_dec_digits: "digits_nat 10 (dec_digits n) = n"
proof (induction n rule: dec_digits.induct)
  case (1 n)
  show ?case
  proof (cases "n < 10")
    case True
    then show ?thesis by (subst dec_digits.simps) (simp add: digits_nat_def)
  next
    case False
    with "1.IH" show ?thesis by (subst dec_digits.simps) (simp add: digits_nat_snoc)
  qed
qed

lemma of_char_digit: "d < 10 \<Longrightarrow> (of_char (char_of (48 + d)) :: nat) = 48 + d"
  for d :: nat by simp

lemma digit_val_digit: "d < 10 \<Longrightarrow> digit_val 10 (char_of (48 + d)) = Some d"
  for d :: nat by (simp add: digit_val_def Let_def)

lemma take_digits_digits:
  "\<forall>d \<in> set ds. d < 10 \<Longrightarrow> take_digits 10 (map (\<lambda>d. char_of (48 + d)) ds) = (ds, [])"
  by (induction ds) (auto simp: digit_val_digit)

lemma js_ws_digit: "d < 10 \<Longrightarrow> \<not> js_ws (char_of (48 + d))"
  for d :: nat by (simp add: js_ws_def)

lemma dropWhile_none: "\<forall>c \<in> set xs. \<not> P c \<Longrightarrow> dropWhile P xs = xs"
  by (cases xs) auto

lemma js_trim_no_ws: "\<forall>c \<in> set s. \<not> js_ws c \<Longrightarrow> js_trim s = s"
  by (simp add: js_trim_def dropWhile_none)

lemma js_trim_dec_string: "js_trim (dec_string n) = dec_string n"
proof (rule js_trim_no_ws)
  show "\<forall>c \<in> set (dec_string n). \<not> js_ws c"
    using dec_digits_lt [of _ n] js_ws_digit by (auto simp: dec_string_def)
qed

lemma dec_string_Cons: "\<exists>d ds. dec_digits n = d # ds \<and> d < 10 \<and> (\<forall>x \<in> set ds. x < 10)"
  using dec_digits_ne [of n] dec_digits_lt [of _ n] by (cases "dec_digits n") auto

lemma digit_char_not_letter:
  "d < 10 \<Longrightarrow> char_of (48 + d) \<notin> {CHR ''b'', CHR ''B'', CHR ''o'', CHR ''O'', CHR ''x'', CHR ''X'', CHR ''+'', CHR ''-'', CHR ''I''}"
  for d :: nat by (auto simp: char_of_eq_iff take_bit_eq_mod)

lemma parse_nondecimal_dec_string: "parse_nondecimal (dec_string n) = None"
proof -
  obtain d ds where dd: "dec_digits n = d # ds" and "d < 10" and ds: "\<forall>x \<in> set ds. x < 10"
    using dec_string_Cons by blast
  show ?thesis
  proof (cases ds)
    case Nil
    with dd show ?thesis by (simp add: dec_string_def parse_nondecimal_def)
  next
    case (Cons p rest)
    with ds have "p < 10" by simp
    then have "char_of (48 + p) \<notin> {CHR ''b'', CHR ''B'', CHR ''o'', CHR ''O'', CHR ''x'', CHR ''X'', CHR ''+'', CHR ''-'', CHR ''I''}"
      by (rule digit_char_not_letter)
    with dd Cons show ?thesis by (auto simp: dec_string_def parse_nondecimal_def Let_def)
  qed
qed

lemma take_digits_dec_string: "take_digits 10 (dec_string n) = (dec_digits n, [])"
  unfolding dec_string_def by (rule take_digits_digits) (simp add: dec_digits_lt)

lemma literal_dec_string: "str_numeric_literal (dec_string n) = Some (LitFin (of_nat n))"
proof -
  obtain d ds where dd: "dec_digits n = d # ds" and d: "d < 10"
    using dec_string_Cons by blast
  have hd: "dec_string n = char_of (48 + d) # map (\<lambda>d. char_of (48 + d)) ds"
    by (simp add: dec_string_def dd)
  have nl: "char_of (48 + d) \<notin> {CHR ''b'', CHR ''B'', CHR ''o'', CHR ''O'', CHR ''x'', CHR ''X'', CHR ''+'', CHR ''-'', CHR ''I''}"
    using d by (rule digit_char_not_letter)
  then have ni: "dec_string n \<noteq> ''Infinity''" by (auto simp: hd)
  have u: "parse_unsigned_decimal (dec_string n) = Some (of_nat n)"
    using dec_digits_ne [of n]
    by (simp add: parse_unsigned_decimal_def take_digits_dec_string digits_nat_dec_digits)
  have "parse_signed_decimal (dec_string n) = Some (LitFin (of_nat n))"
  proof -
    have "parse_signed_decimal (dec_string n) =
            (if dec_string n = ''Infinity'' then Some (LitInf True)
             else map_option LitFin (parse_unsigned_decimal (dec_string n)))"
      using nl by (simp add: parse_signed_decimal_def hd option.map_comp comp_def)
    with ni u show ?thesis by simp
  qed
  then show ?thesis by (simp add: str_numeric_literal_def parse_nondecimal_dec_string)
qed

lemma nat_log2_bounds: "0 < n \<Longrightarrow> 2 ^ nat_log2 n \<le> n \<and> n < 2 ^ Suc (nat_log2 n)"
proof (induction n rule: nat_log2.induct)
  case (1 n)
  show ?case
  proof (cases "n \<le> 1")
    case True
    with "1.prems" show ?thesis by (simp add: nat_log2_small)
  next
    case False
    then have "0 < n div 2" by simp
    with "1.IH" False have ih: "2 ^ nat_log2 (n div 2) \<le> n div 2 \<and> n div 2 < 2 ^ Suc (nat_log2 (n div 2))"
      by simp
    then show ?thesis using False by (simp add: nat_log2_big) linarith
  qed
qed

lemma round_half_even_int [simp]: "round_half_even (of_int m) = m"
  by (simp add: round_half_even_def)

lemma round_half_even_numeral [simp]: "round_half_even (numeral k) = numeral k"
  using round_half_even_int [of "numeral k"] by simp

lemma rat_log2_nat: "0 < n \<Longrightarrow> rat_log2 (of_nat n) = int (nat_log2 n)"
  by (simp add: rat_log2_def)

lemma round_to_double_pos:
  assumes "0 < r" and "rat_log2 r \<le> 1023"
    and "round_half_even (r * 2 powi (- (max (rat_log2 r) (-1022) - 52))) = m"
    and "\<not> (max (rat_log2 r) (-1022) - 52 = 971 \<and> 2 ^ 53 \<le> m)"
  shows "round_to_double r = Num (of_int m * 2 powi (max (rat_log2 r) (-1022) - 52))"
  using assms by (simp add: round_to_double_def Let_def)

lemma round_to_double_nat:
  assumes le: "n \<le> 2 ^ 53"
  shows "round_to_double (of_nat n) = Num (of_nat n)"
proof (cases "n = 0")
  case True
  then show ?thesis by (simp add: round_to_double_def)
next
  case False
  let ?e = "nat_log2 n"
  from False have b: "2 ^ ?e \<le> n" using nat_log2_bounds [of n] by auto
  have "(2::nat) ^ ?e \<le> 2 ^ 53" using b le by linarith
  then have e53: "?e \<le> 53" using power_increasing_iff [of "2::nat" ?e 53] by simp
  have lg: "rat_log2 (of_nat n) = int ?e" using False by (simp add: rat_log2_nat)
  have q: "max (rat_log2 (of_nat n)) (-1022) - 52 = int ?e - 52" using lg by simp
  have pos: "0 < (of_nat n :: rat)" using False by simp
  have lg1023: "rat_log2 (of_nat n) \<le> 1023" using lg e53 by simp
  show ?thesis
  proof (cases "?e \<le> 52")
    case True
    let ?m = "int (n * 2 ^ (52 - ?e))"
    have neg: "- (int ?e - 52) = int (52 - ?e)" and pos': "int ?e - 52 = - int (52 - ?e)" using True by simp_all
    have m: "round_half_even (of_nat n * 2 powi (- (max (rat_log2 (of_nat n)) (-1022) - 52))) = ?m"
    proof -
      have "(of_nat n :: rat) * 2 powi (int (52 - ?e)) = of_int ?m" by simp
      then show ?thesis by (simp only: q neg round_half_even_int)
    qed
    have nov: "\<not> (max (rat_log2 (of_nat n)) (-1022) - 52 = 971 \<and> 2 ^ 53 \<le> ?m)" using q True by simp
    have v: "of_int ?m * (2::rat) powi (max (rat_log2 (of_nat n)) (-1022) - 52) = of_nat n"
    proof -
      have "(2::rat) powi (- int (52 - ?e)) = inverse (2 ^ (52 - ?e))" by (simp add: power_int_minus)
      then show ?thesis by (simp add: q pos')
    qed
    show ?thesis using round_to_double_pos [OF pos lg1023 m nov] v by simp
  next
    case False
    with e53 have e: "?e = 53" by simp
    have n: "n = 2 ^ 53" using b le e by simp
    have m: "round_half_even (of_nat n * 2 powi (- (max (rat_log2 (of_nat n)) (-1022) - 52))) = 2 ^ 52"
    proof -
      have "(of_nat n :: rat) * 2 powi (- 1) = of_int (2 ^ 52)" by (simp add: n power_int_minus)
      then show ?thesis by (simp only: q e) simp
    qed
    have nov: "\<not> (max (rat_log2 (of_nat n)) (-1022) - 52 = 971 \<and> 2 ^ 53 \<le> (2::int) ^ 52)" by simp
    have v: "of_int (2 ^ 52) * (2::rat) powi (max (rat_log2 (of_nat n)) (-1022) - 52) = of_nat n"
      by (simp only: q e) (simp add: n)
    show ?thesis using round_to_double_pos [OF pos lg1023 m nov] v by simp
  qed
qed

lemma number_dec_string: "n \<le> 2 ^ 53 \<Longrightarrow> string_to_number (dec_string n) = Num (of_nat n)"
proof -
  assume le: "n \<le> 2 ^ 53"
  have "dec_string n \<noteq> []" using dec_digits_ne [of n] by (simp add: dec_string_def)
  then show ?thesis
    by (simp add: string_to_number_def js_trim_dec_string literal_dec_string round_to_double_nat [OF le])
qed

lemma js_trim_Cons: "\<not> js_ws c \<Longrightarrow> \<exists>s'. js_trim (c # s) = c # s'"
proof -
  assume c: "\<not> js_ws c"
  let ?Y = "if \<forall>x \<in> set (rev s). js_ws x then [] else dropWhile js_ws (rev s)"
  have "dropWhile js_ws (rev s @ [c]) = ?Y @ [c]"
    using c by (simp add: dropWhile_append)
  then show ?thesis using c by (simp add: js_trim_def)
qed

lemma letter_facts:
  assumes "js_letter c" and "c \<noteq> CHR ''I''"
  shows "\<not> js_ws c" and "digit_val 10 c = None" and "c \<noteq> CHR ''0''" and "c \<noteq> CHR ''-''"
    and "c \<noteq> CHR ''+''" and "c \<noteq> CHR ''.''"
  using assms by (auto simp: js_letter_def js_ws_def digit_val_def Let_def)

lemma number_letter:
  assumes l: "js_letter c" and ni: "c \<noteq> CHR ''I''"
  shows "string_to_number (c # s) = NaN"
proof -
  note f = letter_facts [OF l ni]
  obtain s' where t: "js_trim (c # s) = c # s'" using js_trim_Cons [OF f(1)] by blast
  have nd: "parse_nondecimal (c # s') = None"
    using f(3) by (cases s') (auto simp: parse_nondecimal_def)
  have ud: "parse_unsigned_decimal (c # s') = None"
    using f(2) f(6) by (simp add: parse_unsigned_decimal_def)
  have "c # s' \<noteq> ''Infinity''" using ni by auto
  then have "parse_signed_decimal (c # s') = None"
    using f(4) f(5) ud by (simp add: parse_signed_decimal_def)
  then show ?thesis by (simp add: string_to_number_def t str_numeric_literal_def nd)
qed

end
