(* ===== verification/Metadata.thy ===== *)
theory Metadata
  imports Fetch JsNumber "HOL-Library.Multiset"
begin

text \<open>
  The network metadata resolver, src/skills/superfluid/scripts/metadata.mjs. A network
  is the JSON object the CDN's networks.json holds (name, chainId, shortName,
  humanReadableName, isTestnet, nativeTokenSymbol, contractsV1, nativeTokenWrapper,
  subgraphV1, autowrap, and whatever else it carries); the dataset is the array of them,
  loaded by \<open>loadNetworks\<close>, the JSON-mode loader of theory \<open>Fetch\<close>, before any
  command is dispatched.
\<close>

type_synonym network = "(string \<times> json) list"

section \<open>Loading the networks\<close>

definition networks_url :: string where
  "networks_url = ''https://cdn.jsdelivr.net/npm/@superfluid-finance/metadata/networks.json''"

definition networks_file :: path where
  "networks_file = ''.cache/networks.json''"

definition networks_source ::
  "(blob \<Rightarrow> network list option) \<Rightarrow> (network list \<Rightarrow> blob) \<Rightarrow> (network list, network list) json_source" where
  "networks_source parse print =
     \<lparr>src_url = networks_url, src_file = networks_file, src_parse = parse, src_print = print,
      src_select = id\<rparr>"

section \<open>Resolving a network\<close>

text \<open>\<open>n.chainId === asNum\<close>: a JSON number is a finite double.\<close>

definition chain_id_is :: "js_num \<Rightarrow> network \<Rightarrow> bool" where
  "chain_id_is x n \<longleftrightarrow> (case jmember n ''chainId'' of Some (JNum r) \<Rightarrow> js_num_eq (Num r) x | _ \<Rightarrow> False)"

text \<open>\<open>n.name === lower || n.shortName === lower\<close>\<close>

definition named :: "string \<Rightarrow> network \<Rightarrow> bool" where
  "named lower n \<longleftrightarrow> jmember n ''name'' = Some (JStr lower) \<or> jmember n ''shortName'' = Some (JStr lower)"

definition resolve_network :: "network list \<Rightarrow> string \<Rightarrow> network option" where
  "resolve_network networks idOrName =
     (let asNum = string_to_number idOrName in
      if \<not> js_is_nan asNum then find (chain_id_is asNum) networks
      else find (named (js_lower idOrName)) networks)"

datatype meta_error =
    MetaFetchFailed fetch_failure
  | MetaUsage string
  | NetworkNotFound string "(json option \<times> json option) list"
  | KeyNotFound string "string list"

definition require_network :: "network list \<Rightarrow> string \<Rightarrow> meta_error + network" where
  "require_network networks idOrName =
     (case resolve_network networks idOrName of
        None \<Rightarrow> Inl (NetworkNotFound idOrName
                    (map (\<lambda>n. (jmember n ''name'', jmember n ''chainId'')) networks))
      | Some n \<Rightarrow> Inr n)"

section \<open>Output of the commands\<close>

definition summary :: "network \<Rightarrow> json" where
  "summary n =
     jobj [(''name'', jmember n ''name''), (''chainId'', jmember n ''chainId''),
           (''humanReadableName'', jmember n ''humanReadableName''),
           (''isTestnet'', jmember n ''isTestnet''),
           (''nativeTokenSymbol'', jmember n ''nativeTokenSymbol'')]"

text \<open>\<open>${n.name}\<close> in a template literal (names are strings in the dataset).\<close>

definition name_text :: "network \<Rightarrow> string" where
  "name_text n = (case jmember n ''name'' of Some (JStr s) \<Rightarrow> s | _ \<Rightarrow> ''undefined'')"

definition endpoint :: "network \<Rightarrow> string \<Rightarrow> json" where
  "endpoint n suffix = JStr (''https://subgraph-endpoints.superfluid.dev/'' @ name_text n @ ''/'' @ suffix)"

text \<open>\<open>n.contractsV1?.[key]\<close>\<close>

definition contracts_get :: "network \<Rightarrow> string \<Rightarrow> json js_prop" where
  "contracts_get n key =
     (case jmember n ''contractsV1'' of Some (JObj ms) \<Rightarrow> js_get ms key | _ \<Rightarrow> Undefined)"

definition networks_cmd :: "network list \<Rightarrow> string list \<Rightarrow> json" where
  "networks_cmd networks args =
     (let list = (case args of
                    flag # _ \<Rightarrow>
                      if flag = ''--mainnets'' then filter (\<lambda>n. \<not> js_truthy (jmember n ''isTestnet'')) networks
                      else if flag = ''--testnets'' then filter (\<lambda>n. js_truthy (jmember n ''isTestnet'')) networks
                      else networks
                  | [] \<Rightarrow> networks)
      in JArr (map summary list))"

definition contracts_output :: "network \<Rightarrow> json" where
  "contracts_output n =
     jobj (js_spread [(''network'', jmember n ''name''), (''chainId'', jmember n ''chainId''),
                      (''nativeTokenWrapper'', jmember n ''nativeTokenWrapper'')]
                     (jmember n ''contractsV1''))"

text \<open>
  \<open>const addr = n.contractsV1?.[key] || (key === "nativeTokenWrapper" ? n.nativeTokenWrapper : undefined)\<close>;
  a missing address lists \<open>Object.keys(n.contractsV1)\<close>, which throws when the network
  has no \<open>contractsV1\<close> object.
\<close>

definition contract_cmd :: "network \<Rightarrow> string \<Rightarrow> meta_error outcome" where
  "contract_cmd n key =
     (let p = contracts_get n key;
          addr = (if prop_truthy p then p
                  else if key = ''nativeTokenWrapper'' then
                    (case jmember n ''nativeTokenWrapper'' of Some v \<Rightarrow> Own v | None \<Rightarrow> Undefined)
                  else Undefined)
      in if \<not> prop_truthy addr then
           (case jmember n ''contractsV1'' of
              Some (JObj ms) \<Rightarrow> Failed (KeyNotFound key (map fst ms))
            | _ \<Rightarrow> Crashed (TypeError ''Cannot convert undefined or null to object''))
         else Printed (jobj (js_set [(''network'', jmember n ''name''), (''chainId'', jmember n ''chainId'')]
                                   key (prop_json addr))))"

definition subgraph_output :: "network \<Rightarrow> json" where
  "subgraph_output n =
     jobj [(''network'', jmember n ''name''), (''chainId'', jmember n ''chainId''),
           (''protocol'', Some (endpoint n ''protocol-v1'')),
           (''subgraphV1'', js_or (jmember n ''subgraphV1'') (Some JNull))]"

definition automation_output :: "network \<Rightarrow> json" where
  "automation_output n =
     jobj [(''network'', jmember n ''name''), (''chainId'', jmember n ''chainId''),
           (''vestingScheduler'', js_or (prop_json (contracts_get n ''vestingScheduler'')) (Some JNull)),
           (''flowScheduler'', js_or (prop_json (contracts_get n ''flowScheduler'')) (Some JNull)),
           (''autowrap'', js_or (jmember n ''autowrap'') (Some JNull)),
           (''subgraphs'', Some (JObj [(''vestingScheduler'', endpoint n ''vesting-scheduler''),
                                       (''flowScheduler'', endpoint n ''flow-scheduler''),
                                       (''autoWrap'', endpoint n ''auto-wrap'')]))]"

section \<open>Command dispatch\<close>

definition with_network ::
  "network list \<Rightarrow> string \<Rightarrow> (network \<Rightarrow> meta_error outcome) \<Rightarrow> meta_error outcome" where
  "with_network networks q k = (case require_network networks q of Inl e \<Rightarrow> Failed e | Inr n \<Rightarrow> k n)"

definition meta_command :: "network list \<Rightarrow> string list \<Rightarrow> meta_error outcome" where
  "meta_command networks argv =
     (case argv of
        [] \<Rightarrow> Usage 0
      | command # args \<Rightarrow>
          (let a0 = (case args of a # _ \<Rightarrow> a | [] \<Rightarrow> []);
               a1 = (case args of _ # b # _ \<Rightarrow> b | _ \<Rightarrow> [])
           in if command = ''networks'' then Printed (networks_cmd networks args)
           else if command = ''network'' then
             (if a0 = [] then Failed (MetaUsage ''Usage: metadata.mjs network <chain-id-or-name>'')
              else with_network networks a0 (\<lambda>n. Printed (JObj n)))
           else if command = ''contracts'' then
             (if a0 = [] then Failed (MetaUsage ''Usage: metadata.mjs contracts <chain-id-or-name>'')
              else with_network networks a0 (\<lambda>n. Printed (contracts_output n)))
           else if command = ''contract'' then
             (if a0 = [] \<or> a1 = [] then Failed (MetaUsage ''Usage: metadata.mjs contract <chain-id-or-name> <key>'')
              else with_network networks a0 (\<lambda>n. contract_cmd n a1))
           else if command = ''subgraph'' then
             (if a0 = [] then Failed (MetaUsage ''Usage: metadata.mjs subgraph <chain-id-or-name>'')
              else with_network networks a0 (\<lambda>n. Printed (subgraph_output n)))
           else if command = ''automation'' then
             (if a0 = [] then Failed (MetaUsage ''Usage: metadata.mjs automation <chain-id-or-name>'')
              else with_network networks a0 (\<lambda>n. Printed (automation_output n)))
           else Usage (if command = [] then 0 else 1)))"

text \<open>
  \<open>const networks = await loadNetworks();\<close> runs before the \<open>switch\<close>: every command,
  the help text included, needs the dataset.
\<close>

definition meta_main ::
  "(blob \<Rightarrow> network list option) \<Rightarrow> (network list \<Rightarrow> blob) \<Rightarrow> string list \<Rightarrow> world \<Rightarrow> cache
     \<Rightarrow> meta_error outcome \<times> cache" where
  "meta_main parse print argv w c =
     (case load_json (networks_source parse print) w c of
        (Inl f, c') \<Rightarrow> (Failed (MetaFetchFailed f), c')
      | (Inr networks, c') \<Rightarrow> (meta_command networks argv, c'))"

section \<open>Example networks\<close>

definition demo_optimism :: network where
  "demo_optimism =
     [(''name'', JStr ''optimism-mainnet''), (''chainId'', JNum 10), (''shortName'', JStr ''optimism''),
      (''isTestnet'', JBool False), (''nativeTokenWrapper'', JStr ''0x4ac8''),
      (''contractsV1'', JObj [(''host'', JStr ''0x567c''), (''cfaV1'', JStr ''0x204C'')])]"

definition demo_sepolia :: network where
  "demo_sepolia =
     [(''name'', JStr ''eth-sepolia''), (''chainId'', JNum 11155111), (''isTestnet'', JBool True)]"

definition demo_networks :: "network list" where
  "demo_networks = [demo_optimism, demo_sepolia]"

section \<open>Lemmas\<close>

lemma dec_string_10: "dec_string 10 = ''10''"
  by (simp add: dec_string_def dec_digits.simps js_eval)

lemmas demo_networks_eval = demo_networks_def demo_optimism_def demo_sepolia_def

section \<open>Properties of metadata.mjs\<close>

text \<open>C12. Network resolution by id or by name (spec property 7): a network whose
  chain id is a natural number k (at most 2^53, so exact as a double) and whose name is the
  lower-cased query is printed by \<open>network\<close> both for the decimal string of k and for the
  name in any letter case, when no other network carries that id or that name.\<close>

theorem resolve_network_by_id_or_name:
  assumes n: "n \<in> set nets"
    and cid: "jmember n ''chainId'' = Some (JNum (of_nat k))" and k: "k \<le> 2 ^ 53"
    and uid: "\<forall>m \<in> set nets. chain_id_is (Num (of_nat k)) m \<longrightarrow> m = n"
    and nm: "jmember n ''name'' = Some (JStr (js_lower (c # s)))"
    and l: "js_letter c" and ni: "c \<noteq> CHR ''I''"
    and unm: "\<forall>m \<in> set nets. named (js_lower (c # s)) m \<longrightarrow> m = n"
  shows "meta_command nets [''network'', dec_string k] = Printed (JObj n)
       \<and> meta_command nets [''network'', c # s] = Printed (JObj n)"
proof -
  have dk: "dec_string k \<noteq> []" using dec_digits_ne [of k] by (simp add: dec_string_def)
  have r1: "resolve_network nets (dec_string k) = Some n"
  proof -
    have "chain_id_is (Num (of_nat k)) n" using cid by (simp add: chain_id_is_def js_num_eq_def)
    with n uid have "find (chain_id_is (Num (of_nat k))) nets = Some n" by (intro find_unique)
    then show ?thesis by (simp add: resolve_network_def number_dec_string [OF k] js_is_nan_def)
  qed
  have r2: "resolve_network nets (c # s) = Some n"
  proof -
    have "named (js_lower (c # s)) n" using nm by (simp add: named_def)
    with n unm have "find (named (js_lower (c # s))) nets = Some n" by (intro find_unique)
    then show ?thesis by (simp add: resolve_network_def number_letter [OF l ni] js_is_nan_def)
  qed
  show ?thesis
    using r1 r2 dk by (simp add: meta_command_def with_network_def require_network_def)
qed


theorem resolve_network_by_id_or_name_witness:
  "meta_command demo_networks [''network'', ''10''] = Printed (JObj demo_optimism)
 \<and> meta_command demo_networks [''network'', ''Optimism-Mainnet''] = Printed (JObj demo_optimism)"
proof -
  have "meta_command demo_networks [''network'', dec_string 10] = Printed (JObj demo_optimism)
      \<and> meta_command demo_networks [''network'', CHR ''O'' # ''ptimism-Mainnet''] = Printed (JObj demo_optimism)"
  proof (rule resolve_network_by_id_or_name)
    show "demo_optimism \<in> set demo_networks" by (simp add: demo_networks_def)
    show "jmember demo_optimism ''chainId'' = Some (JNum (of_nat 10))" by (simp add: demo_optimism_def js_eval)
    show "(10::nat) \<le> 2 ^ 53" by simp
    show "\<forall>m \<in> set demo_networks. chain_id_is (Num (of_nat 10)) m \<longrightarrow> m = demo_optimism"
      by (simp add: demo_networks_eval chain_id_is_def js_num_eq_def js_eval)
    show "jmember demo_optimism ''name'' = Some (JStr (js_lower (CHR ''O'' # ''ptimism-Mainnet'')))"
      by (simp add: demo_optimism_def js_eval)
    show "js_letter (CHR ''O'')" by (simp add: js_letter_def)
    show "CHR ''O'' \<noteq> CHR ''I''" by simp
    show "\<forall>m \<in> set demo_networks. named (js_lower (CHR ''O'' # ''ptimism-Mainnet'')) m \<longrightarrow> m = demo_optimism"
      by (simp add: demo_networks_eval named_def js_eval)
  qed
  then show ?thesis by (simp add: dec_string_10)
qed

text \<open>C13. Every command, the help text (no arguments) included, loads the networks
  first: offline with no cached copy, even \<open>metadata.mjs\<close> with no arguments fails with
  the fetch diagnostic and status 1 instead of printing the help with status 0.\<close>

theorem meta_help_needs_dataset:
  assumes off: "response_text (net w networks_url) = Inl e" and nc: "c networks_file = None"
  shows "meta_main parse print argv w c = (Failed (MetaFetchFailed (FetchFailure networks_url e)), c)"
proof -
  have "load_json (networks_source parse print) w c = (Inl (FetchFailure networks_url e), c)"
    using load_json_not_fetched [where s = "networks_source parse print" and w = w and e = e] off nc
    by (simp add: networks_source_def read_cache_def)
  then show ?thesis by (simp add: meta_main_def)
qed

theorem meta_help_needs_dataset_witness:
  "meta_main (\<lambda>_. None) (\<lambda>_. []) [] demo_offline Map.empty
     = (Failed (MetaFetchFailed (FetchFailure networks_url (NetworkError ''getaddrinfo ENOTFOUND''))), Map.empty)
   \<and> exit_status (fst (meta_main (\<lambda>_. None) (\<lambda>_. []) [] demo_offline Map.empty)) = 1"
proof -
  have "meta_main (\<lambda>_. None) (\<lambda>_. []) [] demo_offline Map.empty
     = (Failed (MetaFetchFailed (FetchFailure networks_url (NetworkError ''getaddrinfo ENOTFOUND''))), Map.empty)"
    by (rule meta_help_needs_dataset) (simp_all add: demo_offline_def)
  then show ?thesis by simp
qed

text \<open>C14. \<open>contract\<close> prints the network's name and chain id and the address that
  \<open>contractsV1\<close> holds under the key.\<close>

theorem contract_lookup:
  assumes "jmember n ''contractsV1'' = Some (JObj ms)" and "map_of ms key = Some (JStr a)" and "a \<noteq> []"
    and "key \<noteq> ''network''" and "key \<noteq> ''chainId''"
  shows "contract_cmd n key =
           Printed (jobj [(''network'', jmember n ''name''), (''chainId'', jmember n ''chainId''), (key, Some (JStr a))])"
  using assms by (simp add: contract_cmd_def contracts_get_def)

theorem contract_lookup_witness:
  "contract_cmd demo_optimism ''cfaV1'' =
     Printed (JObj [(''network'', JStr ''optimism-mainnet''), (''chainId'', JNum 10), (''cfaV1'', JStr ''0x204C'')])"
proof -
  have "contract_cmd demo_optimism ''cfaV1'' =
     Printed (jobj [(''network'', jmember demo_optimism ''name''), (''chainId'', jmember demo_optimism ''chainId''),
                    (''cfaV1'', Some (JStr ''0x204C''))])"
    by (rule contract_lookup [where ms = "[(''host'', JStr ''0x567c''), (''cfaV1'', JStr ''0x204C'')]"])
       (simp_all add: demo_optimism_def js_eval)
  then show ?thesis by (simp add: demo_optimism_def js_eval jobj_def map_filter_def)
qed

text \<open>C15. The role \<open>nativeTokenWrapper\<close> falls back to the network's own
  \<open>nativeTokenWrapper\<close> field when \<open>contractsV1\<close> has no usable entry for it.\<close>

theorem contract_native_wrapper_fallback:
  assumes "\<not> prop_truthy (contracts_get n ''nativeTokenWrapper'')"
    and "jmember n ''nativeTokenWrapper'' = Some (JStr a)" and "a \<noteq> []"
  shows "contract_cmd n ''nativeTokenWrapper'' =
           Printed (jobj [(''network'', jmember n ''name''), (''chainId'', jmember n ''chainId''),
                          (''nativeTokenWrapper'', Some (JStr a))])"
  using assms by (simp add: contract_cmd_def)

theorem contract_native_wrapper_fallback_witness:
  "contract_cmd demo_optimism ''nativeTokenWrapper'' =
     Printed (JObj [(''network'', JStr ''optimism-mainnet''), (''chainId'', JNum 10),
                    (''nativeTokenWrapper'', JStr ''0x4ac8'')])"
proof -
  have "contract_cmd demo_optimism ''nativeTokenWrapper'' =
     Printed (jobj [(''network'', jmember demo_optimism ''name''), (''chainId'', jmember demo_optimism ''chainId''),
                    (''nativeTokenWrapper'', Some (JStr ''0x4ac8''))])"
    by (rule contract_native_wrapper_fallback) (simp_all add: demo_optimism_def contracts_get_def js_eval)
  then show ?thesis by (simp add: demo_optimism_def js_eval jobj_def map_filter_def)
qed

text \<open>C16. An unknown role (not in \<open>contractsV1\<close>, not inherited, not the wrapper)
  is a diagnostic listing the keys of \<open>contractsV1\<close>.\<close>

theorem contract_unknown_role:
  assumes "jmember n ''contractsV1'' = Some (JObj ms)" and "map_of ms key = None"
    and "key \<notin> set object_prototype_keys" and "key \<noteq> ''nativeTokenWrapper''"
  shows "contract_cmd n key = Failed (KeyNotFound key (map fst ms))"
  using assms by (simp add: contract_cmd_def contracts_get_def js_get_absent)

theorem contract_unknown_role_witness:
  "contract_cmd demo_optimism ''gdaV1'' = Failed (KeyNotFound ''gdaV1'' [''host'', ''cfaV1''])"
proof -
  have "contract_cmd demo_optimism ''gdaV1'' =
          Failed (KeyNotFound ''gdaV1'' (map fst [(''host'', JStr ''0x567c''), (''cfaV1'', JStr ''0x204C'')]))"
    by (rule contract_unknown_role) (simp_all add: demo_optimism_def js_eval)
  then show ?thesis by simp
qed

text \<open>C17. A role named like a member of \<open>Object.prototype\<close>
  (\<open>constructor\<close>) is found on the prototype: the command succeeds (status 0) and prints
  the network without any address, where an unknown role is meant to be a diagnostic.\<close>

theorem contract_prototype_key_prints_nothing:
  assumes "jmember n ''contractsV1'' = Some (JObj ms)" and "map_of ms ''constructor'' = None"
  shows "contract_cmd n ''constructor'' =
           Printed (jobj [(''network'', jmember n ''name''), (''chainId'', jmember n ''chainId'')])"
  using assms by (simp add: contract_cmd_def contracts_get_def js_eval jobj_def map_filter_def)

theorem contract_prototype_key_prints_nothing_witness:
  "contract_cmd demo_optimism ''constructor'' =
     Printed (JObj [(''network'', JStr ''optimism-mainnet''), (''chainId'', JNum 10)])"
proof -
  have "contract_cmd demo_optimism ''constructor'' =
     Printed (jobj [(''network'', jmember demo_optimism ''name''), (''chainId'', jmember demo_optimism ''chainId'')])"
    by (rule contract_prototype_key_prints_nothing [where ms = "[(''host'', JStr ''0x567c''), (''cfaV1'', JStr ''0x204C'')]"])
       (simp_all add: demo_optimism_def js_eval)
  then show ?thesis by (simp add: demo_optimism_def js_eval jobj_def map_filter_def)
qed

text \<open>C18. On a network without \<open>contractsV1\<close>, a missing role crashes with a
  TypeError from \<open>Object.keys\<close> instead of printing the diagnostic.\<close>

theorem contract_without_contracts_crashes:
  assumes "jmember n ''contractsV1'' = None" and "key \<noteq> ''nativeTokenWrapper''"
  shows "contract_cmd n key = Crashed (TypeError ''Cannot convert undefined or null to object'')"
  using assms by (simp add: contract_cmd_def contracts_get_def)

theorem contract_without_contracts_crashes_witness:
  "contract_cmd demo_sepolia ''host'' = Crashed (TypeError ''Cannot convert undefined or null to object'')"
  by (rule contract_without_contracts_crashes) (simp_all add: demo_sepolia_def js_eval)

text \<open>C19. Any query that \<open>Number\<close> reads as the integer k selects by chain id
  exactly as the decimal string of k does, not only an integer string: whatever
  surrounds it in white space, a hexadecimal (\<open>0xa\<close>), binary or octal form, an exponent
  (\<open>1e1\<close>), a fraction (\<open>10.0\<close>), leading zeros or a sign; a network whose name is such a
  string is never found by that name.\<close>

theorem numeric_query_forms:
  assumes t: "js_trim q \<noteq> []" and lit: "str_numeric_literal (js_trim q) = Some (LitFin (of_nat k))"
    and k: "k \<le> 2 ^ 53"
  shows "resolve_network nets q = resolve_network nets (dec_string k)"
proof -
  have "string_to_number q = Num (of_nat k)"
    using t lit by (simp add: string_to_number_def round_to_double_nat [OF k])
  then show ?thesis by (simp add: resolve_network_def number_dec_string [OF k] js_is_nan_def)
qed

theorem numeric_query_forms_witness:
  "js_trim '' 0xA '' \<noteq> [] \<and> str_numeric_literal (js_trim '' 0xA '') = Some (LitFin (of_nat 10))
   \<and> resolve_network demo_networks '' 0xA '' = Some demo_optimism"
proof -
  have t: "js_trim '' 0xA '' \<noteq> []" and l: "str_numeric_literal (js_trim '' 0xA '') = Some (LitFin (of_nat 10))"
    by (simp_all add: js_eval)
  have "resolve_network demo_networks '' 0xA '' = resolve_network demo_networks (dec_string 10)"
    using numeric_query_forms [OF t l] by simp
  moreover have "resolve_network demo_networks (dec_string 10) = Some demo_optimism"
    by (simp add: dec_string_10 resolve_network_def demo_networks_eval chain_id_is_def js_num_eq_def js_eval)
  ultimately show ?thesis using t l by simp
qed

text \<open>C20. The two views of a network's contracts agree: for every role of its
  \<open>contractsV1\<close> object with a truthy address (object keys are distinct, as
  \<open>JSON.parse\<close> makes them), \<open>contracts\<close> lists that address under the role, and
  \<open>contract\<close> prints the same address under the same key.\<close>

theorem contracts_agree_with_contract:
  assumes cv: "jmember n ''contractsV1'' = Some (JObj ms)" and d: "distinct (map fst ms)"
    and k: "map_of ms k = Some v" and t: "js_truthy (Some v)"
  shows "(\<exists>doc. contracts_output n = JObj doc \<and> map_of doc k = Some v)
       \<and> (\<exists>doc. contract_cmd n k = Printed (JObj doc) \<and> map_of doc k = Some v)"
proof
  show "\<exists>doc. contracts_output n = JObj doc \<and> map_of doc k = Some v"
    using map_of_jobj [OF map_of_spread [OF d k]] cv by (simp add: contracts_output_def js_spread_def jobj_def)
  have get: "contracts_get n k = Own v" using cv k by (simp add: contracts_get_def jmember_def)
  let ?base = "[(''network'', jmember n ''name''), (''chainId'', jmember n ''chainId'')]"
  have "map_of (List.map_filter (\<lambda>(k, v). map_option (Pair k) v) (js_set ?base k (Some v))) k = Some v"
    by (rule map_of_jobj) (simp add: map_of_js_set del: js_set.simps)
  moreover have "contract_cmd n k = Printed (jobj (js_set ?base k (Some v)))"
    using get t by (simp add: contract_cmd_def del: js_set.simps)
  ultimately show "\<exists>doc. contract_cmd n k = Printed (JObj doc) \<and> map_of doc k = Some v"
    by (simp add: jobj_def del: js_set.simps)
qed

theorem contracts_agree_with_contract_witness:
  "(\<exists>doc. contracts_output demo_optimism = JObj doc \<and> map_of doc ''cfaV1'' = Some (JStr ''0x204C''))
 \<and> (\<exists>doc. contract_cmd demo_optimism ''cfaV1'' = Printed (JObj doc) \<and> map_of doc ''cfaV1'' = Some (JStr ''0x204C''))"
  by (rule contracts_agree_with_contract [of demo_optimism "[(''host'', JStr ''0x567c''), (''cfaV1'', JStr ''0x204C'')]"])
     (simp_all add: demo_optimism_def jmember_def)

end
