(* ===== verification/Tokenlist.thy ===== *)
theory Tokenlist
  imports Fetch JsNumber "HOL-Library.Multiset"
begin

text \<open>
  The token list resolver, src/skills/superfluid/scripts/tokenlist.mjs. A token is the
  JSON object the extended Superfluid token list holds (chainId, address, symbol, name,
  decimals, tags, extensions); the dataset is the document's \<open>tokens\<close> array, loaded
  by \<open>loadTokens\<close>, the JSON-mode loader of theory \<open>Fetch\<close>, before any command is
  dispatched. Every callback that reads a string member calls \<open>toLowerCase\<close> on it and
  throws on a token whose member is not a string; the commands are modelled with those
  exceptions (\<open>js_filter\<close>, \<open>js_find\<close> of the prelude), so a well-formed token list
  (\<open>token_wf\<close>) is a hypothesis of the properties, not an assumption of the model.
\<close>

type_synonym token = "(string \<times> json) list"

section \<open>Loading the token list\<close>

definition tokens_url :: string where
  "tokens_url =
     ''https://cdn.jsdelivr.net/npm/@superfluid-finance/tokenlist/dist/superfluid.extended.tokenlist.json''"

definition tokens_file :: path where
  "tokens_file = ''.cache/tokenlist.json''"

text \<open>
  \<open>data.tokens\<close>: the array of token objects. A document whose \<open>tokens\<close> member is not
  an array of objects is outside the schema; the model reads it as \<open>None\<close>, and a command
  that touches the tokens then throws.
\<close>

fun objects_of :: "json list \<Rightarrow> token list option" where
  "objects_of [] = Some []"
| "objects_of (JObj t # xs) = map_option (Cons t) (objects_of xs)"
| "objects_of (_ # xs) = None"

fun tokens_of :: "json \<Rightarrow> token list option" where
  "tokens_of (JObj ms) = (case jmember ms ''tokens'' of Some (JArr xs) \<Rightarrow> objects_of xs | _ \<Rightarrow> None)"
| "tokens_of _ = None"

definition tokens_source ::
  "(blob \<Rightarrow> json option) \<Rightarrow> (json \<Rightarrow> blob) \<Rightarrow> (json, token list option) json_source" where
  "tokens_source parse print =
     \<lparr>src_url = tokens_url, src_file = tokens_file, src_parse = parse, src_print = print,
      src_select = tokens_of\<rparr>"

section \<open>Classifying and summarising tokens\<close>

text \<open>\<open>s.includes(p)\<close> on strings.\<close>

fun str_includes :: "string \<Rightarrow> string \<Rightarrow> bool" where
  "str_includes p [] = (p = [])"
| "str_includes p (c # s) = (take (length p) (c # s) = p \<or> str_includes p s)"

text \<open>
  \<open>t.tags?.includes(tag)\<close>: \<open>undefined\<close> (falsy) without tags, membership in an array
  (strict equality, so only the string itself), substring search in a string, and a
  \<open>TypeError\<close> for any other value.
\<close>

definition tags_include :: "token \<Rightarrow> string \<Rightarrow> crash + bool" where
  "tags_include t tag =
     (case jmember t ''tags'' of
        None \<Rightarrow> Inr False
      | Some JNull \<Rightarrow> Inr False
      | Some (JArr xs) \<Rightarrow> Inr (JStr tag \<in> set xs)
      | Some (JStr s) \<Rightarrow> Inr (str_includes tag s)
      | Some _ \<Rightarrow> Inl (TypeError ''t.tags?.includes is not a function''))"

definition is_super_token :: "token \<Rightarrow> crash + bool" where
  "is_super_token t = tags_include t ''supertoken''"

definition is_underlying :: "token \<Rightarrow> crash + bool" where
  "is_underlying t = tags_include t ''underlying''"

text \<open>\<open>t.extensions?.superTokenInfo\<close> and \<open>...?.underlyingTokenAddress\<close>.\<close>

definition super_token_info :: "token \<Rightarrow> json option" where
  "super_token_info t =
     (case jmember t ''extensions'' of Some (JObj ext) \<Rightarrow> jmember ext ''superTokenInfo'' | _ \<Rightarrow> None)"

definition underlying_address :: "token \<Rightarrow> json option" where
  "underlying_address t =
     (case super_token_info t of Some (JObj i) \<Rightarrow> jmember i ''underlyingTokenAddress'' | _ \<Rightarrow> None)"

definition token_summary :: "token \<Rightarrow> json" where
  "token_summary t =
     jobj ([(''chainId'', jmember t ''chainId''), (''address'', jmember t ''address''),
            (''name'', jmember t ''name''), (''symbol'', jmember t ''symbol''),
            (''decimals'', jmember t ''decimals''),
            (''tags'', js_or (jmember t ''tags'') (Some (JArr [])))]
           @ (if js_truthy (super_token_info t) then [(''superTokenInfo'', super_token_info t)] else []))"

section \<open>Matching tokens\<close>

text \<open>\<open>t.k.toLowerCase() === v\<close>.\<close>

definition member_is :: "token \<Rightarrow> string \<Rightarrow> string \<Rightarrow> crash + bool" where
  "member_is t k v = js_then (js_to_lower (''t.'' @ k) (jmember t k)) (\<lambda>s. Inr (s = v))"

text \<open>\<open>t.chainId === chainId\<close> against a number.\<close>

definition on_chain :: "js_num \<Rightarrow> token \<Rightarrow> bool" where
  "on_chain x t \<longleftrightarrow> (case jmember t ''chainId'' of Some (JNum r) \<Rightarrow> js_num_eq (Num r) x | _ \<Rightarrow> False)"

definition chain_tokens :: "js_num \<Rightarrow> token list \<Rightarrow> token list" where
  "chain_tokens x ts = filter (on_chain x) ts"

text \<open>
  The \<open>super-token\<close> search callback:
  \<open>isSuperToken(t) && (t.symbol.toLowerCase() === query || t.address.toLowerCase() === query)\<close>.
\<close>

definition super_match :: "string \<Rightarrow> token \<Rightarrow> crash + bool" where
  "super_match query t =
     js_and_e (is_super_token t) (js_or_e (member_is t ''symbol'' query) (member_is t ''address'' query))"

text \<open>\<open>t => t.address.toLowerCase() === ua.toLowerCase()\<close>.\<close>

definition underlying_match :: "json option \<Rightarrow> token \<Rightarrow> crash + bool" where
  "underlying_match ua t =
     js_then (js_to_lower ''t.address'' (jmember t ''address''))
       (\<lambda>a. js_then (js_to_lower ''ua'' ua) (\<lambda>u. Inr (a = u)))"

section \<open>The commands\<close>

datatype tok_error =
    TokFetchFailed fetch_failure
  | TokUsage string
  | NoTokenWithAddress string
  | ChainIdNotNumber
  | NoTokensOnChain js_num string
  | NoTokenWithSymbol string
  | NoSuperToken js_num string

definition summaries :: "token list \<Rightarrow> json" where
  "summaries ms = JArr (map token_summary ms)"

definition by_address :: "token list \<Rightarrow> string \<Rightarrow> tok_error outcome" where
  "by_address tokens a0 =
     (let addr = js_lower a0 in
      case js_filter (\<lambda>t. member_is t ''address'' addr) tokens of
        Inl e \<Rightarrow> Crashed e
      | Inr [] \<Rightarrow> Failed (NoTokenWithAddress a0)
      | Inr matches \<Rightarrow> Printed (summaries matches))"

definition by_chain :: "token list \<Rightarrow> string \<Rightarrow> string \<Rightarrow> tok_error outcome" where
  "by_chain tokens a0 a1 =
     (let chainId = string_to_number a0 in
      if js_is_nan chainId then Failed ChainIdNotNumber
      else
        let matches = chain_tokens chainId tokens;
            kept = (if a1 = ''--super'' then js_filter is_super_token matches
                    else if a1 = ''--underlying'' then js_filter is_underlying matches
                    else Inr matches)
        in case kept of
             Inl e \<Rightarrow> Crashed e
           | Inr [] \<Rightarrow> Failed (NoTokensOnChain chainId a1)
           | Inr ms \<Rightarrow> Printed (summaries ms))"

definition by_symbol :: "token list \<Rightarrow> string list \<Rightarrow> tok_error outcome" where
  "by_symbol tokens args =
     (let a0 = js_arg args 0; sym = js_lower a0 in
      case js_filter (\<lambda>t. member_is t ''symbol'' sym) tokens of
        Inl e \<Rightarrow> Crashed e
      | Inr matches \<Rightarrow>
          (let ci = js_index_of args ''--chain-id'';
               id_arg = js_arg args (nat (ci + 1));
               ms = (if ci \<noteq> -1 \<and> id_arg \<noteq> [] then filter (on_chain (string_to_number id_arg)) matches
                     else matches)
           in if ms = [] then Failed (NoTokenWithSymbol a0) else Printed (summaries ms)))"

text \<open>\<open>{ superToken: tokenSummary(st), underlying }\<close>, and the placeholder of an underlying
  token missing from the list.\<close>

definition super_result :: "token \<Rightarrow> json \<Rightarrow> json" where
  "super_result st u = JObj [(''superToken'', token_summary st), (''underlying'', u)]"

definition not_in_list :: "json \<Rightarrow> json" where
  "not_in_list ua = JObj [(''address'', ua), (''note'', JStr ''Not in token list'')]"

definition super_token :: "token list \<Rightarrow> string \<Rightarrow> string \<Rightarrow> tok_error outcome" where
  "super_token tokens a0 a1 =
     (let chainId = string_to_number a0; query = js_lower a1 in
      if js_is_nan chainId then Failed ChainIdNotNumber
      else
        let chainTokens = chain_tokens chainId tokens in
        case js_find (super_match query) chainTokens of
          Inl e \<Rightarrow> Crashed e
        | Inr None \<Rightarrow> Failed (NoSuperToken chainId a1)
        | Inr (Some st) \<Rightarrow>
            (case underlying_address st of
               Some ua \<Rightarrow>
                 if js_truthy (Some ua) then
                   (case js_find (underlying_match (Some ua)) chainTokens of
                      Inl e \<Rightarrow> Crashed e
                    | Inr (Some u) \<Rightarrow> Printed (super_result st (token_summary u))
                    | Inr None \<Rightarrow> Printed (super_result st (not_in_list ua)))
                 else Printed (super_result st JNull)
             | None \<Rightarrow> Printed (super_result st JNull)))"

section \<open>Statistics\<close>

text \<open>
  \<open>t.chainId === id\<close> between two values read from JSON. Arrays and objects compare by
  identity, which the model does not track: they are never equal here (outside the schema,
  where chain ids are numbers).
\<close>

fun js_strict_eq :: "json option \<Rightarrow> json option \<Rightarrow> bool" where
  "js_strict_eq None None = True"
| "js_strict_eq (Some JNull) (Some JNull) = True"
| "js_strict_eq (Some (JBool a)) (Some (JBool b)) = (a = b)"
| "js_strict_eq (Some (JNum a)) (Some (JNum b)) = (a = b)"
| "js_strict_eq (Some (JStr a)) (Some (JStr b)) = (a = b)"
| "js_strict_eq _ _ = False"

text \<open>
  \<open>[...new Set(ids)].sort((a, b) => a - b)\<close>: the distinct ids in order of first
  appearance, sorted numerically by a stable sort that moves \<open>undefined\<close> to the end.
  Values other than numbers and \<open>undefined\<close> are outside the schema; the model sorts them
  with key 0.
\<close>

definition num_key :: "json option \<Rightarrow> rat" where
  "num_key v = (case v of Some (JNum r) \<Rightarrow> r | _ \<Rightarrow> 0)"

definition sort_ids :: "json option list \<Rightarrow> json option list" where
  "sort_ids ids = sort_key num_key (filter (\<lambda>v. v \<noteq> None) ids) @ filter (\<lambda>v. v = None) ids"

definition chain_list :: "token list \<Rightarrow> json option list" where
  "chain_list tokens = sort_ids (js_unique (map (\<lambda>t. jmember t ''chainId'') tokens))"

definition chain_group :: "token list \<Rightarrow> json option \<Rightarrow> token list" where
  "chain_group tokens i = filter (\<lambda>t. js_strict_eq (jmember t ''chainId'') i) tokens"

definition jnat :: "nat \<Rightarrow> json" where
  "jnat n = JNum (of_nat n)"

definition chain_stats :: "token list \<Rightarrow> json option \<Rightarrow> crash + json" where
  "chain_stats tokens i =
     (let ct = chain_group tokens i in
      js_then (js_filter is_super_token ct) (\<lambda>s.
      js_then (js_filter is_underlying ct) (\<lambda>u.
      Inr (jobj [(''chainId'', i), (''total'', Some (jnat (length ct))),
                 (''superTokens'', Some (jnat (length s))), (''underlying'', Some (jnat (length u)))]))))"

definition stats :: "token list \<Rightarrow> tok_error outcome" where
  "stats tokens =
     js_run (js_then (js_filter is_super_token tokens) (\<lambda>s.
             js_then (js_filter is_underlying tokens) (\<lambda>u.
             js_then (js_map_e (chain_stats tokens) (chain_list tokens)) (\<lambda>cs.
             Inr (Printed (JObj [(''totalTokens'', jnat (length tokens)), (''superTokens'', jnat (length s)),
                                 (''underlyingTokens'', jnat (length u)), (''chains'', JArr cs)]))))))"

section \<open>Command dispatch\<close>

definition with_tokens :: "token list option \<Rightarrow> (token list \<Rightarrow> tok_error outcome) \<Rightarrow> tok_error outcome" where
  "with_tokens tokens k =
     (case tokens of Some ts \<Rightarrow> k ts | None \<Rightarrow> Crashed (TypeError ''tokens is not an array of token objects''))"

definition tok_command :: "token list option \<Rightarrow> string list \<Rightarrow> tok_error outcome" where
  "tok_command tokens argv =
     (case argv of
        [] \<Rightarrow> Usage 0
      | command # args \<Rightarrow>
          (let a0 = js_arg args 0; a1 = js_arg args 1 in
           if command = ''by-address'' then
             (if a0 = [] then Failed (TokUsage ''Usage: tokenlist.mjs by-address <address>'')
              else with_tokens tokens (\<lambda>ts. by_address ts a0))
           else if command = ''by-chain'' then
             (if a0 = [] then Failed (TokUsage ''Usage: tokenlist.mjs by-chain <chain-id> [--super|--underlying]'')
              else with_tokens tokens (\<lambda>ts. by_chain ts a0 a1))
           else if command = ''by-symbol'' then
             (if a0 = [] then Failed (TokUsage ''Usage: tokenlist.mjs by-symbol <symbol> [--chain-id <id>]'')
              else with_tokens tokens (\<lambda>ts. by_symbol ts args))
           else if command = ''super-token'' then
             (if a0 = [] \<or> a1 = [] then
                Failed (TokUsage ''Usage: tokenlist.mjs super-token <chain-id> <symbol-or-address>'')
              else with_tokens tokens (\<lambda>ts. super_token ts a0 a1))
           else if command = ''stats'' then with_tokens tokens stats
           else Usage (if command = [] then 0 else 1)))"

text \<open>\<open>const tokens = await loadTokens();\<close> runs before the \<open>switch\<close>.\<close>

definition tok_main ::
  "(blob \<Rightarrow> json option) \<Rightarrow> (json \<Rightarrow> blob) \<Rightarrow> string list \<Rightarrow> world \<Rightarrow> cache
     \<Rightarrow> tok_error outcome \<times> cache" where
  "tok_main parse print argv w c =
     (case load_json (tokens_source parse print) w c of
        (Inl f, c') \<Rightarrow> (Failed (TokFetchFailed f), c')
      | (Inr tokens, c') \<Rightarrow> (tok_command tokens argv, c'))"

section \<open>Well-formed tokens\<close>

text \<open>
  The schema the callbacks rely on: a string \<open>address\<close> and \<open>symbol\<close>, \<open>tags\<close> absent,
  \<open>null\<close>, an array or a string, and an underlying token address that is a string when
  it is truthy. The projections read a well-formed token the way the callbacks do.
\<close>

definition is_str :: "json option \<Rightarrow> bool" where
  "is_str v = (case v of Some (JStr _) \<Rightarrow> True | _ \<Rightarrow> False)"

definition str_of :: "json option \<Rightarrow> string" where
  "str_of v = (case v of Some (JStr s) \<Rightarrow> s | _ \<Rightarrow> [])"

definition tags_ok :: "json option \<Rightarrow> bool" where
  "tags_ok v = (case v of Some (JNum _) \<Rightarrow> False | Some (JBool _) \<Rightarrow> False | Some (JObj _) \<Rightarrow> False | _ \<Rightarrow> True)"

definition ua_ok :: "json option \<Rightarrow> bool" where
  "ua_ok v = (case v of Some (JStr _) \<Rightarrow> True | _ \<Rightarrow> \<not> js_truthy v)"

definition token_wf :: "token \<Rightarrow> bool" where
  "token_wf t \<longleftrightarrow> is_str (jmember t ''address'') \<and> is_str (jmember t ''symbol'')
                   \<and> tags_ok (jmember t ''tags'') \<and> ua_ok (underlying_address t)"

definition tag_in :: "token \<Rightarrow> string \<Rightarrow> bool" where
  "tag_in t tag =
     (case jmember t ''tags'' of
        Some (JArr xs) \<Rightarrow> JStr tag \<in> set xs
      | Some (JStr s) \<Rightarrow> str_includes tag s
      | _ \<Rightarrow> False)"

definition token_address :: "token \<Rightarrow> string" where
  "token_address t = js_lower (str_of (jmember t ''address''))"

definition token_symbol :: "token \<Rightarrow> string" where
  "token_symbol t = js_lower (str_of (jmember t ''symbol''))"

text \<open>
  The value of \<open>result.underlying\<close> on a well-formed list: \<open>null\<close> without an underlying
  address, the summary of the token with that address, or the placeholder.
\<close>

definition underlying_of :: "token list \<Rightarrow> token \<Rightarrow> json" where
  "underlying_of ct st =
     (case underlying_address st of
        Some (JStr u) \<Rightarrow>
          if u = [] then JNull
          else (case find (\<lambda>t. token_address t = js_lower u) ct of
                  Some ut \<Rightarrow> token_summary ut
                | None \<Rightarrow> not_in_list (JStr u))
      | _ \<Rightarrow> JNull)"

text \<open>One entry of the \<open>chains\<close> array of \<open>stats\<close> on a well-formed list.\<close>

definition chain_json :: "token list \<Rightarrow> json option \<Rightarrow> json" where
  "chain_json ts i =
     (let ct = chain_group ts i in
      jobj [(''chainId'', i), (''total'', Some (jnat (length ct))),
            (''superTokens'', Some (jnat (length (filter (\<lambda>t. tag_in t ''supertoken'') ct)))),
            (''underlying'', Some (jnat (length (filter (\<lambda>t. tag_in t ''underlying'') ct))))])"

section \<open>Example tokens\<close>

definition demo_usdcx :: token where
  "demo_usdcx =
     [(''chainId'', JNum 10), (''address'', JStr ''0x8430''), (''name'', JStr ''Super USD Coin''),
      (''symbol'', JStr ''USDCx''), (''decimals'', JNum 18), (''tags'', JArr [JStr ''supertoken'']),
      (''extensions'', JObj [(''superTokenInfo'',
         JObj [(''type'', JStr ''Wrapper''), (''underlyingTokenAddress'', JStr ''0x7F5c'')])])]"

definition demo_dai :: token where
  "demo_dai =
     [(''chainId'', JNum 10), (''address'', JStr ''0xDA10''), (''name'', JStr ''Dai Stablecoin''),
      (''symbol'', JStr ''DAI''), (''decimals'', JNum 18), (''tags'', JArr [JStr ''underlying''])]"

definition demo_daix :: token where
  "demo_daix =
     [(''chainId'', JNum 10), (''address'', JStr ''0x7d34''), (''name'', JStr ''Super DAI''),
      (''symbol'', JStr ''DAIx''), (''decimals'', JNum 18), (''tags'', JArr [JStr ''supertoken'']),
      (''extensions'', JObj [(''superTokenInfo'',
         JObj [(''type'', JStr ''Wrapper''), (''underlyingTokenAddress'', JStr ''0xda10'')])])]"

definition demo_tokens :: "token list" where
  "demo_tokens = [demo_usdcx, demo_dai, demo_daix]"

text \<open>Two Super Tokens where the symbol of the first is the address of the second.\<close>

definition demo_clash_a :: token where
  "demo_clash_a = [(''chainId'', JNum 10), (''address'', JStr ''0xaaaa''), (''symbol'', JStr ''0xBBBB''),
                   (''tags'', JArr [JStr ''supertoken''])]"

definition demo_clash_b :: token where
  "demo_clash_b = [(''chainId'', JNum 10), (''address'', JStr ''0xbbbb''), (''symbol'', JStr ''Bx''),
                   (''tags'', JArr [JStr ''supertoken''])]"

section \<open>Lemmas: the commands on well-formed token lists\<close>

lemmas demo_tokens_eval = demo_tokens_def demo_usdcx_def demo_dai_def demo_daix_def

lemma member_is_str:
  "is_str (jmember t k) \<Longrightarrow> member_is t k v = Inr (js_lower (str_of (jmember t k)) = v)"
  by (auto simp: member_is_def is_str_def str_of_def split: option.splits json.splits)

lemma tags_include_ok:
  "tags_ok (jmember t ''tags'') \<Longrightarrow> tags_include t tag = Inr (tag_in t tag)"
  by (auto simp: tags_include_def tags_ok_def tag_in_def split: option.splits json.splits)

lemma super_match_wf:
  "token_wf t \<Longrightarrow>
   super_match q t = Inr (tag_in t ''supertoken'' \<and> (token_symbol t = q \<or> token_address t = q))"
  by (simp add: token_wf_def super_match_def is_super_token_def tags_include_ok member_is_str
      js_and_e_def js_or_e_def token_symbol_def token_address_def)

lemma underlying_match_wf:
  "token_wf t \<Longrightarrow> is_str ua \<Longrightarrow> underlying_match ua t = Inr (token_address t = js_lower (str_of ua))"
  by (auto simp: token_wf_def underlying_match_def is_str_def str_of_def token_address_def
      split: option.splits json.splits)

lemma wf_filters:
  assumes "list_all token_wf ts"
  shows "js_filter is_super_token ts = Inr (filter (\<lambda>t. tag_in t ''supertoken'') ts)"
    and "js_filter is_underlying ts = Inr (filter (\<lambda>t. tag_in t ''underlying'') ts)"
    and "js_filter (\<lambda>t. member_is t ''address'' v) ts = Inr (filter (\<lambda>t. token_address t = v) ts)"
    and "js_filter (\<lambda>t. member_is t ''symbol'' v) ts = Inr (filter (\<lambda>t. token_symbol t = v) ts)"
    and "js_find (super_match q) ts = Inr (find (\<lambda>t. tag_in t ''supertoken'' \<and> (token_symbol t = q \<or> token_address t = q)) ts)"
  using assms
  by (auto simp: list_all_iff token_wf_def is_super_token_def is_underlying_def tags_include_ok
      member_is_str token_address_def token_symbol_def super_match_wf
      intro!: js_filter_pure js_find_pure)

lemma wf_chain_tokens: "list_all token_wf ts \<Longrightarrow> list_all token_wf (chain_tokens x ts)"
  by (simp add: chain_tokens_def list_all_iff)

lemma by_address_wf:
  "list_all token_wf ts \<Longrightarrow>
   by_address ts a0 =
     (let ms = filter (\<lambda>t. token_address t = js_lower a0) ts in
      if ms = [] then Failed (NoTokenWithAddress a0) else Printed (summaries ms))"
  by (simp add: by_address_def wf_filters Let_def split: list.split)

lemma by_chain_wf:
  "list_all token_wf ts \<Longrightarrow>
   by_chain ts a0 a1 =
     (let x = string_to_number a0;
          ms = (if a1 = ''--super'' then filter (\<lambda>t. tag_in t ''supertoken'') (chain_tokens x ts)
                else if a1 = ''--underlying'' then filter (\<lambda>t. tag_in t ''underlying'') (chain_tokens x ts)
                else chain_tokens x ts)
      in if js_is_nan x then Failed ChainIdNotNumber
         else if ms = [] then Failed (NoTokensOnChain x a1) else Printed (summaries ms))"
  by (simp add: by_chain_def wf_filters wf_chain_tokens Let_def split: list.split)

lemma by_symbol_wf:
  "list_all token_wf ts \<Longrightarrow>
   by_symbol ts args =
     (let ci = js_index_of args ''--chain-id''; id_arg = js_arg args (nat (ci + 1));
          matches = filter (\<lambda>t. token_symbol t = js_lower (js_arg args 0)) ts;
          ms = (if ci \<noteq> -1 \<and> id_arg \<noteq> [] then filter (on_chain (string_to_number id_arg)) matches else matches)
      in if ms = [] then Failed (NoTokenWithSymbol (js_arg args 0)) else Printed (summaries ms))"
  by (simp add: by_symbol_def wf_filters Let_def)

lemma super_token_wf:
  assumes wf: "list_all token_wf ts"
  shows "super_token ts a0 a1 =
     (let x = string_to_number a0; ct = chain_tokens x ts in
      if js_is_nan x then Failed ChainIdNotNumber
      else case find (\<lambda>t. tag_in t ''supertoken'' \<and> (token_symbol t = js_lower a1 \<or> token_address t = js_lower a1)) ct of
             None \<Rightarrow> Failed (NoSuperToken x a1)
           | Some st \<Rightarrow> Printed (super_result st (underlying_of ct st)))"
proof -
  let ?x = "string_to_number a0"
  let ?ct = "chain_tokens ?x ts"
  let ?P = "\<lambda>t. tag_in t ''supertoken'' \<and> (token_symbol t = js_lower a1 \<or> token_address t = js_lower a1)"
  have ct: "list_all token_wf ?ct" using wf by (rule wf_chain_tokens)
  show ?thesis
  proof (cases "js_is_nan ?x \<or> find ?P ?ct = None")
    case True
    then show ?thesis using ct by (auto simp: super_token_def wf_filters Let_def)
  next
    case False
    then obtain st where nn: "\<not> js_is_nan ?x" and st: "find ?P ?ct = Some st" by auto
    then have "st \<in> set ?ct" by (auto simp: find_Some_iff)
    with ct have "token_wf st" by (simp add: list_all_iff)
    then have ua: "ua_ok (underlying_address st)" by (simp add: token_wf_def)
    have um: "is_str (Some (JStr u)) \<Longrightarrow> js_find (underlying_match (Some (JStr u))) ?ct
                = Inr (find (\<lambda>t. token_address t = js_lower u) ?ct)" for u
      using ct by (auto simp: list_all_iff underlying_match_wf str_of_def intro!: js_find_pure)
    show ?thesis
      using nn st ua um ct
      by (auto simp: super_token_def wf_filters underlying_of_def ua_ok_def is_str_def Let_def
          split: option.split json.split)
  qed
qed

lemma wf_chain_group: "list_all token_wf ts \<Longrightarrow> list_all token_wf (chain_group ts i)"
  by (simp add: chain_group_def list_all_iff)

lemma stats_wf:
  assumes wf: "list_all token_wf ts"
  shows "stats ts =
     Printed (JObj [(''totalTokens'', jnat (length ts)),
                    (''superTokens'', jnat (length (filter (\<lambda>t. tag_in t ''supertoken'') ts))),
                    (''underlyingTokens'', jnat (length (filter (\<lambda>t. tag_in t ''underlying'') ts))),
                    (''chains'', JArr (map (chain_json ts) (chain_list ts)))])"
proof -
  have "js_map_e (chain_stats ts) (chain_list ts) = Inr (map (chain_json ts) (chain_list ts))"
    using wf_chain_group [OF wf]
    by (intro js_map_e_pure) (simp add: chain_stats_def chain_json_def wf_filters Let_def)
  then show ?thesis using wf by (simp add: stats_def wf_filters js_run_def)
qed

lemma js_strict_eq_scalar: "js_strict_eq i i \<Longrightarrow> js_strict_eq a i = (a = i)"
  by (induction a i rule: js_strict_eq.induct) auto

lemma set_sort_ids [simp]: "set (sort_ids xs) = set xs"
  by (auto simp: sort_ids_def)

lemma distinct_sort_ids: "distinct xs \<Longrightarrow> distinct (sort_ids xs)"
  by (auto simp: sort_ids_def)

lemma set_chain_list [simp]: "set (chain_list ts) = (\<lambda>t. jmember t ''chainId'') ` set ts"
  by (simp add: chain_list_def)

lemma distinct_chain_list: "distinct (chain_list ts)"
  by (simp add: chain_list_def distinct_sort_ids)

lemma sorted_chain_list: "sorted (map num_key (filter (\<lambda>v. v \<noteq> None) (chain_list ts)))"
proof -
  let ?ys = "js_unique (map (\<lambda>t. jmember t ''chainId'') ts)"
  have "filter (\<lambda>v. v \<noteq> None) (chain_list ts) = sort_key num_key (filter (\<lambda>v. v \<noteq> None) ?ys)"
    by (auto simp: chain_list_def sort_ids_def filter_id_conv filter_empty_conv)
  then show ?thesis by (simp add: sorted_sort_key)
qed

lemma demo_tokens_wf: "list_all token_wf demo_tokens"
  by (simp add: demo_tokens_eval token_wf_def is_str_def tags_ok_def ua_ok_def underlying_address_def
      super_token_info_def js_eval)

section \<open>Properties of tokenlist.mjs\<close>

text \<open>C21. On a well-formed token list (string addresses and symbols, tags an array or
  a string, a string underlying address), no command of tokenlist.mjs throws: every run
  prints a document, a diagnostic or the help.\<close>

theorem tokens_never_crash:
  assumes wf: "list_all token_wf ts"
  shows "tok_command (Some ts) argv \<notin> range Crashed"
proof (cases argv)
  case Nil
  then show ?thesis by (auto simp: tok_command_def)
next
  case (Cons command args)
  have "by_address ts a \<notin> range Crashed" for a
    using by_address_wf [OF wf] by (auto simp: Let_def)
  moreover have "by_chain ts a b \<notin> range Crashed" for a b
    using by_chain_wf [OF wf] by (auto simp: Let_def)
  moreover have "by_symbol ts args \<notin> range Crashed"
    using by_symbol_wf [OF wf] by (auto simp: Let_def)
  moreover have "super_token ts a b \<notin> range Crashed" for a b
    using super_token_wf [OF wf] by (auto simp: Let_def split: option.split)
  moreover have "stats ts \<notin> range Crashed"
    using stats_wf [OF wf] by auto
  ultimately show ?thesis using Cons by (simp add: tok_command_def with_tokens_def Let_def)
qed

theorem tokens_never_crash_witness:
  "tok_command (Some demo_tokens) [''super-token'', ''10'', ''DAIx''] \<notin> range Crashed
 \<and> tok_command (Some demo_tokens) [''stats''] \<notin> range Crashed"
  using tokens_never_crash [OF demo_tokens_wf] by simp

text \<open>C22. Underlying-token placeholder (spec property 8): a Super Token whose
  underlying token address is not in the chain's token list is printed with the placeholder
  \<open>{address, note: "Not in token list"}\<close> as its underlying token, and the command succeeds.\<close>

theorem super_token_underlying_placeholder:
  assumes wf: "list_all token_wf ts" and a: "a0 \<noteq> []" "a1 \<noteq> []"
    and x: "\<not> js_is_nan (string_to_number a0)"
    and st: "find (\<lambda>t. tag_in t ''supertoken'' \<and> (token_symbol t = js_lower a1 \<or> token_address t = js_lower a1))
               (chain_tokens (string_to_number a0) ts) = Some st"
    and ua: "underlying_address st = Some (JStr u)" and u: "u \<noteq> []"
    and miss: "find (\<lambda>t. token_address t = js_lower u) (chain_tokens (string_to_number a0) ts) = None"
  shows "tok_command (Some ts) [''super-token'', a0, a1] =
           Printed (JObj [(''superToken'', token_summary st),
                          (''underlying'', JObj [(''address'', JStr u), (''note'', JStr ''Not in token list'')])])"
  using a x st ua u miss
  by (simp add: tok_command_def with_tokens_def super_token_wf [OF wf] underlying_of_def super_result_def
      not_in_list_def Let_def)

theorem super_token_underlying_placeholder_witness:
  "tok_command (Some demo_tokens) [''super-token'', ''10'', ''usdcx''] =
     Printed (JObj [(''superToken'', token_summary demo_usdcx),
                    (''underlying'', JObj [(''address'', JStr ''0x7F5c''), (''note'', JStr ''Not in token list'')])])"
proof (rule super_token_underlying_placeholder [OF demo_tokens_wf])
  show "''10'' \<noteq> []" "''usdcx'' \<noteq> []" "''0x7F5c'' \<noteq> []" by simp_all
  show "\<not> js_is_nan (string_to_number ''10'')" by (simp add: js_eval)
  show "find (\<lambda>t. tag_in t ''supertoken'' \<and> (token_symbol t = js_lower ''usdcx'' \<or> token_address t = js_lower ''usdcx''))
          (chain_tokens (string_to_number ''10'') demo_tokens) = Some demo_usdcx"
    by (simp add: demo_tokens_eval chain_tokens_def on_chain_def tag_in_def token_symbol_def
        token_address_def str_of_def js_eval)
  show "underlying_address demo_usdcx = Some (JStr ''0x7F5c'')"
    by (simp add: demo_usdcx_def underlying_address_def super_token_info_def js_eval)
  show "find (\<lambda>t. token_address t = js_lower ''0x7F5c'') (chain_tokens (string_to_number ''10'') demo_tokens) = None"
    by (simp add: demo_tokens_eval chain_tokens_def on_chain_def token_address_def str_of_def js_eval)
qed

text \<open>C23. \<open>by-symbol\<close> with a \<open>--chain-id\<close> that is not a number does not report
  malformed input: every match is filtered out and the command fails as if the symbol were
  unknown.\<close>

theorem by_symbol_bad_chain_id:
  assumes wf: "list_all token_wf ts" and s: "s \<noteq> []" "s \<noteq> ''--chain-id''"
    and c: "c \<noteq> []" "js_is_nan (string_to_number c)"
  shows "tok_command (Some ts) [''by-symbol'', s, ''--chain-id'', c] = Failed (NoTokenWithSymbol s)"
proof -
  have "\<not> on_chain NaN t" for t
    unfolding on_chain_def js_num_eq_def by (auto split: option.split json.split)
  then have "on_chain (string_to_number c) = (\<lambda>_. False)"
    using c by (auto simp: js_is_nan_def)
  then show ?thesis using s c
    by (simp add: tok_command_def with_tokens_def by_symbol_wf [OF wf] js_arg_def Let_def)
qed

theorem by_symbol_bad_chain_id_witness:
  "tok_command (Some demo_tokens) [''by-symbol'', ''USDCx'', ''--chain-id'', ''ten'']
     = Failed (NoTokenWithSymbol ''USDCx'')"
  by (rule by_symbol_bad_chain_id [OF demo_tokens_wf]) (simp_all add: js_eval)

text \<open>C24. In \<open>stats\<close>, the per-chain totals add up to the total number of tokens when
  the chain ids are scalar values (so that \<open>===\<close> is an equality on them).\<close>

theorem stats_chain_totals:
  assumes "list_all (\<lambda>t. js_strict_eq (jmember t ''chainId'') (jmember t ''chainId'')) ts"
  shows "sum_list (map (\<lambda>i. length (chain_group ts i)) (chain_list ts)) = length ts"
proof -
  let ?f = "\<lambda>t. jmember t ''chainId''"
  have "\<forall>i \<in> set (chain_list ts). chain_group ts i = filter (\<lambda>t. ?f t = i) ts"
    using assms by (auto simp: chain_group_def list_all_iff js_strict_eq_scalar)
  then have "sum_list (map (\<lambda>i. length (chain_group ts i)) (chain_list ts))
           = sum_list (map (\<lambda>i. length (filter (\<lambda>t. ?f t = i) ts)) (chain_list ts))"
    by (metis (no_types, lifting) map_eq_conv)
  also have "\<dots> = (\<Sum>i \<in> ?f ` set ts. length (filter (\<lambda>t. ?f t = i) ts))"
    using distinct_chain_list [of ts] by (simp add: sum_list_distinct_conv_sum_set)
  finally show ?thesis by (simp add: sum_length_filter_image)
qed

theorem stats_chain_totals_witness:
  "sum_list (map (\<lambda>i. length (chain_group demo_tokens i)) (chain_list demo_tokens)) = 3"
proof -
  have "list_all (\<lambda>t. js_strict_eq (jmember t ''chainId'') (jmember t ''chainId'')) demo_tokens"
    by (simp add: demo_tokens_eval js_eval)
  then show ?thesis using stats_chain_totals [of demo_tokens] by (simp add: demo_tokens_def)
qed

text \<open>C25. The chain ids \<open>stats\<close> lists are the chain ids of the tokens, each once,
  with the numeric ones in ascending order.\<close>

theorem stats_chain_list:
  "distinct (chain_list ts) \<and> set (chain_list ts) = (\<lambda>t. jmember t ''chainId'') ` set ts
 \<and> sorted (map num_key (filter (\<lambda>v. v \<noteq> None) (chain_list ts)))"
  using distinct_chain_list [of ts] sorted_chain_list [of ts] by simp

text \<open>C26. \<open>by-address\<close> compares addresses case-insensitively: two queries that
  agree up to case print the same document with the same status.\<close>

theorem by_address_case_insensitive:
  assumes wf: "list_all token_wf ts" and l: "js_lower a = js_lower b" and a: "a \<noteq> []" "b \<noteq> []"
  shows "stdout_of (tok_command (Some ts) [''by-address'', a]) = stdout_of (tok_command (Some ts) [''by-address'', b])
       \<and> exit_status (tok_command (Some ts) [''by-address'', a]) = exit_status (tok_command (Some ts) [''by-address'', b])"
  using a by (simp add: tok_command_def with_tokens_def by_address_wf [OF wf] l Let_def)

theorem by_address_case_insensitive_witness:
  "stdout_of (tok_command (Some demo_tokens) [''by-address'', ''0xda10''])
     = stdout_of (tok_command (Some demo_tokens) [''by-address'', ''0xDA10''])
 \<and> exit_status (tok_command (Some demo_tokens) [''by-address'', ''0xda10''])
     = exit_status (tok_command (Some demo_tokens) [''by-address'', ''0xDA10''])"
  by (rule by_address_case_insensitive [OF demo_tokens_wf]) (simp_all add: js_eval)

end
