(* ===== verification/Formatters.thy ===== *)
theory Formatters
  imports JsNumber
begin

text \<open>
  The formatters of src/skills/superfluid/scripts/balance.mjs (\<open>formatBalance\<close>,
  \<open>formatFlowRate\<close>, \<open>formatTimestamp\<close>) and the pieces of the JavaScript number
  semantics they rest on: \<open>ToNumber\<close> of a JSON value, double multiplication and
  division, \<open>10 ** d\<close>, \<open>Number.prototype.toFixed\<close>, \<open>Number::toString\<close> and
  \<open>Date.prototype.toISOString\<close>. A number is a value of \<open>js_num\<close> (theory
  \<open>JsNumber\<close>): the exact rational a double denotes, \<open>NaN\<close> or an infinity; every
  arithmetic operation rounds its exact result once with \<open>round_to_double\<close>, as IEEE 754
  prescribes. The two zeros are one value here; none of the formatters tells them apart
  (\<open>(-0).toFixed(n)\<close> prints no sign).
\<close>

section \<open>ToNumber of a JSON value\<close>

text \<open>
  \<open>Number(v)\<close> of a value read from JSON. An array goes through \<open>ToPrimitive\<close>, which
  joins its elements with commas: the empty array reads as 0, a one-element array as its
  element printed and read back (which for a number or string is the element's own value,
  for \<open>null\<close> 0 and for a boolean \<open>NaN\<close>), and a longer array contains a comma, so it
  is \<open>NaN\<close>; an object prints as \<open>[object Object]\<close>, \<open>NaN\<close>.
\<close>

fun js_to_number :: "json \<Rightarrow> js_num" where
  "js_to_number JNull = Num 0"
| "js_to_number (JBool b) = Num (if b then 1 else 0)"
| "js_to_number (JNum r) = Num r"
| "js_to_number (JStr s) = string_to_number s"
| "js_to_number (JObj _) = NaN"
| "js_to_number (JArr []) = Num 0"
| "js_to_number (JArr [JBool _]) = NaN"
| "js_to_number (JArr [x]) = js_to_number x"
| "js_to_number (JArr (_ # _ # _)) = NaN"

section \<open>Double arithmetic\<close>

fun js_mul :: "js_num \<Rightarrow> js_num \<Rightarrow> js_num" where
  "js_mul (Num a) (Num b) = round_to_double (a * b)"
| "js_mul NaN _ = NaN"
| "js_mul _ NaN = NaN"
| "js_mul (Num a) y = (if a = 0 then NaN else if (0 < a) = (y = PosInf) then PosInf else NegInf)"
| "js_mul x (Num b) = (if b = 0 then NaN else if (0 < b) = (x = PosInf) then PosInf else NegInf)"
| "js_mul x y = (if x = y then PosInf else NegInf)"

text \<open>Division; a zero divisor is +0 (no divisor of the scripts is a negative zero).\<close>

fun js_div :: "js_num \<Rightarrow> js_num \<Rightarrow> js_num" where
  "js_div (Num a) (Num b) =
     (if b = 0 then (if a = 0 then NaN else if 0 < a then PosInf else NegInf)
      else round_to_double (a / b))"
| "js_div NaN _ = NaN"
| "js_div _ NaN = NaN"
| "js_div (Num a) _ = Num 0"
| "js_div x (Num b) = (if (x = PosInf) = (0 \<le> b) then PosInf else NegInf)"
| "js_div _ _ = NaN"

text \<open>
  \<open>10 ** d\<close> for an integer \<open>d\<close>: the value \<open>10^d\<close> rounded to a double. The standard
  lets \<open>**\<close> be approximate; the value is exact for \<open>0 \<le> d \<le> 22\<close>, where
  \<open>10^d\<close> is a double, and the model takes the correctly rounded value elsewhere.
\<close>

definition js_pow10 :: "int \<Rightarrow> js_num" where
  "js_pow10 d = round_to_double (10 powi d)"

text \<open>
  \<open>10 ** x\<close> for a number \<open>x\<close>: \<open>NaN\<close> for \<open>NaN\<close>, an infinity or zero for the
  infinities, and \<open>js_pow10\<close> for an integer. Token precisions are integers in the
  schema; for a fractional exponent, whose power is irrational, the model uses the integer
  part.
\<close>

definition js_pow10_num :: "js_num \<Rightarrow> js_num" where
  "js_pow10_num x = (case x of NaN \<Rightarrow> NaN | PosInf \<Rightarrow> PosInf | NegInf \<Rightarrow> Num 0 | Num r \<Rightarrow> js_pow10 \<lfloor>r\<rfloor>)"

section \<open>Printing numbers\<close>

text \<open>\<open>\<lfloor>log10 r\<rfloor>\<close> of a positive rational, as \<open>rat_log2\<close> computes \<open>\<lfloor>log2 r\<rfloor>\<close>.\<close>

fun nat_log10 :: "nat \<Rightarrow> nat" where
  "nat_log10 n = (if n < 10 then 0 else Suc (nat_log10 (n div 10)))"

definition nat_clog10 :: "nat \<Rightarrow> nat" where
  "nat_clog10 n = (if n \<le> 1 then 0 else Suc (nat_log10 (n - 1)))"

definition rat_log10 :: "rat \<Rightarrow> int" where
  "rat_log10 r = (if 1 \<le> r then int (nat_log10 (nat \<lfloor>r\<rfloor>)) else - int (nat_clog10 (nat \<lceil>inverse r\<rceil>)))"

text \<open>
  Number::toString, step 5: the shortest digit string \<open>s\<close> (with \<open>k\<close> digits and
  decimal exponent \<open>n\<close>) such that \<open>s \<times> 10^(n - k)\<close> rounds back to \<open>x\<close>; for each
  \<open>k\<close> the candidate is the \<open>k\<close>-digit value nearest to \<open>x\<close>, ties to even. Seventeen
  digits always suffice for a double, so the fallback to 17 is never taken (theorem
  \<open>shortest_digits_least\<close> of theory \<open>DoubleDigits\<close>).
\<close>

definition digits_cand :: "rat \<Rightarrow> nat \<Rightarrow> int \<times> nat" where
  "digits_cand x k =
     (let e = rat_log10 x; s = round_half_even (x / 10 powi (e - int k + 1)) in
      if s = 10 ^ k then (e + 2, 10 ^ (k - 1)) else (e + 1, nat s))"

definition round_trips :: "rat \<Rightarrow> nat \<Rightarrow> bool" where
  "round_trips x k = (case digits_cand x k of (n, s) \<Rightarrow> round_to_double (of_nat s * 10 powi (n - int k)) = Num x)"

definition shortest_digits :: "rat \<Rightarrow> nat \<times> int \<times> nat" where
  "shortest_digits x =
     (let k = (case find (round_trips x) [1..<18] of Some k \<Rightarrow> k | None \<Rightarrow> 17) in (k, digits_cand x k))"

definition zeros :: "nat \<Rightarrow> string" where
  "zeros n = replicate n (CHR ''0'')"

text \<open>Number::toString, steps 6 to 10, for a positive finite value.\<close>

definition pos_to_string :: "rat \<Rightarrow> string" where
  "pos_to_string x =
     (case shortest_digits x of (k, n, s) \<Rightarrow>
       let ds = dec_string s; ik = int k in
       if ik \<le> n \<and> n \<le> 21 then ds @ zeros (nat (n - ik))
       else if 0 < n \<and> n \<le> 21 then take (nat n) ds @ ''.'' @ drop (nat n) ds
       else if -6 < n \<and> n \<le> 0 then ''0.'' @ zeros (nat (- n)) @ ds
       else
         let e = n - 1; es = (if 0 \<le> e then ''+'' else ''-'') @ dec_string (nat \<bar>e\<bar>) in
         if k = 1 then ds @ ''e'' @ es else take 1 ds @ ''.'' @ drop 1 ds @ ''e'' @ es)"

definition js_number_to_string :: "js_num \<Rightarrow> string" where
  "js_number_to_string x =
     (case x of
        NaN \<Rightarrow> ''NaN''
      | PosInf \<Rightarrow> ''Infinity''
      | NegInf \<Rightarrow> ''-Infinity''
      | Num r \<Rightarrow> if r = 0 then ''0'' else if r < 0 then ''-'' @ pos_to_string (- r) else pos_to_string r)"

text \<open>
  \<open>x.toFixed(f)\<close>, steps 8 to 12: the integer \<open>n\<close> nearest to \<open>x \<times> 10^f\<close>, the
  larger one on a tie, printed with \<open>f\<close> digits after the point (padded with zeros in
  front).
\<close>

definition fixed_digits :: "rat \<Rightarrow> nat \<Rightarrow> string" where
  "fixed_digits a f =
     (let n = \<lfloor>a * 10 ^ f + 1/2\<rfloor>; m = dec_string (nat n) in
      if f = 0 then m
      else
        let m' = (if length m \<le> f then zeros (f + 1 - length m) @ m else m);
            k = length m'
        in take (k - f) m' @ ''.'' @ drop (k - f) m')"

definition js_to_fixed :: "js_num \<Rightarrow> int \<Rightarrow> crash + string" where
  "js_to_fixed x f =
     (if f < 0 \<or> 100 < f then Inl (RangeError ''toFixed() digits argument must be between 0 and 100'')
      else case x of
             Num r \<Rightarrow>
               let s = (if r < 0 then ''-'' else ''''); a = \<bar>r\<bar> in
               Inr (s @ (if 10 ^ 21 \<le> a then js_number_to_string (Num a) else fixed_digits a (nat f)))
           | _ \<Rightarrow> Inr (js_number_to_string x))"

section \<open>Time values and \<open>toISOString\<close>\<close>

text \<open>
  \<open>new Date(x)\<close> for a number \<open>x\<close> is \<open>TimeClip(x)\<close>: \<open>NaN\<close> (an invalid date) when
  \<open>x\<close> is not finite or exceeds \<open>8.64 \<times> 10^15\<close> ms in magnitude, and otherwise \<open>x\<close>
  truncated toward zero. \<open>None\<close> is the invalid date.
\<close>

definition time_clip :: "js_num \<Rightarrow> int option" where
  "time_clip x =
     (case x of
        Num r \<Rightarrow> if \<bar>r\<bar> \<le> 8640000000000000 then Some (if 0 \<le> r then \<lfloor>r\<rfloor> else \<lceil>r\<rceil>) else None
      | _ \<Rightarrow> None)"

text \<open>
  The calendar of ECMAScript (21.4.1): \<open>DayFromYear\<close>, \<open>DaysInYear\<close>, the year of a day
  (the largest year starting on or before it, found from an estimate that is off by at most
  one), and the month and date within the year.
\<close>

definition day_from_year :: "int \<Rightarrow> int" where
  "day_from_year y = 365 * (y - 1970) + (y - 1969) div 4 - (y - 1901) div 100 + (y - 1601) div 400"

definition leap_year :: "int \<Rightarrow> bool" where
  "leap_year y \<longleftrightarrow> (y mod 4 = 0 \<and> y mod 100 \<noteq> 0) \<or> y mod 400 = 0"

definition year_from_day :: "int \<Rightarrow> int" where
  "year_from_day d =
     (let y0 = 1970 + (400 * d) div 146097 in
      if day_from_year (y0 + 1) \<le> d then y0 + 1 else if day_from_year y0 \<le> d then y0 else y0 - 1)"

definition month_start :: "bool \<Rightarrow> nat \<Rightarrow> int" where
  "month_start leap m =
     [0, 31, 59, 90, 120, 151, 181, 212, 243, 273, 304, 334, 365] ! m + (if leap \<and> 2 \<le> m then 1 else 0)"

text \<open>\<open>MonthFromTime\<close>: the last month, from \<open>m\<close> on, that starts on or before day \<open>diy\<close> of the year.\<close>

function month_from :: "bool \<Rightarrow> int \<Rightarrow> nat \<Rightarrow> nat" where
  "month_from leap diy m = (if 11 \<le> m \<or> diy < month_start leap (Suc m) then m else month_from leap diy (Suc m))"
  by pat_completeness auto
termination by (relation "measure (\<lambda>(leap, diy, m). 11 - m)") auto

definition month_in_year :: "bool \<Rightarrow> int \<Rightarrow> nat" where
  "month_in_year leap diy = month_from leap diy 0"

definition pad :: "nat \<Rightarrow> nat \<Rightarrow> string" where
  "pad w n = (let s = dec_string n in zeros (w - length s) @ s)"

text \<open>Years 0 to 9999 print with four digits, others as a signed six-digit year.\<close>

definition iso_year :: "int \<Rightarrow> string" where
  "iso_year y = (if 0 \<le> y \<and> y \<le> 9999 then pad 4 (nat y) else (if y < 0 then ''-'' else ''+'') @ pad 6 (nat \<bar>y\<bar>))"

definition iso_string :: "int \<Rightarrow> string" where
  "iso_string t =
     (let day = t div 86400000; ms = t mod 86400000; y = year_from_day day;
          diy = day - day_from_year y; m = month_in_year (leap_year y) diy;
          d = diy - month_start (leap_year y) m + 1
      in iso_year y @ ''-'' @ pad 2 (m + 1) @ ''-'' @ pad 2 (nat d) @ ''T''
         @ pad 2 (nat (ms div 3600000)) @ '':'' @ pad 2 (nat (ms div 60000 mod 60)) @ '':''
         @ pad 2 (nat (ms div 1000 mod 60)) @ ''.'' @ pad 3 (nat (ms mod 1000)) @ ''Z'')"

section \<open>The formatters of balance.mjs\<close>

text \<open>\<open>decimals > 8 ? 8 : decimals\<close> on a number (\<open>NaN > 8\<close> is false).\<close>

definition min8 :: "js_num \<Rightarrow> js_num" where
  "min8 d = (case d of Num r \<Rightarrow> if 8 < r then Num 8 else d | PosInf \<Rightarrow> Num 8 | _ \<Rightarrow> d)"

text \<open>
  \<open>x.toFixed(f)\<close> for a number \<open>f\<close>, steps 1 to 4: \<open>ToIntegerOrInfinity(f)\<close> (0 for
  \<open>NaN\<close>, truncation toward zero otherwise) and a \<open>RangeError\<close> for an infinity.
\<close>

definition js_to_fixed_num :: "js_num \<Rightarrow> js_num \<Rightarrow> crash + string" where
  "js_to_fixed_num x f =
     (case f of
        NaN \<Rightarrow> js_to_fixed x 0
      | Num r \<Rightarrow> js_to_fixed x (if 0 \<le> r then \<lfloor>r\<rfloor> else \<lceil>r\<rceil>)
      | _ \<Rightarrow> Inl (RangeError ''toFixed() digits argument must be between 0 and 100''))"

text \<open>
  \<open>formatBalance(wei, decimals)\<close>: \<open>null\<close> for \<open>wei == null\<close> (absent or \<open>null\<close>),
  otherwise the raw value and \<open>(Number(wei) / 10 ** decimals).toFixed(...)\<close>.
\<close>

definition format_balance :: "json option \<Rightarrow> js_num \<Rightarrow> crash + json" where
  "format_balance wei decimals =
     (case wei of
        None \<Rightarrow> Inr JNull
      | Some JNull \<Rightarrow> Inr JNull
      | Some w \<Rightarrow>
          js_then (js_to_fixed_num (js_div (js_to_number w) (js_pow10_num decimals)) (min8 decimals))
            (\<lambda>s. Inr (JObj [(''wei'', w), (''formatted'', JStr s)])))"

text \<open>
  \<open>formatFlowRate(weiPerSecond, decimals)\<close>: \<open>null\<close> for a falsy value or the string
  \<open>"0"\<close>; otherwise the sign is the leading \<open>-\<close>, the magnitude is the string with its
  first \<open>-\<close> removed (wherever it is), and both figures are printed with that sign in
  front. \<open>startsWith\<close> throws on a truthy value that is not a string.
\<close>

definition format_flow_rate :: "json option \<Rightarrow> js_num \<Rightarrow> crash + json" where
  "format_flow_rate w decimals =
     (if \<not> js_truthy w \<or> w = Some (JStr ''0'') then Inr JNull
      else case w of
        Some (JStr s) \<Rightarrow>
          let sign = (if js_starts_with ''-'' s then ''-'' else '''');
              magnitude = js_remove_first CHR ''-'' s;
              perSecond = js_div (string_to_number magnitude) (js_pow10_num decimals);
              perMonth = js_mul perSecond (Num 2592000)
          in js_then (js_to_fixed_num perSecond (min8 decimals)) (\<lambda>a.
             js_then (js_to_fixed perMonth 4) (\<lambda>b.
             Inr (JObj [(''wei_per_second'', JStr s), (''tokens_per_second'', JStr (sign @ a)),
                        (''tokens_per_month'', JStr (sign @ b))])))
      | _ \<Rightarrow> Inl (TypeError ''weiPerSecond.startsWith is not a function''))"

text \<open>
  \<open>formatTimestamp(ts)\<close>: \<open>null\<close> for a falsy value; otherwise the raw value and
  \<open>new Date(Number(ts) * 1000).toISOString()\<close>, which throws on an invalid date.
\<close>

definition format_timestamp :: "json option \<Rightarrow> crash + json" where
  "format_timestamp ts =
     (if \<not> js_truthy ts then Inr JNull
      else case ts of
        Some v \<Rightarrow>
          (case time_clip (js_mul (js_to_number v) (Num 1000)) of
             None \<Rightarrow> Inl (RangeError ''Invalid time value'')
           | Some t \<Rightarrow> Inr (JObj [(''unix'', v), (''iso'', JStr (iso_string t))]))
      | None \<Rightarrow> Inr JNull)"

section \<open>Evaluation\<close>

declare nat_log10.simps [simp del]

lemma nat_log10_small: "n < 10 \<Longrightarrow> nat_log10 n = 0" by (simp add: nat_log10.simps)

lemma nat_log10_big: "\<not> n < 10 \<Longrightarrow> nat_log10 n = Suc (nat_log10 (n div 10))" by (subst nat_log10.simps) simp

lemma zeros_0: "zeros 0 = []" by (simp add: zeros_def)

lemma zeros_pos: "0 < n \<Longrightarrow> zeros n = CHR ''0'' # zeros (n - 1)" by (cases n) (simp_all add: zeros_def)

lemmas fmt_eval = js_to_fixed_def fixed_digits_def dec_string_def dec_digits.simps zeros_0 zeros_pos
  js_number_to_string_def pos_to_string_def shortest_digits_def round_trips_def digits_cand_def
  rat_log10_def nat_clog10_def nat_log10_small nat_log10_big js_pow10_def upt_conv_Cons
  js_pow10_num_def js_to_fixed_num_def min8_def

declare month_from.simps [simp del]

lemmas date_eval = iso_string_def year_from_day_def day_from_year_def leap_year_def month_in_year_def
  month_from.simps month_start_def pad_def iso_year_def time_clip_def

section \<open>Lemmas: the calendar\<close>

lemma div_succ:
  assumes k: "1 < (k::int)"
  shows "(a + 1) div k = a div k + (if (a + 1) mod k = 0 then 1 else 0)"
proof -
  have e: "(a + 1) div k = a div k + (a mod k + 1) div k"
    using div_add1_eq [of a 1 k] k by simp
  have m: "(a + 1) mod k = (a mod k + 1) mod k" by (simp add: mod_add_left_eq)
  have r: "0 \<le> a mod k" "a mod k < k" using k by simp_all
  show ?thesis
  proof (cases "a mod k + 1 = k")
    case True
    then show ?thesis using e m k by simp
  next
    case False
    with r have lt: "a mod k + 1 < k" by simp
    then have "(a mod k + 1) div k = 0" "(a mod k + 1) mod k = a mod k + 1" using r by simp_all
    then show ?thesis using e m r by simp
  qed
qed

lemma mod_shift: "(y - 1968) mod 4 = (y::int) mod 4" "(y - 1900) mod 100 = y mod 100" "(y - 1600) mod 400 = y mod 400"
  using mod_mult_self2 [of y 4 "-492"] mod_mult_self2 [of y 100 "-19"] mod_mult_self2 [of y 400 "-4"] by simp_all

lemma day_from_year_step: "day_from_year (y + 1) = day_from_year y + (if leap_year y then 366 else 365)"
proof -
  have a: "(y - 1968) div 4 = (y - 1969) div 4 + (if y mod 4 = 0 then 1 else 0)"
    using div_succ [of 4 "y - 1969"] mod_shift(1) by simp
  have b: "(y - 1900) div 100 = (y - 1901) div 100 + (if y mod 100 = 0 then 1 else 0)"
    using div_succ [of 100 "y - 1901"] mod_shift(2) by simp
  have c: "(y - 1600) div 400 = (y - 1601) div 400 + (if y mod 400 = 0 then 1 else 0)"
    using div_succ [of 400 "y - 1601"] mod_shift(3) by simp
  have "y mod 400 = 0 \<Longrightarrow> y mod 100 = 0" "y mod 100 = 0 \<Longrightarrow> y mod 4 = 0"
    by (auto simp: mod_eq_0_iff_dvd elim: dvd_trans [rotated])
  then show ?thesis by (auto simp: day_from_year_def leap_year_def a b c)
qed

lemma div_bounds: "0 < (k::int) \<Longrightarrow> k * (x div k) \<le> x \<and> x < k * (x div k) + k"
  by (metis add.commute div_mult_mod_eq le_add_same_cancel2 mult.commute pos_mod_bound pos_mod_sign add_less_cancel_left)

lemma year_estimate_lower: "day_from_year (1970 + (400 * d) div 146097 - 1) \<le> d"
proof -
  define q where "q = (400 * d) div 146097"
  define A where "A = q div 4"
  define B where "B = (q + 68) div 100"
  define C where "C = (q + 368) div 400"
  have q: "146097 * q \<le> 400 * d" using div_bounds [of 146097 "400 * d"] by (simp add: q_def)
  have a: "4 * A \<le> q" using div_bounds [of 4 q] by (simp add: A_def)
  have b: "q + 68 < 100 * B + 100" using div_bounds [of 100 "q + 68"] by (simp add: B_def)
  have c: "400 * C \<le> q + 368" using div_bounds [of 400 "q + 368"] by (simp add: C_def)
  have "365 * (q - 1) + A - B + C \<le> d" using q a b c by (simp add: algebra_simps)
  then show ?thesis by (simp add: day_from_year_def q_def A_def B_def C_def algebra_simps)
qed

lemma year_estimate_upper: "d < day_from_year (1970 + (400 * d) div 146097 + 2)"
proof -
  define q where "q = (400 * d) div 146097"
  define A where "A = (q + 3) div 4"
  define B where "B = (q + 71) div 100"
  define C where "C = (q + 371) div 400"
  have q: "400 * d < 146097 * q + 146097" using div_bounds [of 146097 "400 * d"] by (simp add: q_def)
  have a: "q + 3 < 4 * A + 4" using div_bounds [of 4 "q + 3"] by (simp add: A_def)
  have b: "100 * B \<le> q + 71" using div_bounds [of 100 "q + 71"] by (simp add: B_def)
  have c: "q + 371 < 400 * C + 400" using div_bounds [of 400 "q + 371"] by (simp add: C_def)
  have "d < 365 * (q + 2) + A - B + C" using q a b c by (simp add: algebra_simps)
  then show ?thesis by (simp add: day_from_year_def q_def A_def B_def C_def algebra_simps)
qed

lemma day_from_year_less: "day_from_year y < day_from_year (y + 1)"
  by (simp add: day_from_year_step)

lemma day_from_year_mono: "y < z \<Longrightarrow> day_from_year y < day_from_year z"
proof (induction z rule: int_gr_induct)
  case base
  then show ?case using day_from_year_less [of y] by simp
next
  case (step z)
  then show ?case using day_from_year_less [of z] by simp
qed

lemma year_from_day_bounds:
  "day_from_year (year_from_day d) \<le> d \<and> d < day_from_year (year_from_day d + 1)"
  using year_estimate_lower [of d] year_estimate_upper [of d]
  by (auto simp: year_from_day_def Let_def)

lemma month_from_bounds:
  "m \<le> 11 \<Longrightarrow> month_start leap m \<le> diy \<Longrightarrow> diy < month_start leap 12 \<Longrightarrow>
   m \<le> month_from leap diy m \<and> month_from leap diy m \<le> 11
   \<and> month_start leap (month_from leap diy m) \<le> diy \<and> diy < month_start leap (Suc (month_from leap diy m))"
proof (induction leap diy m rule: month_from.induct)
  case (1 leap diy m)
  show ?case
  proof (cases "11 \<le> m \<or> diy < month_start leap (Suc m)")
    case True
    then have r: "month_from leap diy m = m" by (subst month_from.simps) simp
    have "m = 11 \<or> diy < month_start leap (Suc m)" using True "1.prems"(1) by linarith
    moreover have "Suc 11 = 12" by simp
    ultimately show ?thesis using "1.prems" r by auto
  next
    case False
    then have r: "month_from leap diy m = month_from leap diy (Suc m)" by (subst month_from.simps) simp
    from False have "Suc m \<le> 11" "month_start leap (Suc m) \<le> diy" by auto
    then show ?thesis using "1.IH" [OF False] "1.prems"(3) r by simp
  qed
qed

lemma month_start_year: "month_start (leap_year y) 12 = day_from_year (y + 1) - day_from_year y"
  by (simp add: month_start_def day_from_year_step)

section \<open>Lemmas: fixed-point printing\<close>

lemma take_digits_append:
  "\<forall>d \<in> set ds. d < 10 \<Longrightarrow>
   take_digits 10 (map (\<lambda>d. char_of (48 + d)) ds @ rest) = (ds @ fst (take_digits 10 rest), snd (take_digits 10 rest))"
  by (induction ds) (auto simp: digit_val_digit split: prod.split)

lemma digits_nat_zeros: "digits_nat r (replicate z 0 @ xs) = digits_nat r xs"
  by (induction z) (simp_all add: digits_nat_def)

lemma zeros_digits: "zeros z = map (\<lambda>d. char_of (48 + d)) (replicate z (0::nat))"
  by (simp add: zeros_def js_eval)

lemma fixed_digits_parse:
  assumes a: "0 \<le> a" and f: "0 < f"
  shows "\<exists>ip fp. fixed_digits a f = ip @ ''.'' @ fp \<and> length fp = f
           \<and> parse_unsigned_decimal (fixed_digits a f) = Some (of_int \<lfloor>a * 10 ^ f + 1/2\<rfloor> / 10 ^ f)"
proof -
  define n where "n = nat \<lfloor>a * 10 ^ f + 1/2\<rfloor>"
  have n0: "of_nat n = (of_int \<lfloor>a * 10 ^ f + 1/2\<rfloor> :: rat)" using a by (simp add: n_def)
  define ch where "ch = (\<lambda>d::nat. char_of (48 + d) :: char)"
  define z where "z = (if length (dec_digits n) \<le> f then f + 1 - length (dec_digits n) else 0)"
  define ds where "ds = replicate z 0 @ dec_digits n"
  have dsl: "\<forall>d \<in> set ds. d < 10" using dec_digits_lt [of _ n] by (auto simp: ds_def)
  have len: "f < length ds" using dec_digits_ne [of n] by (auto simp: ds_def z_def)
  define ip where "ip = take (length ds - f) ds"
  define fp where "fp = drop (length ds - f) ds"
  have fd: "fixed_digits a f = map ch ip @ ''.'' @ map ch fp"
    using f by (simp add: fixed_digits_def Let_def n_def [symmetric] dec_string_def zeros_digits ip_def fp_def
        ds_def z_def ch_def take_map drop_map)
  have ipd: "\<forall>d \<in> set ip. d < 10" "\<forall>d \<in> set fp. d < 10" using dsl
    by (auto simp: ip_def fp_def dest: in_set_takeD in_set_dropD)
  have dot: "digit_val 10 (CHR ''.'') = None" by (simp add: digit_val_def)
  have t1: "take_digits 10 (map ch ip @ ''.'' @ map ch fp) = (ip, ''.'' @ map ch fp)"
    using take_digits_append [OF ipd(1), of "''.'' @ map ch fp"] dot by (simp add: ch_def)
  have t2: "take_digits 10 (map ch fp) = (fp, [])"
    using take_digits_append [OF ipd(2), of "[]"] by (simp add: ch_def)
  have lfp: "length fp = f" using len by (simp add: fp_def)
  then have "fp \<noteq> []" using f by auto
  have "ip @ fp = ds" by (simp add: ip_def fp_def)
  then have "digits_nat 10 (ip @ fp) = n"
    by (simp add: ds_def digits_nat_zeros digits_nat_dec_digits)
  then have "parse_unsigned_decimal (fixed_digits a f) = Some (of_nat n / 10 ^ f)"
    using fd t1 t2 lfp f \<open>fp \<noteq> []\<close> by (simp add: parse_unsigned_decimal_def parse_exponent_def scaled_def power_int_minus
        divide_inverse)
  then show ?thesis using fd lfp n0
    by (intro exI [of _ "map ch ip"] exI [of _ "map ch fp"]) simp
qed

lemma round_up_error: "\<bar>of_int \<lfloor>x + 1/2\<rfloor> - x\<bar> \<le> (1/2 :: rat)"
  using floor_correct [of "x + 1/2"] by linarith

lemma js_remove_first_absent: "c \<notin> set s \<Longrightarrow> js_remove_first c s = s"
  by (induction s) auto


lemma js_to_fixed_ok: "0 \<le> f \<Longrightarrow> f \<le> 100 \<Longrightarrow> \<exists>s. js_to_fixed x f = Inr s"
  by (simp add: js_to_fixed_def Let_def split: js_num.split)

lemma min8_digits:
  "d \<noteq> NegInf \<Longrightarrow> (\<forall>r. d = Num r \<longrightarrow> -1 < r) \<Longrightarrow> \<exists>s. js_to_fixed_num x (min8 d) = Inr s"
proof (cases d)
  case (Num r)
  moreover assume "\<forall>r. d = Num r \<longrightarrow> -1 < r"
  ultimately have "-1 < r" by simp
  then have "0 \<le> (if 0 \<le> min 8 r then \<lfloor>min 8 r\<rfloor> else \<lceil>min 8 r\<rceil>)"
    and "(if 0 \<le> min 8 r then \<lfloor>min 8 r\<rfloor> else \<lceil>min 8 r\<rceil>) \<le> 100"
    by (auto simp: ceiling_le_iff le_floor_iff floor_le_iff)
  then show ?thesis using Num by (auto simp: js_to_fixed_num_def min8_def min_def intro!: js_to_fixed_ok split: if_splits)
qed (auto simp: js_to_fixed_num_def min8_def intro!: js_to_fixed_ok)

lemma min8_range:
  "d = NegInf \<or> (\<exists>r. d = Num r \<and> r \<le> -1) \<Longrightarrow>
   js_to_fixed_num x (min8 d) = Inl (RangeError ''toFixed() digits argument must be between 0 and 100'')"
proof (elim disjE exE conjE)
  fix r assume "d = Num r" "r \<le> -1"
  moreover have "\<lceil>r\<rceil> < 0" using \<open>r \<le> -1\<close> by linarith
  ultimately show ?thesis by (simp add: js_to_fixed_num_def min8_def js_to_fixed_def)
qed (simp add: js_to_fixed_num_def min8_def)

lemma js_then_obj [simp]: "js_then m (\<lambda>s. Inr (JObj (f s))) \<noteq> Inr JNull"
  by (cases m) (simp_all add: js_then_def)

section \<open>Lemmas: exact values of the double arithmetic\<close>

text \<open>\<open>10 ** d\<close> is exact for \<open>0 \<le> d \<le> 22\<close>, as the model takes it.\<close>

lemma pow10_exact_all: "list_all (\<lambda>d. js_pow10 (int d) = Num (10 ^ d)) [0..<23]"
  by (simp add: js_pow10_def upt_conv_Cons round_to_double_def rat_log2_def js_eval Let_def)

lemma pow10_exact: "d \<le> 22 \<Longrightarrow> js_pow10_num (Num (of_nat d)) = Num (10 ^ d)"
  using pow10_exact_all by (simp add: js_pow10_num_def list_all_iff)

lemma round_to_double_neg:
  assumes "0 < r" "round_to_double r = Num x"
  shows "round_to_double (- r) = Num (- x)"
  using assms by (auto simp: round_to_double_def Let_def split: if_splits)

lemma round_to_double_int:
  assumes "\<bar>m\<bar> \<le> 2 ^ 53"
  shows "round_to_double (of_int m) = Num (of_int m)"
proof (cases "0 \<le> m")
  case True
  then have "nat m \<le> 2 ^ 53" using assms by (simp add: nat_le_iff)
  then show ?thesis using round_to_double_nat [of "nat m"] True by simp
next
  case False
  then have n: "nat (- m) \<le> 2 ^ 53" "0 < (of_nat (nat (- m)) :: rat)" using assms by (simp_all add: nat_le_iff)
  have "round_to_double (- of_nat (nat (- m))) = Num (- of_nat (nat (- m)))"
    by (rule round_to_double_neg [OF n(2) round_to_double_nat [OF n(1)]])
  then show ?thesis using False by simp
qed

section \<open>Lemmas: the runtime's printers and calendar\<close>

text \<open>
  \<open>toFixed\<close> refines its specification: for a finite value below \<open>10^21\<close> and
  \<open>0 < f \<le> 100\<close>, the printed string is the sign and a decimal numeral with exactly
  \<open>f\<close> fractional digits, which reads back as the \<open>f\<close>-digit decimal nearest to the value
  (halves rounded up), at most half a unit of the last digit away.
\<close>

lemma to_fixed_nearest:
  assumes f: "0 < f" "f \<le> 100" and r: "\<bar>r\<bar> < 10 ^ 21"
  shows "\<exists>t ip fp. js_to_fixed (Num r) f = Inr ((if r < 0 then ''-'' else '''') @ t)
           \<and> t = ip @ ''.'' @ fp \<and> length fp = nat f
           \<and> parse_unsigned_decimal t = Some (of_int \<lfloor>\<bar>r\<bar> * 10 ^ nat f + 1/2\<rfloor> / 10 ^ nat f)
           \<and> \<bar>of_int \<lfloor>\<bar>r\<bar> * 10 ^ nat f + 1/2\<rfloor> / 10 ^ nat f - \<bar>r\<bar>\<bar> \<le> 1 / (2 * 10 ^ nat f)"
proof -
  have tf: "js_to_fixed (Num r) f = Inr ((if r < 0 then ''-'' else '''') @ fixed_digits \<bar>r\<bar> (nat f))"
    using f r by (simp add: js_to_fixed_def)
  obtain ip fp where fd: "fixed_digits \<bar>r\<bar> (nat f) = ip @ ''.'' @ fp" "length fp = nat f"
      "parse_unsigned_decimal (fixed_digits \<bar>r\<bar> (nat f)) = Some (of_int \<lfloor>\<bar>r\<bar> * 10 ^ nat f + 1/2\<rfloor> / 10 ^ nat f)"
    using fixed_digits_parse [of "\<bar>r\<bar>" "nat f"] f by auto
  have p: "(0::rat) < 10 ^ nat f" by simp
  have "\<bar>of_int \<lfloor>\<bar>r\<bar> * 10 ^ nat f + 1/2\<rfloor> - \<bar>r\<bar> * 10 ^ nat f\<bar> \<le> (1/2 :: rat)"
    by (rule round_up_error)
  then have "\<bar>of_int \<lfloor>\<bar>r\<bar> * 10 ^ nat f + 1/2\<rfloor> / 10 ^ nat f - \<bar>r\<bar>\<bar> \<le> 1 / (2 * 10 ^ nat f)"
    using p by (simp add: abs_divide [symmetric] diff_divide_distrib [symmetric] divide_le_eq field_simps)
  then show ?thesis using tf fd by blast
qed

text \<open>
  The year of a day is the one ECMAScript defines (\<open>YearFromTime\<close>): the largest
  year whose first day is on or before it; the estimate and correction of
  \<open>year_from_day\<close> compute exactly that.
\<close>

lemma year_from_day_greatest:
  "day_from_year (year_from_day d) \<le> d \<and> (\<forall>y. day_from_year y \<le> d \<longrightarrow> y \<le> year_from_day d)"
proof -
  have "y \<le> year_from_day d" if "day_from_year y \<le> d" for y
  proof (rule ccontr)
    assume "\<not> y \<le> year_from_day d"
    then have "day_from_year (year_from_day d + 1) \<le> day_from_year y"
      using day_from_year_mono [of "year_from_day d + 1" y] by (cases "y = year_from_day d + 1") auto
    with that year_from_day_bounds [of d] show False by simp
  qed
  then show ?thesis using year_from_day_bounds [of d] by blast
qed

text \<open>
  The date \<open>toISOString\<close> prints is a valid calendar date that denotes the day:
  the month is one of the twelve, the day of the month lies within the month, and
  \<open>MakeDay\<close> of year, month and date gives the day back.
\<close>

lemma civil_date_valid:
  assumes "y = year_from_day d" and "diy = d - day_from_year y" and "m = month_in_year (leap_year y) diy"
    and "dt = diy - month_start (leap_year y) m + 1"
  shows "day_from_year y \<le> d \<and> d < day_from_year (y + 1) \<and> m \<le> 11 \<and> 1 \<le> dt
       \<and> dt \<le> month_start (leap_year y) (Suc m) - month_start (leap_year y) m
       \<and> day_from_year y + month_start (leap_year y) m + dt - 1 = d"
proof -
  have yb: "day_from_year y \<le> d" "d < day_from_year (y + 1)" using year_from_day_bounds [of d] assms(1) by auto
  then have "month_start (leap_year y) 0 \<le> diy" "diy < month_start (leap_year y) 12"
    using assms(2) month_start_year [of y] by (simp_all add: month_start_def)
  then have "month_from (leap_year y) diy 0 \<le> 11 \<and> month_start (leap_year y) (month_from (leap_year y) diy 0) \<le> diy
     \<and> diy < month_start (leap_year y) (Suc (month_from (leap_year y) diy 0))"
    using month_from_bounds [of 0 "leap_year y" diy] by simp
  then show ?thesis using yb assms(2-4) by (simp add: month_in_year_def)
qed

section \<open>Properties of the formatters\<close>

text \<open>
  C27. The type of \<open>formatBalance\<close>: for any JSON value and any decimals, the result is
  \<open>null\<close> for an absent or \<open>null\<close> balance and otherwise the object of the raw value and a
  formatted string; the only exception is the \<open>RangeError\<close> of \<open>toFixed\<close>, thrown
  exactly when the decimals are \<open>-1\<close> or less (or \<open>-Infinity\<close>). The witness is spec
  property 8.5: one token of 18 decimals is \<open>1.00000000\<close>.
\<close>

theorem format_balance_type:
  "(d \<noteq> NegInf \<and> (\<forall>r. d = Num r \<longrightarrow> -1 < r) \<longrightarrow>
      (\<exists>s. format_balance w d = Inr (case w of None \<Rightarrow> JNull | Some JNull \<Rightarrow> JNull
                                          | Some v \<Rightarrow> JObj [(''wei'', v), (''formatted'', JStr s)])))
   \<and> (d = NegInf \<or> (\<exists>r. d = Num r \<and> r \<le> -1) \<longrightarrow> w \<noteq> None \<longrightarrow> w \<noteq> Some JNull \<longrightarrow>
      format_balance w d = Inl (RangeError ''toFixed() digits argument must be between 0 and 100''))"
proof (intro conjI impI)
  assume ok: "d \<noteq> NegInf \<and> (\<forall>r. d = Num r \<longrightarrow> -1 < r)"
  show "\<exists>s. format_balance w d = Inr (case w of None \<Rightarrow> JNull | Some JNull \<Rightarrow> JNull
                                          | Some v \<Rightarrow> JObj [(''wei'', v), (''formatted'', JStr s)])"
  proof (cases "w = None \<or> w = Some JNull")
    case True
    then show ?thesis by (auto simp: format_balance_def)
  next
    case False
    then obtain v where v: "w = Some v" "v \<noteq> JNull" by auto
    obtain s where "js_to_fixed_num (js_div (js_to_number v) (js_pow10_num d)) (min8 d) = Inr s"
      using min8_digits ok by blast
    then show ?thesis using v by (cases v) (auto simp: format_balance_def)
  qed
next
  assume "d = NegInf \<or> (\<exists>r. d = Num r \<and> r \<le> -1)" "w \<noteq> None" "w \<noteq> Some JNull"
  then show "format_balance w d = Inl (RangeError ''toFixed() digits argument must be between 0 and 100'')"
    using min8_range by (auto simp: format_balance_def split: option.split json.split)
qed

theorem format_balance_type_witness:
  "format_balance (Some (JStr ''1000000000000000000'')) (Num 18)
     = Inr (JObj [(''wei'', JStr ''1000000000000000000''), (''formatted'', JStr ''1.00000000'')])
   \<and> format_balance (Some (JStr ''5'')) (Num (-1))
     = Inl (RangeError ''toFixed() digits argument must be between 0 and 100'')"
proof
  obtain s where "format_balance (Some (JStr ''1000000000000000000'')) (Num 18)
                    = Inr (JObj [(''wei'', JStr ''1000000000000000000''), (''formatted'', JStr s)])"
    using format_balance_type [of "Num 18" "Some (JStr ''1000000000000000000'')"] by auto
  moreover have "format_balance (Some (JStr ''1000000000000000000'')) (Num 18)
                   = Inr (JObj [(''wei'', JStr ''1000000000000000000''), (''formatted'', JStr ''1.00000000'')])"
    by (simp add: format_balance_def min8_def fmt_eval js_eval split del: if_split)
  ultimately show "format_balance (Some (JStr ''1000000000000000000'')) (Num 18)
     = Inr (JObj [(''wei'', JStr ''1000000000000000000''), (''formatted'', JStr ''1.00000000'')])" by simp
  show "format_balance (Some (JStr ''5'')) (Num (-1))
     = Inl (RangeError ''toFixed() digits argument must be between 0 and 100'')"
    using format_balance_type [of "Num (-1)" "Some (JStr ''5'')"] by simp
qed

text \<open>
  C28. Flow-rate sign (spec property 8.6): a negative rate is formatted as its magnitude
  with a minus sign in front of both the per-second and the per-month figure, and its raw
  value is kept unchanged.
\<close>

theorem flow_rate_sign:
  assumes s: "CHR ''-'' \<notin> set s" "s \<noteq> []" "s \<noteq> ''0''"
    and pos: "format_flow_rate (Some (JStr s)) d =
           Inr (JObj [(''wei_per_second'', JStr s), (''tokens_per_second'', JStr a), (''tokens_per_month'', JStr b)])"
  shows "format_flow_rate (Some (JStr (CHR ''-'' # s))) d =
           Inr (JObj [(''wei_per_second'', JStr (CHR ''-'' # s)), (''tokens_per_second'', JStr (CHR ''-'' # a)),
                      (''tokens_per_month'', JStr (CHR ''-'' # b))])"
proof -
  have ns: "\<not> js_starts_with ''-'' s" using s(1,2) by (cases s) (auto simp: js_starts_with_def)
  have rm: "js_remove_first CHR ''-'' s = s" using s(1) by (rule js_remove_first_absent)
  let ?ps = "js_div (string_to_number s) (js_pow10_num d)"
  have "js_then (js_to_fixed_num ?ps (min8 d)) (\<lambda>a. js_then (js_to_fixed (js_mul ?ps (Num 2592000)) 4) (\<lambda>b.
          Inr (JObj [(''wei_per_second'', JStr s), (''tokens_per_second'', JStr a), (''tokens_per_month'', JStr b)])))
        = Inr (JObj [(''wei_per_second'', JStr s), (''tokens_per_second'', JStr a), (''tokens_per_month'', JStr b)])"
    using pos s(2,3) ns rm by (simp add: format_flow_rate_def Let_def)
  then obtain a' b' where "js_to_fixed_num ?ps (min8 d) = Inr a'" "js_to_fixed (js_mul ?ps (Num 2592000)) 4 = Inr b'"
      "a' = a" "b' = b"
    by (auto simp: js_then_def split: sum.splits)
  then show ?thesis using rm by (simp add: format_flow_rate_def js_starts_with_def Let_def)
qed

theorem flow_rate_sign_witness:
  "format_flow_rate (Some (JStr ''-500000000000000'')) (Num 18) =
     Inr (JObj [(''wei_per_second'', JStr ''-500000000000000''), (''tokens_per_second'', JStr ''-0.00050000''),
                (''tokens_per_month'', JStr ''-1296.0000'')])"
proof -
  have pos: "format_flow_rate (Some (JStr ''500000000000000'')) (Num 18) =
     Inr (JObj [(''wei_per_second'', JStr ''500000000000000''), (''tokens_per_second'', JStr ''0.00050000''),
                (''tokens_per_month'', JStr ''1296.0000'')])"
    by (simp add: format_flow_rate_def min8_def js_starts_with_def fmt_eval js_eval split del: if_split)
  have "format_flow_rate (Some (JStr (CHR ''-'' # ''500000000000000''))) (Num 18) =
     Inr (JObj [(''wei_per_second'', JStr (CHR ''-'' # ''500000000000000'')),
                (''tokens_per_second'', JStr (CHR ''-'' # ''0.00050000'')),
                (''tokens_per_month'', JStr (CHR ''-'' # ''1296.0000''))])"
    by (rule flow_rate_sign [OF _ _ _ pos]) simp_all
  then show ?thesis by simp
qed

text \<open>
  C29. Zero values are recognised by truthiness, not by value, and each formatter has
  its own notion of no value: \<open>formatBalance\<close> gives \<open>null\<close> exactly for an absent or
  \<open>null\<close> balance (so 0 and the empty string are formatted), \<open>formatFlowRate\<close> exactly for
  a falsy rate or the string \<open>"0"\<close> (so \<open>"-0"\<close> and \<open>"00"\<close> are printed as rates), and
  \<open>formatTimestamp\<close> exactly for a falsy value (so the string \<open>"0"\<close> is the epoch);
  the specification treats zero rates and timestamps as \<open>null\<close>.
\<close>

theorem formatters_null_iff:
  "(format_balance w d = Inr JNull \<longleftrightarrow> w = None \<or> w = Some JNull)
 \<and> (format_flow_rate w d = Inr JNull \<longleftrightarrow> \<not> js_truthy w \<or> w = Some (JStr ''0''))
 \<and> (format_timestamp w = Inr JNull \<longleftrightarrow> \<not> js_truthy w)"
proof (intro conjI)
  show "format_balance w d = Inr JNull \<longleftrightarrow> w = None \<or> w = Some JNull"
    by (auto simp: format_balance_def split: option.split json.split)
  show "format_flow_rate w d = Inr JNull \<longleftrightarrow> \<not> js_truthy w \<or> w = Some (JStr ''0'')"
    by (auto simp: format_flow_rate_def Let_def js_then_def split: option.split json.split sum.splits)
  show "format_timestamp w = Inr JNull \<longleftrightarrow> \<not> js_truthy w"
    by (auto simp: format_timestamp_def split: option.split json.split)
qed

theorem formatters_null_iff_witness:
  "format_balance (Some (JNum 0)) (Num 18) \<noteq> Inr JNull
   \<and> format_flow_rate (Some (JStr ''0'')) (Num 18) = Inr JNull
   \<and> format_flow_rate (Some (JStr ''-0'')) (Num 18) \<noteq> Inr JNull
   \<and> format_timestamp (Some (JNum 0)) = Inr JNull
   \<and> format_timestamp (Some (JStr ''0'')) \<noteq> Inr JNull"
  using formatters_null_iff [of "Some (JNum 0)" "Num 18"]
        formatters_null_iff [of "Some (JStr ''0'')" "Num 18"]
        formatters_null_iff [of "Some (JStr ''-0'')" "Num 18"]
  by simp

text \<open>
  C30. The balance figure (spec property 8.5): for a balance that \<open>Number\<close> reads as a
  finite value and integer decimals between 1 and 22, \<open>formatted\<close> is the sign and a
  decimal numeral with exactly \<open>min(decimals, 8)\<close> fractional digits, which reads back
  as the decimal of that many digits nearest to the double \<open>balance / 10^decimals\<close>, at
  most half a unit of its last digit away.
\<close>

theorem format_balance_digits:
  assumes v: "v \<noteq> JNull" "js_to_number v = Num n" and d: "0 < d" "d \<le> 22"
    and q: "round_to_double (n / 10 ^ d) = Num q" and big: "\<bar>q\<bar> < 10 ^ 21"
  shows "\<exists>t ip fp. format_balance (Some v) (Num (of_nat d))
             = Inr (JObj [(''wei'', v), (''formatted'', JStr ((if q < 0 then ''-'' else '''') @ t))])
           \<and> t = ip @ ''.'' @ fp \<and> length fp = min d 8
           \<and> parse_unsigned_decimal t = Some (of_int \<lfloor>\<bar>q\<bar> * 10 ^ min d 8 + 1/2\<rfloor> / 10 ^ min d 8)
           \<and> \<bar>of_int \<lfloor>\<bar>q\<bar> * 10 ^ min d 8 + 1/2\<rfloor> / 10 ^ min d 8 - \<bar>q\<bar>\<bar> \<le> 1 / (2 * 10 ^ min d 8)"
proof -
  let ?f = "int (min d 8)"
  have div: "js_div (js_to_number v) (js_pow10_num (Num (of_nat d))) = Num q"
    using v(2) pow10_exact [OF d(2)] q by simp
  have cap: "js_to_fixed_num (Num q) (min8 (Num (of_nat d))) = js_to_fixed (Num q) ?f"
    by (simp add: js_to_fixed_num_def min8_def min_def)
  have f: "0 < ?f" "?f \<le> 100" using d by simp_all
  obtain t ip fp where tf: "js_to_fixed (Num q) ?f = Inr ((if q < 0 then ''-'' else '''') @ t)"
      "t = ip @ ''.'' @ fp" "length fp = nat ?f"
      "parse_unsigned_decimal t = Some (of_int \<lfloor>\<bar>q\<bar> * 10 ^ nat ?f + 1/2\<rfloor> / 10 ^ nat ?f)"
      "\<bar>of_int \<lfloor>\<bar>q\<bar> * 10 ^ nat ?f + 1/2\<rfloor> / 10 ^ nat ?f - \<bar>q\<bar>\<bar> \<le> 1 / (2 * 10 ^ nat ?f)"
    using to_fixed_nearest [OF f big] by blast
  have "format_balance (Some v) (Num (of_nat d))
          = Inr (JObj [(''wei'', v), (''formatted'', JStr ((if q < 0 then ''-'' else '''') @ t))])"
    using v(1) div cap tf(1) by (cases v) (simp_all add: format_balance_def)
  then show ?thesis using tf(2-5) by auto
qed

theorem format_balance_digits_witness:
  "\<exists>t ip fp. format_balance (Some (JStr ''1500000000000000000'')) (Num (of_nat 18))
             = Inr (JObj [(''wei'', JStr ''1500000000000000000''), (''formatted'', JStr ((if (3/2::rat) < 0 then ''-'' else '''') @ t))])
           \<and> t = ip @ ''.'' @ fp \<and> length fp = min 18 8
           \<and> parse_unsigned_decimal t = Some (of_int \<lfloor>\<bar>3/2::rat\<bar> * 10 ^ min 18 8 + 1/2\<rfloor> / 10 ^ min 18 8)
           \<and> \<bar>of_int \<lfloor>\<bar>3/2::rat\<bar> * 10 ^ min 18 8 + 1/2\<rfloor> / 10 ^ min 18 8 - \<bar>3/2::rat\<bar>\<bar> \<le> 1 / (2 * 10 ^ min 18 8)"
proof (rule format_balance_digits)
  show "js_to_number (JStr ''1500000000000000000'') = Num 1500000000000000000" by (simp add: js_eval)
  show "round_to_double (1500000000000000000 / 10 ^ 18) = Num (3/2)"
    by (simp add: round_to_double_def rat_log2_def js_eval Let_def)
qed simp_all

text \<open>
  C31. \<open>formatTimestamp\<close> reads its value as seconds: for a truthy value that
  \<open>Number\<close> reads as a whole number t of seconds (up to 9 \<open>\<times>\<close> 10^12 in magnitude),
  the printed date is \<open>toISOString\<close> of the instant \<open>1000 t\<close> milliseconds after the
  epoch when it lies within the 8.64 \<open>\<times>\<close> 10^12 seconds a \<open>Date\<close> can hold, and the call
  throws a \<open>RangeError\<close> otherwise, which ends the run.
\<close>

theorem format_timestamp_iso:
  assumes v: "js_truthy (Some v)" "js_to_number v = Num (of_int t)" and b: "\<bar>t\<bar> \<le> 9000000000000"
  shows "format_timestamp (Some v)
           = (if \<bar>t\<bar> \<le> 8640000000000 then Inr (JObj [(''unix'', v), (''iso'', JStr (iso_string (1000 * t)))])
              else Inl (RangeError ''Invalid time value''))"
proof -
  have "\<bar>t * 1000\<bar> \<le> 2 ^ 53" using b by simp
  then have "js_mul (js_to_number v) (Num 1000) = Num (of_int (1000 * t))"
    using v(2) round_to_double_int [of "t * 1000"] by (simp add: mult.commute)
  moreover have "time_clip (Num (of_int (1000 * t)))
                   = (if \<bar>t\<bar> \<le> 8640000000000 then Some (1000 * t) else None)"
  proof -
    have "(\<bar>of_int (1000 * t)\<bar> \<le> (8640000000000000::rat)) = (\<bar>t\<bar> \<le> 8640000000000)"
      by (simp only: of_int_abs [symmetric]) linarith
    moreover have "\<lfloor>1000 * (of_int t :: rat)\<rfloor> = 1000 * t" "\<lceil>1000 * (of_int t :: rat)\<rceil> = 1000 * t"
      using floor_of_int [of "1000 * t"] ceiling_of_int [of "1000 * t"] by simp_all
    ultimately show ?thesis by (simp add: time_clip_def)
  qed
  ultimately show ?thesis using v(1) by (simp add: format_timestamp_def)
qed

theorem format_timestamp_iso_witness:
  "js_truthy (Some (JStr ''1700000000'')) \<and> js_to_number (JStr ''1700000000'') = Num (of_int 1700000000)
   \<and> format_timestamp (Some (JStr ''1700000000''))
       = Inr (JObj [(''unix'', JStr ''1700000000''), (''iso'', JStr (iso_string 1700000000000))])"
proof -
  have a: "js_truthy (Some (JStr ''1700000000''))" "js_to_number (JStr ''1700000000'') = Num (of_int 1700000000)"
    by (simp_all add: js_eval)
  show ?thesis using a format_timestamp_iso [OF a] by simp
qed

end
