(* ===== verification/Balance.thy ===== *)
theory Balance
  imports Tokenlist Formatters
begin

text \<open>
  The balance resolver, src/skills/superfluid/scripts/balance.mjs: it loads the same token
  list as tokenlist.mjs (its own constants name the same CDN URL and the same cache file,
  \<open>bal_tokens_source_shared\<close>), resolves the Super Token
  (\<open>resolveToken\<close>: address first, then symbol), queries the Super API
  (\<open>fetchBalance\<close>) and prints the balances through the formatters of theory
  \<open>Formatters\<close>.
\<close>

section \<open>Loading the token list\<close>

text \<open>
  \<open>CACHE_DIR\<close>, \<open>CACHE_FILE\<close> and \<open>CDN_URL\<close> of balance.mjs and its \<open>loadTokens\<close>:
  the JSON-mode loader of theory \<open>Fetch\<close> on this source, returning \<open>data.tokens\<close>.
\<close>

definition bal_cdn_url :: string where
  "bal_cdn_url =
     ''https://cdn.jsdelivr.net/npm/@superfluid-finance/tokenlist/dist/superfluid.extended.tokenlist.json''"

definition bal_cache_file :: path where
  "bal_cache_file = ''.cache/tokenlist.json''"

definition bal_tokens_source ::
  "(blob \<Rightarrow> json option) \<Rightarrow> (json \<Rightarrow> blob) \<Rightarrow> (json, token list option) json_source" where
  "bal_tokens_source parse print =
     \<lparr>src_url = bal_cdn_url, src_file = bal_cache_file, src_parse = parse, src_print = print,
      src_select = tokens_of\<rparr>"

section \<open>Resolving the token\<close>

text \<open>The two search callbacks of \<open>resolveToken\<close>.\<close>

definition addr_match :: "string \<Rightarrow> token \<Rightarrow> crash + bool" where
  "addr_match query t = js_and_e (tags_include t ''supertoken'') (member_is t ''address'' query)"

definition sym_match :: "string \<Rightarrow> token \<Rightarrow> crash + bool" where
  "sym_match query t = js_and_e (tags_include t ''supertoken'') (member_is t ''symbol'' query)"

definition resolve_token :: "token list \<Rightarrow> js_num \<Rightarrow> string \<Rightarrow> crash + token option" where
  "resolve_token tokens chainId symbolOrAddress =
     (let query = js_lower symbolOrAddress; chainTokens = chain_tokens chainId tokens in
      js_then (js_find (addr_match query) chainTokens) (\<lambda>byAddr.
        case byAddr of
          Some t \<Rightarrow> Inr (Some t)
        | None \<Rightarrow> js_find (sym_match query) chainTokens))"

section \<open>The Super API request\<close>

definition api_url :: string where
  "api_url = ''https://superapi.kazpi.com/super-token-balance''"

text \<open>
  \<open>URLSearchParams\<close> serialisation (application/x-www-form-urlencoded): ASCII letters,
  digits and \<open>*-._\<close> stay, a space becomes \<open>+\<close>, every other byte of the UTF-8 encoding
  becomes \<open>%XX\<close> with upper-case hexadecimal digits. A character of the model is a code
  point below 256, which UTF-8 encodes in one byte below 128 and in two bytes above.
\<close>

definition hex_digit :: "nat \<Rightarrow> char" where
  "hex_digit n = ''0123456789ABCDEF'' ! n"

definition pct_byte :: "nat \<Rightarrow> string" where
  "pct_byte b = [CHR ''%'', hex_digit (b div 16), hex_digit (b mod 16)]"

definition form_char :: "char \<Rightarrow> string" where
  "form_char c =
     (let n = of_char c :: nat in
      if (48 \<le> n \<and> n \<le> 57) \<or> (65 \<le> n \<and> n \<le> 90) \<or> (97 \<le> n \<and> n \<le> 122) \<or> n \<in> {42, 45, 46, 95}
      then [c]
      else if n = 32 then ''+''
      else if n < 128 then pct_byte n
      else pct_byte (192 + n div 64) @ pct_byte (128 + n mod 64))"

definition form_encode :: "string \<Rightarrow> string" where
  "form_encode s = concat (map form_char s)"

text \<open>\<open>`${API_URL}?${new URLSearchParams({ chain: String(chain), token, account })}`\<close>\<close>

definition balance_url :: "js_num \<Rightarrow> string \<Rightarrow> string \<Rightarrow> string" where
  "balance_url chain token account =
     api_url @ ''?chain='' @ form_encode (js_number_to_string chain) @ ''&token='' @ form_encode token
     @ ''&account='' @ form_encode account"

datatype bal_error =
    BalFetchFailed fetch_failure
  | BalUsage string
  | BalChainIdNotNumber
  | NoSuperTokenMatching js_num string
  | ApiHttpError nat string string

text \<open>
  \<open>fetchBalance\<close>: a rejected \<open>fetch\<close> and an unparsable body are uncaught
  rejections; a status outside 200--299 is the diagnostic with the status, the body and
  the URL. \<open>Inl\<close> is the end of the run, \<open>Inr\<close> the parsed response.
\<close>

definition fetch_balance ::
  "(blob \<Rightarrow> json option) \<Rightarrow> world \<Rightarrow> js_num \<Rightarrow> string \<Rightarrow> string \<Rightarrow> bal_error outcome + json" where
  "fetch_balance parse w chain token account =
     (let url = balance_url chain token account in
      case net w url of
        Rejected msg \<Rightarrow> Inl (Crashed (TypeError ''fetch failed''))
      | Response st body \<Rightarrow>
          if \<not> res_ok st then Inl (Failed (ApiHttpError st body url))
          else (case parse body of
                  None \<Rightarrow> Inl (Crashed (SyntaxError ''Unexpected token in JSON''))
                | Some data \<Rightarrow> Inr data))"

section \<open>The balance document\<close>

text \<open>
  A property read \<open>v.k\<close> or \<open>v?.k\<close> on a value from the API: the member of an object,
  \<open>undefined\<close> on anything else that is not nullish; \<open>None\<close> when \<open>v\<close> is
  \<open>null\<close> or \<open>undefined\<close>, where \<open>?.\<close> yields \<open>undefined\<close> and \<open>.\<close> throws.
\<close>

definition js_member :: "json option \<Rightarrow> string \<Rightarrow> json option option" where
  "js_member v k =
     (case v of
        None \<Rightarrow> None
      | Some JNull \<Rightarrow> None
      | Some (JObj ms) \<Rightarrow> Some (jmember ms k)
      | Some _ \<Rightarrow> Some None)"

definition opt_member :: "json option \<Rightarrow> string \<Rightarrow> json option" where
  "opt_member v k = (case js_member v k of None \<Rightarrow> None | Some r \<Rightarrow> r)"

definition read_member :: "json option \<Rightarrow> string \<Rightarrow> crash + json option" where
  "read_member v k =
     (case js_member v k of
        Some r \<Rightarrow> Inr r
      | None \<Rightarrow> Inl (TypeError (''Cannot read properties of '' @ (if v = None then ''undefined'' else ''null'')
                               @ '' (reading '' @ [CHR 0x27] @ k @ [CHR 0x27] @ '')'')))"

text \<open>\<open>a ?? b\<close>: the default for \<open>null\<close> and \<open>undefined\<close>.\<close>

definition js_nullish_or :: "json option \<Rightarrow> json \<Rightarrow> json" where
  "js_nullish_or v d = (case v of None \<Rightarrow> d | Some JNull \<Rightarrow> d | Some x \<Rightarrow> x)"

text \<open>The \<open>superToken\<close> object: the address the API reports, then the metadata of the token.\<close>

definition super_token_json :: "json option \<Rightarrow> token option \<Rightarrow> json" where
  "super_token_json address tokenMeta =
     jobj ([(''address'', address)]
           @ (case tokenMeta of
                Some t \<Rightarrow> [(''symbol'', jmember t ''symbol''), (''name'', jmember t ''name''),
                           (''decimals'', jmember t ''decimals'')]
              | None \<Rightarrow> [])
           @ (case tokenMeta of
                Some t \<Rightarrow> if js_truthy (super_token_info t)
                          then [(''type'', opt_member (super_token_info t) ''type'')] else []
              | None \<Rightarrow> []))"

text \<open>
  The \<open>result\<close> object of the \<open>balance\<close> command, lines 118 to 141: the first read of
  \<open>data.underlyingToken\<close> throws when the response is \<open>null\<close>; after it every member
  read is safe, and the formatters run in the order of the object literal.
\<close>

definition balance_json :: "json \<Rightarrow> token option \<Rightarrow> crash + json" where
  "balance_json data tokenMeta =
     (let d = Some data;
          superTokenDecimals = js_to_number (js_nullish_or (case tokenMeta of Some t \<Rightarrow> jmember t ''decimals'' | None \<Rightarrow> None) (JNum 18))
      in js_then (read_member d ''underlyingToken'') (\<lambda>ut.
         let underlyingDecimals = js_nullish_or (opt_member ut ''decimals'') JNull in
         js_then (format_balance (opt_member d ''connectedBalance'') superTokenDecimals) (\<lambda>connected.
         js_then (format_balance (opt_member d ''unconnectedBalance'') superTokenDecimals) (\<lambda>unconnected.
         js_then (format_flow_rate (opt_member d ''connectedNetFlow'') superTokenDecimals) (\<lambda>netFlow.
         js_then (format_timestamp (opt_member d ''timestamp'')) (\<lambda>timestamp.
         js_then (format_timestamp (opt_member d ''maybeCriticalAt'')) (\<lambda>critical.
         js_then (if js_truthy ut then
                    js_then (format_balance (opt_member ut ''balance'')
                               (js_to_number (js_nullish_or (Some underlyingDecimals) (JNum 18)))) (\<lambda>ub.
                    Inr (jobj ([(''address'', opt_member ut ''address'')]
                               @ (if underlyingDecimals \<noteq> JNull then [(''decimals'', Some underlyingDecimals)] else [])
                               @ [(''balance'', Some ub)])))
                  else Inr JNull) (\<lambda>underlying.
         Inr (jobj [(''chain'', opt_member d ''chain''), (''account'', opt_member d ''account''),
                    (''superToken'', Some (super_token_json (opt_member d ''token'') tokenMeta)),
                    (''balance'', Some (JObj [(''connected'', connected), (''unconnected'', unconnected)])),
                    (''netFlow'', Some netFlow), (''timestamp'', Some timestamp),
                    (''maybeCriticalAt'', Some critical), (''underlyingToken'', Some underlying)])))))))))"

section \<open>The command\<close>

text \<open>
  The \<open>balance\<close> case of the \<open>switch\<close>, lines 91 to 144. The token list is only
  touched by \<open>resolveToken\<close>, which runs on both branches of the \<open>0x\<close> test, so a list that
  is not an array of objects throws there, after the argument checks.
\<close>

definition balance_cmd ::
  "(blob \<Rightarrow> json option) \<Rightarrow> token list option \<Rightarrow> string list \<Rightarrow> world \<Rightarrow> bal_error outcome" where
  "balance_cmd parse tokens args w =
     (let a0 = js_arg args 0; a1 = js_arg args 1; a2 = js_arg args 2 in
      if a0 = [] \<or> a1 = [] \<or> a2 = [] then
        Failed (BalUsage ''Usage: balance.mjs balance <chain-id> <token-symbol-or-address> <account>'')
      else
        let chainId = string_to_number a0 in
        if js_is_nan chainId then Failed BalChainIdNotNumber
        else
          let resolved = (case tokens of
                            Some ts \<Rightarrow> resolve_token ts chainId a1
                          | None \<Rightarrow> Inl (TypeError ''tokens is not an array of token objects''));
              meta = (if \<not> js_starts_with ''0x'' a1 then
                        (case resolved of
                           Inl e \<Rightarrow> Inl (Crashed e)
                         | Inr None \<Rightarrow> Inl (Failed (NoSuperTokenMatching chainId a1))
                         | Inr (Some t) \<Rightarrow> Inr (str_of (jmember t ''address''), Some t))
                      else (case resolved of Inl e \<Rightarrow> Inl (Crashed e) | Inr m \<Rightarrow> Inr (a1, m)))
          in case meta of
               Inl r \<Rightarrow> r
             | Inr (tokenAddress, tokenMeta) \<Rightarrow>
                 (case fetch_balance parse w chainId tokenAddress a2 of
                    Inl r \<Rightarrow> r
                  | Inr data \<Rightarrow> js_run (js_then (balance_json data tokenMeta) (\<lambda>j. Inr (Printed j)))))"

definition bal_command ::
  "(blob \<Rightarrow> json option) \<Rightarrow> token list option \<Rightarrow> string list \<Rightarrow> world \<Rightarrow> bal_error outcome" where
  "bal_command parse tokens argv w =
     (case argv of
        [] \<Rightarrow> Usage 0
      | command # args \<Rightarrow>
          if command = ''balance'' then balance_cmd parse tokens args w
          else Usage (if command = [] then 0 else 1))"

text \<open>\<open>const tokens = await loadTokens();\<close> runs before the \<open>switch\<close>.\<close>

definition bal_main ::
  "(blob \<Rightarrow> json option) \<Rightarrow> (json \<Rightarrow> blob) \<Rightarrow> string list \<Rightarrow> world \<Rightarrow> cache
     \<Rightarrow> bal_error outcome \<times> cache" where
  "bal_main parse print argv w c =
     (case load_json (bal_tokens_source parse print) w c of
        (Inl f, c') \<Rightarrow> (Failed (BalFetchFailed f), c')
      | (Inr tokens, c') \<Rightarrow> (bal_command parse tokens argv w, c'))"

section \<open>Reading the request back\<close>

text \<open>
  The server's side of the query string, to state what the request carries: the query is
  the part after the first \<open>?\<close>, its fields are separated by \<open>&\<close>, a field is a name and a
  value separated by its first \<open>=\<close>, and both are form-decoded (\<open>+\<close> is a space,
  \<open>%XX\<close> a byte, and the bytes are read as UTF-8 of code points below 256).
\<close>

definition hex_val :: "char \<Rightarrow> nat" where
  "hex_val c = (let n = of_char c in if n \<le> 57 then n - 48 else n - 55)"

fun pct_decode :: "string \<Rightarrow> nat list" where
  "pct_decode [] = []"
| "pct_decode (c # r) =
     (if c = CHR ''%'' \<and> 2 \<le> length r then (hex_val (r ! 0) * 16 + hex_val (r ! 1)) # pct_decode (drop 2 r)
      else if c = CHR ''+'' then 32 # pct_decode r
      else of_char c # pct_decode r)"

fun utf8_decode :: "nat list \<Rightarrow> string" where
  "utf8_decode [] = []"
| "utf8_decode [b] = [char_of b]"
| "utf8_decode (b # b2 # r) =
     (if 192 \<le> b then char_of ((b - 192) * 64 + (b2 - 128)) # utf8_decode r
      else char_of b # utf8_decode (b2 # r))"

definition form_decode :: "string \<Rightarrow> string" where
  "form_decode s = utf8_decode (pct_decode s)"

fun split_amp :: "string \<Rightarrow> string list" where
  "split_amp [] = [[]]"
| "split_amp (c # r) =
     (if c = CHR ''&'' then [] # split_amp r
      else (case split_amp r of x # xs \<Rightarrow> (c # x) # xs | [] \<Rightarrow> [[c]]))"

definition query_params :: "string \<Rightarrow> (string \<times> string) list" where
  "query_params q =
     map (\<lambda>p. (form_decode (takeWhile (\<lambda>x. x \<noteq> CHR ''='') p),
               form_decode (drop 1 (dropWhile (\<lambda>x. x \<noteq> CHR ''='') p)))) (split_amp q)"

definition query_of :: "string \<Rightarrow> string" where
  "query_of url = drop 1 (dropWhile (\<lambda>x. x \<noteq> CHR ''?'') url)"

definition utf8_bytes :: "char \<Rightarrow> nat list" where
  "utf8_bytes c = (let n = of_char c :: nat in if n < 128 then [n] else [192 + n div 64, 128 + n mod 64])"


text \<open>An example: the Super API is down.\<close>

definition demo_api_down :: world where
  "demo_api_down = \<lparr>net = (\<lambda>_. Response 503 ''unavailable''), disk = WriteOk\<rparr>"


section \<open>Lemmas: resolving the token\<close>

lemma bal_tokens_source_shared: "bal_tokens_source parse print = tokens_source parse print"
  by (simp add: bal_tokens_source_def tokens_source_def bal_cdn_url_def tokens_url_def
      bal_cache_file_def tokens_file_def)

lemma addr_match_wf:
  "token_wf t \<Longrightarrow> addr_match q t = Inr (tag_in t ''supertoken'' \<and> token_address t = q)"
  by (simp add: token_wf_def addr_match_def tags_include_ok member_is_str js_and_e_def token_address_def)

lemma sym_match_wf:
  "token_wf t \<Longrightarrow> sym_match q t = Inr (tag_in t ''supertoken'' \<and> token_symbol t = q)"
  by (simp add: token_wf_def sym_match_def tags_include_ok member_is_str js_and_e_def token_symbol_def)

lemma resolve_token_wf:
  assumes "list_all token_wf ts"
  shows "resolve_token ts c q =
           Inr (case find (\<lambda>t. tag_in t ''supertoken'' \<and> token_address t = js_lower q) (chain_tokens c ts) of
                  Some t \<Rightarrow> Some t
                | None \<Rightarrow> find (\<lambda>t. tag_in t ''supertoken'' \<and> token_symbol t = js_lower q) (chain_tokens c ts))"
proof -
  have "list_all token_wf (chain_tokens c ts)" using assms by (rule wf_chain_tokens)
  then have "js_find (addr_match (js_lower q)) (chain_tokens c ts)
               = Inr (find (\<lambda>t. tag_in t ''supertoken'' \<and> token_address t = js_lower q) (chain_tokens c ts))"
    and "js_find (sym_match (js_lower q)) (chain_tokens c ts)
               = Inr (find (\<lambda>t. tag_in t ''supertoken'' \<and> token_symbol t = js_lower q) (chain_tokens c ts))"
    by (auto simp: list_all_iff addr_match_wf sym_match_wf intro!: js_find_pure)
  then show ?thesis by (simp add: resolve_token_def split: option.split)
qed

text \<open>C32. On a well-formed token list \<open>resolveToken\<close> never throws; what it returns is a
  Super Token of the requested chain whose address or symbol is the query (ignoring case),
  and it returns \<open>null\<close> only when the chain has no such token.\<close>

theorem resolve_token_found:
  assumes wf: "list_all token_wf ts"
  shows "\<exists>r. resolve_token ts c q = Inr r
           \<and> (\<forall>t. r = Some t \<longrightarrow> t \<in> set (chain_tokens c ts) \<and> tag_in t ''supertoken''
                                \<and> (token_address t = js_lower q \<or> token_symbol t = js_lower q))
           \<and> (r = None \<longleftrightarrow> (\<forall>t \<in> set (chain_tokens c ts). \<not> (tag_in t ''supertoken''
                                \<and> (token_address t = js_lower q \<or> token_symbol t = js_lower q))))"
  using resolve_token_wf [OF wf, of c q]
  by (auto simp: find_None_iff dest!: find_SomeD split: option.split)

theorem resolve_token_found_witness:
  "list_all token_wf demo_tokens \<and> resolve_token demo_tokens (Num 10) ''USDCx'' \<noteq> Inr None"
proof -
  obtain r where r: "resolve_token demo_tokens (Num 10) ''USDCx'' = Inr r"
    and none: "r = None \<longleftrightarrow> (\<forall>t \<in> set (chain_tokens (Num 10) demo_tokens). \<not> (tag_in t ''supertoken''
                                \<and> (token_address t = js_lower ''USDCx'' \<or> token_symbol t = js_lower ''USDCx'')))"
    using resolve_token_found [OF demo_tokens_wf, of "Num 10" "''USDCx''"] by blast
  have "demo_usdcx \<in> set (chain_tokens (Num 10) demo_tokens)"
    "tag_in demo_usdcx ''supertoken''" "token_symbol demo_usdcx = js_lower ''USDCx''"
    by (simp_all add: demo_tokens_eval chain_tokens_def on_chain_def tag_in_def token_symbol_def
        str_of_def js_eval)
  then have "r \<noteq> None" using none by blast
  then show ?thesis using r demo_tokens_wf by simp
qed

text \<open>C33. \<open>resolveToken\<close> searches the addresses first: when a Super Token of the chain
  has the query as its address, the result is the first such token, whatever tokens
  match the query by symbol.\<close>

theorem resolve_token_address_first:
  assumes wf: "list_all token_wf ts"
    and t: "t \<in> set (chain_tokens c ts)" "tag_in t ''supertoken''" "token_address t = js_lower q"
  shows "resolve_token ts c q
           = Inr (find (\<lambda>t. tag_in t ''supertoken'' \<and> token_address t = js_lower q) (chain_tokens c ts))"
proof -
  have "find (\<lambda>t. tag_in t ''supertoken'' \<and> token_address t = js_lower q) (chain_tokens c ts) \<noteq> None"
    using t by (auto simp: find_None_iff)
  then show ?thesis using resolve_token_wf [OF wf, of c q] by (auto split: option.split)
qed

theorem resolve_token_address_first_witness:
  "list_all token_wf demo_tokens
   \<and> resolve_token demo_tokens (Num 10) ''0x8430'' = Inr (Some demo_usdcx)"
proof -
  have "resolve_token demo_tokens (Num 10) ''0x8430''
          = Inr (find (\<lambda>t. tag_in t ''supertoken'' \<and> token_address t = js_lower ''0x8430'')
                  (chain_tokens (Num 10) demo_tokens))"
    by (rule resolve_token_address_first [OF demo_tokens_wf, of demo_usdcx])
       (simp_all add: demo_tokens_eval chain_tokens_def on_chain_def tag_in_def token_address_def
        str_of_def js_eval)
  also have "\<dots> = Inr (Some demo_usdcx)"
    by (simp add: demo_tokens_eval chain_tokens_def on_chain_def tag_in_def token_address_def
        str_of_def js_eval)
  finally show ?thesis using demo_tokens_wf by simp
qed

section \<open>Lemmas: the form encoding and the request URL\<close>

lemma hex_digit_val: "k < 16 \<Longrightarrow> hex_val (hex_digit k) = k"
  by (simp add: hex_digit_def numeral_eq_Suc less_Suc_eq) (elim disjE; simp add: hex_val_def)

lemma hex_digit_set: "k < 16 \<Longrightarrow> hex_digit k \<in> set ''0123456789ABCDEF''"
  by (simp add: hex_digit_def del: set_simps)

lemma pct_decode_pct_byte:
  "b < 256 \<Longrightarrow> pct_decode (pct_byte b @ r) = b # pct_decode r"
proof -
  assume "b < 256"
  then have "b div 16 < 16" "b mod 16 < 16" by simp_all
  then show ?thesis by (simp add: pct_byte_def hex_digit_val)
qed

lemma pct_decode_form_char: "pct_decode (form_char c @ r) = utf8_bytes c @ pct_decode r"
proof -
  have b: "of_char c < (256::nat)" by simp
  then have "192 + of_char c div 64 < (256::nat)" "128 + of_char c mod 64 < (256::nat)" by linarith simp
  then show ?thesis
    using b unfolding form_char_def utf8_bytes_def Let_def
    by (auto simp: pct_decode_pct_byte)
qed


lemma pct_decode_form_encode: "pct_decode (form_encode s @ r) = concat (map utf8_bytes s) @ pct_decode r"
  by (induction s) (simp_all add: form_encode_def pct_decode_form_char)

lemma utf8_decode_bytes: "utf8_decode (utf8_bytes c @ r) = c # utf8_decode r"
proof -
  have b: "of_char c < (256::nat)" by simp
  show ?thesis
  proof (cases "of_char c < (128::nat)")
    case True
    then show ?thesis by (cases r) (simp_all add: utf8_bytes_def)
  next
    case False
    have "(of_char c div 64) * 64 + of_char c mod 64 = (of_char c :: nat)" by simp
    then show ?thesis using False by (simp add: utf8_bytes_def Let_def)
  qed
qed

lemma form_decode_encode [simp]: "form_decode (form_encode s) = s"
proof -
  have "utf8_decode (concat (map utf8_bytes s)) = s"
    by (induction s) (simp_all add: utf8_decode_bytes)
  then show ?thesis using pct_decode_form_encode [of s "[]"] by (simp add: form_decode_def)
qed

lemma pct_byte_safe:
  assumes "b < 256"
  shows "CHR ''&'' \<notin> set (pct_byte b) \<and> CHR ''='' \<notin> set (pct_byte b)"
proof -
  have n: "CHR ''&'' \<notin> set ''0123456789ABCDEF''" "CHR ''='' \<notin> set ''0123456789ABCDEF''" by simp_all
  have "CHR ''&'' \<noteq> hex_digit k \<and> CHR ''='' \<noteq> hex_digit k" if "k < 16" for k
    using hex_digit_set [OF that] n by metis
  note h = this
  have "b div 16 < 16" using assms by simp
  then show ?thesis using h [of "b div 16"] h [of "b mod 16"] by (simp add: pct_byte_def)
qed

lemma form_char_safe: "CHR ''&'' \<notin> set (form_char c) \<and> CHR ''='' \<notin> set (form_char c)"
proof -
  have b: "of_char c < (256::nat)" by simp
  then have "192 + of_char c div 64 < (256::nat)" "128 + of_char c mod 64 < (256::nat)" by linarith simp
  moreover have e: "of_char (CHR ''&'') = (38::nat)" "of_char (CHR ''='') = (61::nat)" by simp_all
  then have "CHR ''&'' = c \<longleftrightarrow> of_char c = (38::nat)" "CHR ''='' = c \<longleftrightarrow> of_char c = (61::nat)"
    by (metis of_char_eq_iff)+
  ultimately show ?thesis
    using b pct_byte_safe unfolding form_char_def Let_def by (simp split: if_split)
qed

lemma form_encode_safe: "CHR ''&'' \<notin> set (form_encode s) \<and> CHR ''='' \<notin> set (form_encode s)"
  using form_char_safe by (auto simp: form_encode_def)

lemma split_amp_ne: "split_amp s \<noteq> []"
  by (induction s) (auto split: list.split)

lemma split_amp_append:
  "CHR ''&'' \<notin> set x \<Longrightarrow> split_amp (x @ r) = (x @ hd (split_amp r)) # tl (split_amp r)"
  by (induction x) (auto split: list.split simp: split_amp_ne)

lemma split_amp_fields:
  assumes "CHR ''&'' \<notin> set x"
  shows "split_amp (x @ CHR ''&'' # r) = x # split_amp r" and "split_amp x = [x]"
  using split_amp_append [OF assms, of "CHR ''&'' # r"] split_amp_append [OF assms, of "[]"] by simp_all

lemma form_encode_keys: "form_encode ''chain'' = ''chain''" "form_encode ''token'' = ''token''"
  "form_encode ''account'' = ''account''"
  by (simp_all add: form_encode_def form_char_def)

text \<open>C34. The request URL carries exactly the three parameters \<open>chain\<close>, \<open>token\<close> and
  \<open>account\<close>: reading its query string back gives the chain id as \<open>String(chain)\<close> prints
  it and the token and the account exactly as given, whatever characters they contain
  (an \<open>&\<close>, \<open>=\<close> or \<open>+\<close> in an argument cannot add or change a parameter).\<close>

theorem balance_url_params:
  "query_params (query_of (balance_url chain token account))
     = [(''chain'', js_number_to_string chain), (''token'', token), (''account'', account)]"
proof -
  let ?e1 = "form_encode (js_number_to_string chain)" and ?e2 = "form_encode token"
    and ?e3 = "form_encode account"
  have q: "query_of (balance_url chain token account)
             = (''chain='' @ ?e1) @ CHR ''&'' # (''token='' @ ?e2) @ CHR ''&'' # ''account='' @ ?e3"
    by (simp add: query_of_def balance_url_def api_url_def)
  have s: "split_amp (query_of (balance_url chain token account))
             = [''chain='' @ ?e1, ''token='' @ ?e2, ''account='' @ ?e3]"
  proof -
    have a: "CHR ''&'' \<notin> set (''chain='' @ ?e1)" "CHR ''&'' \<notin> set (''token='' @ ?e2)"
      "CHR ''&'' \<notin> set (''account='' @ ?e3)"
      using form_encode_safe by simp_all
    show ?thesis unfolding q by (simp only: split_amp_fields(1) [OF a(1)] split_amp_fields(1) [OF a(2)] split_amp_fields(2) [OF a(3)])
  qed
  have d: "form_decode k = k" if "form_encode k = k" for k
    using form_decode_encode [of k] that by simp
  show ?thesis
    using form_encode_keys [THEN d]
    by (simp add: query_params_def s)
qed

section \<open>Lemmas: the balance command\<close>

lemma balance_url_demo:
  "balance_url (Num 10) ''0x8430'' ''0xabc''
     = ''https://superapi.kazpi.com/super-token-balance?chain=10&token=0x8430&account=0xabc''"
  by (simp add: balance_url_def api_url_def form_encode_def form_char_def fmt_eval js_eval
      split del: if_split)

text \<open>C35. With an address argument (\<open>0x...\<close>) the request carries the address as typed,
  and a non-2xx answer of the Super API ends the run with its status, its body and the URL.\<close>

theorem balance_hex_http_error:
  assumes args: "a0 \<noteq> []" "a2 \<noteq> []" "js_starts_with ''0x'' a1" "\<not> js_is_nan (string_to_number a0)"
    and wf: "list_all token_wf ts"
    and http: "net w (balance_url (string_to_number a0) a1 a2) = Response st body" "\<not> res_ok st"
  shows "balance_cmd parse (Some ts) (a0 # a1 # a2 # rest) w
           = Failed (ApiHttpError st body (balance_url (string_to_number a0) a1 a2))"
proof -
  have "a1 \<noteq> []" using args(3) by (auto simp: js_starts_with_def)
  then show ?thesis
    using args http resolve_token_wf [OF wf]
    by (simp add: balance_cmd_def fetch_balance_def Let_def js_arg_def)
qed

theorem balance_hex_http_error_witness:
  "balance_cmd (\<lambda>_. None) (Some demo_tokens) [''10'', ''0x8430'', ''0xabc''] demo_api_down
     = Failed (ApiHttpError 503 ''unavailable''
                ''https://superapi.kazpi.com/super-token-balance?chain=10&token=0x8430&account=0xabc'')"
proof -
  have "balance_cmd (\<lambda>_. None) (Some demo_tokens) [''10'', ''0x8430'', ''0xabc''] demo_api_down
          = Failed (ApiHttpError 503 ''unavailable'' (balance_url (string_to_number ''10'') ''0x8430'' ''0xabc''))"
    by (rule balance_hex_http_error [OF _ _ _ _ demo_tokens_wf])
       (simp_all add: js_starts_with_def demo_api_down_def res_ok_def js_eval)
  then show ?thesis by (simp add: balance_url_demo js_eval)
qed

text \<open>C36. A symbol that names no Super Token of the chain ends the run with the
  \<open>No Super Token found\<close> diagnostic before any request to the Super API: the result is
  the same whatever the network does.\<close>

theorem balance_not_found:
  assumes args: "a0 \<noteq> []" "a1 \<noteq> []" "a2 \<noteq> []" "\<not> js_is_nan (string_to_number a0)"
      "\<not> js_starts_with ''0x'' a1"
    and wf: "list_all token_wf ts"
    and none: "\<forall>t \<in> set (chain_tokens (string_to_number a0) ts). \<not> (tag_in t ''supertoken''
                 \<and> (token_address t = js_lower a1 \<or> token_symbol t = js_lower a1))"
  shows "balance_cmd parse (Some ts) (a0 # a1 # a2 # rest) w
           = Failed (NoSuperTokenMatching (string_to_number a0) a1)"
proof -
  have "find (\<lambda>t. tag_in t ''supertoken'' \<and> token_address t = js_lower a1) (chain_tokens (string_to_number a0) ts) = None"
    "find (\<lambda>t. tag_in t ''supertoken'' \<and> token_symbol t = js_lower a1) (chain_tokens (string_to_number a0) ts) = None"
    using none by (auto simp: find_None_iff)
  then show ?thesis
    using args resolve_token_wf [OF wf, of "string_to_number a0" a1]
    by (simp add: balance_cmd_def Let_def js_arg_def)
qed

theorem balance_not_found_witness:
  "balance_cmd (\<lambda>_. None) (Some demo_tokens) [''10'', ''WETHx'', ''0xabc''] demo_api_down
     = Failed (NoSuperTokenMatching (Num 10) ''WETHx'')"
proof -
  have "balance_cmd (\<lambda>_. None) (Some demo_tokens) [''10'', ''WETHx'', ''0xabc''] demo_api_down
          = Failed (NoSuperTokenMatching (string_to_number ''10'') ''WETHx'')"
    by (rule balance_not_found [OF _ _ _ _ _ demo_tokens_wf])
       (simp_all add: js_starts_with_def demo_tokens_eval chain_tokens_def on_chain_def tag_in_def
        token_address_def token_symbol_def str_of_def js_eval)
  then show ?thesis by (simp add: js_eval)
qed

end
