(* ===== verification/DoubleDigits.thy ===== *)
theory DoubleDigits
  imports Formatters
begin

text \<open>
  The digit search of \<open>Number::toString\<close> (theory \<open>Formatters\<close>, \<open>shortest_digits\<close>):
  the standard asks for the smallest \<open>k\<close> whose \<open>k\<close>-digit decimal rounds back to the
  double, and the model searches \<open>k = 1, ..., 17\<close> with a fallback of 17. This theory
  proves that seventeen digits always round-trip, so the search always ends with the least
  such \<open>k\<close> and the fallback is never taken. The argument is the one behind the
  17-digit bound of IEEE 754: a 17-digit candidate is within \<open>x / (2 * 10^16)\<close> of
  \<open>x\<close>, which is less than half the gap between \<open>x\<close> and its neighbouring doubles
  (\<open>round_to_double_stable\<close>).
\<close>

section \<open>Integer logarithms of rationals\<close>

lemma nat_log_floor:
  fixes L :: "nat \<Rightarrow> nat" and a :: rat
  assumes L: "\<And>n. 0 < n \<Longrightarrow> b ^ L n \<le> n \<and> n < b ^ Suc (L n)" and a: "1 \<le> a"
  shows "of_nat b ^ L (nat \<lfloor>a\<rfloor>) \<le> a \<and> a < of_nat b ^ Suc (L (nat \<lfloor>a\<rfloor>))"
proof -
  define m where "m = nat \<lfloor>a\<rfloor>"
  have m: "0 < m" "of_nat m \<le> a" "a < of_nat m + 1" using a
    by (auto simp: m_def le_nat_iff) linarith+
  have "b ^ L m \<le> m" "m + 1 \<le> b ^ Suc (L m)" using L [OF m(1)] by auto
  then have "of_nat (b ^ L m) \<le> (of_nat m :: rat)" "of_nat m + 1 \<le> (of_nat (b ^ Suc (L m)) :: rat)"
    by (simp_all only: of_nat_le_iff flip: of_nat_Suc)
  then show ?thesis using m by (simp add: m_def flip: of_nat_power) linarith
qed

lemma nat_log_ceiling_inverse:
  fixes L :: "nat \<Rightarrow> nat" and a :: rat
  assumes L: "\<And>n. 0 < n \<Longrightarrow> b ^ L n \<le> n \<and> n < b ^ Suc (L n)" and b: "2 \<le> b"
    and a: "0 < a" "a < 1"
  defines "m \<equiv> nat \<lceil>inverse a\<rceil>"
  shows "2 \<le> m \<and> inverse (of_nat b ^ Suc (L (m - 1))) \<le> a \<and> a < inverse (of_nat b ^ L (m - 1))"
proof -
  have y: "1 < inverse a" using a by (simp add: one_less_inverse_iff)
  have m: "2 \<le> m" "inverse a \<le> of_nat m" "of_nat m - 1 < inverse a"
    using y unfolding m_def by linarith+
  define c where "c = L (m - 1)"
  have c: "b ^ c \<le> m - 1" "m \<le> b ^ Suc c" using L [of "m - 1"] m(1) by (auto simp: c_def)
  have c1: "of_nat (b ^ c) < inverse a"
  proof -
    have "of_nat (b ^ c) \<le> (of_nat (m - 1) :: rat)" using c(1) by (simp only: of_nat_le_iff)
    then show ?thesis using m(1,3) by (simp add: of_nat_diff)
  qed
  have c2: "inverse a \<le> of_nat (b ^ Suc c)"
    using c(2) m(2) by (metis of_nat_le_iff order.trans)
  have "inverse (of_nat (b ^ Suc c)) \<le> a"
    using a c2 by (metis inverse_inverse_eq inverse_le_imp_le positive_imp_inverse_positive)
  moreover have "a < inverse (of_nat (b ^ c))"
    using a c1 b by (metis inverse_inverse_eq less_imp_inverse_less of_nat_0_less_iff pos2 less_le_trans
        zero_less_power)
  ultimately show ?thesis using m(1) by (simp add: c_def)
qed

lemma rat_log_bounds:
  fixes b :: nat and L :: "nat \<Rightarrow> nat" and a :: rat
  assumes b: "2 \<le> b" and L: "\<And>n. 0 < n \<Longrightarrow> b ^ L n \<le> n \<and> n < b ^ Suc (L n)" and a: "0 < a"
  defines "k \<equiv> (if 1 \<le> a then int (L (nat \<lfloor>a\<rfloor>))
                else - int (if nat \<lceil>inverse a\<rceil> \<le> 1 then 0 else Suc (L (nat \<lceil>inverse a\<rceil> - 1))))"
  shows "of_nat b powi k \<le> a \<and> a < of_nat b powi (k + 1)"
proof (cases "1 \<le> a")
  case True
  define l where "l = L (nat \<lfloor>a\<rfloor>)"
  have "k = int l" "k + 1 = int (Suc l)" using True by (simp_all add: k_def l_def)
  then have "(of_nat b :: rat) powi k = of_nat b ^ l" "(of_nat b :: rat) powi (k + 1) = of_nat b ^ Suc l"
    by (simp_all only: power_int_of_nat)
  then show ?thesis using nat_log_floor [OF L True] by (simp only: l_def)
next
  case False
  define c where "c = L (nat \<lceil>inverse a\<rceil> - 1)"
  have i: "2 \<le> nat \<lceil>inverse a\<rceil> \<and> inverse (of_nat b ^ Suc c) \<le> a \<and> a < inverse (of_nat b ^ c)"
    using nat_log_ceiling_inverse [OF L b a] False by (simp add: c_def)
  then have "k = - int (Suc c)" "k + 1 = - int c" using False by (simp_all add: k_def c_def)
  then have "(of_nat b :: rat) powi k = inverse (of_nat b ^ Suc c)"
    "(of_nat b :: rat) powi (k + 1) = inverse (of_nat b ^ c)"
    by (simp_all only: power_int_minus power_int_of_nat)
  then show ?thesis using i by simp
qed

lemma nat_log10_bounds: "0 < n \<Longrightarrow> 10 ^ nat_log10 n \<le> n \<and> n < 10 ^ Suc (nat_log10 n)"
proof (induction n rule: nat_log10.induct)
  case (1 n)
  show ?case
  proof (cases "n < 10")
    case True
    with "1.prems" show ?thesis by (simp add: nat_log10_small)
  next
    case False
    then have "0 < n div 10" by simp
    with "1.IH" False have "10 ^ nat_log10 (n div 10) \<le> n div 10 \<and> n div 10 < 10 ^ Suc (nat_log10 (n div 10))"
      by simp
    then show ?thesis using False by (simp add: nat_log10_big) linarith
  qed
qed

lemma rat_log2_bounds: "0 < a \<Longrightarrow> 2 powi rat_log2 a \<le> a \<and> a < 2 powi (rat_log2 a + 1)"
proof -
  assume a: "0 < a"
  have "of_nat 2 powi rat_log2 a \<le> a \<and> a < of_nat 2 powi (rat_log2 a + 1)"
    unfolding rat_log2_def nat_clog2_def by (rule rat_log_bounds) (use nat_log2_bounds a in auto)
  then show ?thesis by simp
qed

lemma rat_log10_bounds: "0 < a \<Longrightarrow> 10 powi rat_log10 a \<le> a \<and> a < 10 powi (rat_log10 a + 1)"
proof -
  assume a: "0 < a"
  have "of_nat 10 powi rat_log10 a \<le> a \<and> a < of_nat 10 powi (rat_log10 a + 1)"
    unfolding rat_log10_def nat_clog10_def by (rule rat_log_bounds) (use nat_log10_bounds a in auto)
  then show ?thesis by simp
qed

lemma round_half_even_close: "\<bar>x - of_int (round_half_even x)\<bar> \<le> 1/2"
  unfolding round_half_even_def Let_def by (auto simp: abs_if) linarith+

lemma round_half_even_near: "\<bar>x - of_int n\<bar> < 1/2 \<Longrightarrow> round_half_even x = n"
proof -
  assume n: "\<bar>x - of_int n\<bar> < 1/2"
  have "\<bar>of_int (round_half_even x) - of_int n\<bar> < (1::rat)"
    using round_half_even_close [of x] n by linarith
  then show ?thesis by linarith
qed

lemma double_repr:
  assumes "0 < x" "round_to_double x = Num x"
  shows "rat_log2 x \<le> 1023
         \<and> x = of_int (round_half_even (x * 2 powi (- (max (rat_log2 x) (-1022) - 52))))
               * 2 powi (max (rat_log2 x) (-1022) - 52)
         \<and> (max (rat_log2 x) (-1022) - 52 = 971
              \<longrightarrow> round_half_even (x * 2 powi (- (max (rat_log2 x) (-1022) - 52))) < 2 ^ 53)"
  using assms unfolding round_to_double_def Let_def by (auto split: if_splits)


lemma powi2_shift: "(2::rat) powi (q + int k) = 2 powi q * 2 ^ k"
  by (simp add: power_int_add)

lemma powi2_le: "a \<le> b \<Longrightarrow> (2::rat) powi a \<le> 2 powi b"
  by (rule power_int_increasing) simp_all

section \<open>Doubles and their neighbours\<close>

text \<open>
  A positive double \<open>x\<close> (one that \<open>round_to_double\<close> leaves unchanged) is a multiple
  \<open>N * u\<close> of its unit in the last place \<open>u = 2 powi q\<close>, below \<open>2^53 * u\<close>, and the next
  power of two is at least one unit above it.
\<close>

lemma double_grid:
  assumes x: "0 < x" "round_to_double x = Num x"
  defines "q \<equiv> max (rat_log2 x) (-1022) - 52"
  shows "\<exists>N::int. x = of_int N * 2 powi q \<and> 1 \<le> N \<and> rat_log2 x \<le> 1023 \<and> (q = 971 \<longrightarrow> N < 2 ^ 53)
           \<and> x + 2 powi q \<le> 2 powi (rat_log2 x + 1) \<and> x < 2 ^ 53 * 2 powi q"
proof -
  define e where "e = rat_log2 x"
  define u :: rat where "u = 2 powi q"
  define N where "N = round_half_even (x * 2 powi (- q))"
  have rep: "e \<le> 1023" "x = of_int N * u" "q = 971 \<Longrightarrow> N < 2 ^ 53"
    using double_repr [OF x] by (simp_all add: e_def q_def u_def N_def)
  have u: "0 < u" by (simp add: u_def)
  have eb: "2 powi e \<le> x" "x < 2 powi (e + 1)" using rat_log2_bounds [OF x(1)] by (simp_all add: e_def)
  have N1: "1 \<le> N" using rep(2) x(1) u by (simp add: zero_less_mult_iff)
  have "-1 \<le> e - q"
  proof (rule ccontr)
    assume "\<not> -1 \<le> e - q"
    then have "2 powi (e + 1) \<le> u" unfolding u_def by (intro powi2_le) linarith
    moreover have "u \<le> x" using rep(2) N1 u by (simp add: mult_le_cancel_right1)
    ultimately show False using eb(2) by linarith
  qed
  define M :: int where "M = 2 ^ nat (e + 1 - q)"
  have pM: "2 powi (e + 1) = of_int M * u"
    using powi2_shift [of q "nat (e + 1 - q)"] \<open>-1 \<le> e - q\<close> by (simp add: M_def u_def mult.commute)
  have "N \<le> M - 1" using rep(2) eb(2) pM u by simp
  then have "of_int N * u \<le> (of_int M - 1) * u" using u by (simp add: mult_right_mono flip: of_int_diff)
  then have up: "x + u \<le> 2 powi (e + 1)" using pM rep(2) by (simp add: algebra_simps)
  have "(2::rat) powi (e + 1) \<le> 2 powi (q + int 53)" by (intro powi2_le) (simp add: q_def e_def)
  then have "x < 2 ^ 53 * u" using eb(2) powi2_shift [of q 53] by (simp add: u_def mult.commute)
  then show ?thesis using rep N1 up by (auto simp: e_def u_def)
qed

text \<open>A value within half a unit of \<open>x\<close>, in the same binade, rounds to \<open>x\<close>.\<close>

lemma round_same_scale:
  assumes c: "0 < c" "rat_log2 c \<le> 1023" "max (rat_log2 c) (-1022) - 52 = q"
    and x: "x = of_int N * 2 powi q" "\<bar>c - x\<bar> < 2 powi q / 2" "\<not> (q = 971 \<and> 2 ^ 53 \<le> N)"
  shows "round_to_double c = Num x"
proof -
  have u: "(0::rat) < 2 powi q" by simp
  have "\<bar>c * 2 powi (- q) - of_int N\<bar> = \<bar>c - x\<bar> / 2 powi q"
    using x(1) u by (simp add: power_int_minus field_simps abs_div_pos flip: abs_divide)
  also have "\<dots> < 1/2" using x(2) u by (simp add: field_simps)
  finally have "round_half_even (c * 2 powi (- q)) = N" by (rule round_half_even_near)
  with c x(3) have "round_to_double c = Num (of_int N * 2 powi q)"
    by (simp add: round_to_double_def Let_def)
  then show ?thesis using x(1) by simp
qed

text \<open>
  Below a power of two \<open>x = 2^52 * u\<close> the doubles are twice as dense: a value less than a
  quarter unit below \<open>x\<close> rounds, at the finer scale, to \<open>2^53\<close> units of \<open>u / 2\<close>, which
  is \<open>x\<close>.
\<close>

lemma round_binade_min:
  assumes c: "0 < c" "rat_log2 c \<le> 1023" "max (rat_log2 c) (-1022) - 52 = q - 1" "q \<noteq> 972"
    and x: "x = 2 ^ 52 * 2 powi q" "c < x" "x - c < 2 powi q / 4"
  shows "round_to_double c = Num x"
proof -
  define u :: rat where "u = 2 powi q"
  have u: "0 < u" by (simp add: u_def)
  have 1: "c * 2 powi (- (q - 1)) = 2 * c / u" by (simp add: u_def power_int_diff power_int_minus field_simps)
  have 2: "of_int (2 ^ 53 :: int) = 2 * x / u" using x(1) u by (simp add: u_def)
  have "2 * c / u - 2 * x / u < 0" using x(2) u by (simp add: field_simps)
  moreover have "c * 2 powi (- (q - 1)) - of_int (2 ^ 53 :: int) = 2 * c / u - 2 * x / u"
    by (simp only: 1 2)
  ultimately have "\<bar>c * 2 powi (- (q - 1)) - of_int (2 ^ 53 :: int)\<bar> = 2 * x / u - 2 * c / u" by simp
  also have "\<dots> = 2 * (x - c) / u" by (simp add: diff_divide_distrib)
  finally have "\<bar>c * 2 powi (- (q - 1)) - of_int (2 ^ 53 :: int)\<bar> = 2 * (x - c) / u" .
  also have "\<dots> < 1/2" using x(3) u by (simp add: u_def field_simps)
  finally have "round_half_even (c * 2 powi (- (q - 1))) = 2 ^ 53" by (rule round_half_even_near)
  with c have "round_to_double c = Num (of_int (2 ^ 53) * 2 powi (q - 1))"
    by (simp add: round_to_double_def Let_def)
  moreover have "of_int (2 ^ 53) * 2 powi (q - 1) = x" using x(1) by (simp add: power_int_diff)
  ultimately show ?thesis by simp
qed

lemma rat_log2_near:
  assumes "0 < x" "x / 2 \<le> c" "c < 2 powi (rat_log2 x + 1)"
  shows "rat_log2 c = rat_log2 x \<or> rat_log2 c = rat_log2 x - 1"
proof -
  define e where "e = rat_log2 x"
  define e' where "e' = rat_log2 c"
  have c0: "0 < c" using assms by simp
  have eb: "2 powi e \<le> x" using rat_log2_bounds [OF assms(1)] by (simp add: e_def)
  have e'b: "2 powi e' \<le> c" "c < 2 powi (e' + 1)" using rat_log2_bounds [OF c0] by (simp_all add: e'_def)
  have "e' < e + 1"
  proof (rule ccontr)
    assume "\<not> e' < e + 1"
    then have "(2::rat) powi (e + 1) \<le> 2 powi e'" by (intro powi2_le) linarith
    then show False using e'b(1) assms(3) by (simp add: e_def)
  qed
  moreover have "e - 1 < e' + 1"
  proof (rule ccontr)
    assume "\<not> e - 1 < e' + 1"
    then have "(2::rat) powi (e' + 1) \<le> 2 powi (e - 1)" by (intro powi2_le) linarith
    moreover have "(2::rat) powi (e - 1) = 2 powi e / 2" by (simp add: power_int_diff)
    ultimately show False using e'b(2) eb assms(2) by linarith
  qed
  ultimately show ?thesis unfolding e_def e'_def by linarith
qed

lemma grid_at_power:
  fixes u x p :: rat
  assumes "0 < u" "x = of_int N * u" "p = 2 ^ 52 * u" "p \<le> x" "x < p + u / 2"
  shows "N = 2 ^ 52"
proof -
  have "(of_int N - (2 ^ 52 + 1/2)) * u < 0" "(2 ^ 52 - of_int N) * u \<le> 0"
    using assms(2-5) by (simp_all add: algebra_simps)
  then have "(of_int N :: rat) < of_int (2 ^ 52 + 1)" "(of_int (2 ^ 52) :: rat) \<le> of_int N"
    using assms(1) by (simp_all add: mult_less_0_iff mult_le_0_iff)
  then show ?thesis by (simp only: of_int_less_iff of_int_le_iff)
qed

text \<open>
  Stability: every rational within \<open>x / (2 * 10^16)\<close> of a positive double \<open>x\<close> rounds to
  \<open>x\<close>. The bound is below half a unit of \<open>x\<close> because \<open>2^54 < 2 * 10^16\<close>.
\<close>

lemma round_to_double_stable:
  assumes x: "0 < x" "round_to_double x = Num x" and c: "\<bar>c - x\<bar> \<le> x / (2 * 10 ^ 16)"
  shows "round_to_double c = Num x"
proof -
  define e where "e = rat_log2 x"
  define q where "q = max e (-1022) - 52"
  define u :: rat where "u = 2 powi q"
  obtain N where g: "x = of_int N * u" "1 \<le> N" "e \<le> 1023" "q = 971 \<Longrightarrow> N < 2 ^ 53"
      "x + u \<le> 2 powi (e + 1)" "x < 2 ^ 53 * u"
    using double_grid [OF x] by (auto simp: e_def q_def u_def)
  have u: "0 < u" by (simp add: u_def)
  have eb: "2 powi e \<le> x" using rat_log2_bounds [OF x(1)] by (simp add: e_def)
  have "x / (2 * 10 ^ 16) < u / 2" using g(6) u by (simp add: field_simps)
  then have H: "\<bar>c - x\<bar> < u / 2" using c by linarith
  have small: "x / (2 * 10 ^ 16) \<le> x / 2" using x(1) by (simp add: frac_le)
  have c0: "0 < c" using c small x(1) unfolding abs_le_iff by linarith
  define e' where "e' = rat_log2 c"
  have "x / 2 \<le> c" "c < 2 powi (e + 1)" using c small g(5) H unfolding abs_le_iff abs_less_iff by linarith+
  then have e'r: "e' = e \<or> e' = e - 1" using rat_log2_near [OF x(1)] by (simp add: e_def e'_def)
  have e'b: "c < 2 powi (e' + 1)" using rat_log2_bounds [OF c0] by (simp add: e'_def)
  show ?thesis
  proof (cases "max e' (-1022) - 52 = q")
    case True
    show ?thesis
    proof (rule round_same_scale [OF c0])
      show "rat_log2 c \<le> 1023" using e'r g(3) by (auto simp: e'_def)
      show "max (rat_log2 c) (-1022) - 52 = q" using True by (simp add: e'_def)
      show "x = of_int N * 2 powi q" using g(1) by (simp add: u_def)
      show "\<bar>c - x\<bar> < 2 powi q / 2" using H by (simp add: u_def)
      show "\<not> (q = 971 \<and> 2 ^ 53 \<le> N)" using g(4) by auto
    qed
  next
    case False
    then have e': "e' = e - 1" "-1021 \<le> e" "q = e - 52" using e'r by (auto simp: q_def)
    have pe: "2 powi e = 2 ^ 52 * u" using powi2_shift [of q 52] e'(3) by (simp add: u_def mult.commute)
    have "c < 2 powi e" using e'b e'(1) by simp
    then have "x < 2 powi e + u / 2" using H unfolding abs_less_iff by linarith
    then have "N = 2 ^ 52" using grid_at_power [OF u g(1) pe eb] by simp
    then have x52: "x = 2 ^ 52 * u" using g(1) by simp
    have "x - c < u / 4" using c x52 u unfolding abs_le_iff by (simp add: field_simps)
    show ?thesis
    proof (rule round_binade_min [OF c0])
      show "rat_log2 c \<le> 1023" "max (rat_log2 c) (-1022) - 52 = q - 1" "q \<noteq> 972"
        using e' g(3) by (simp_all add: e'_def)
      show "x = 2 ^ 52 * 2 powi q" using x52 by (simp add: u_def)
      show "c < x" using \<open>c < 2 powi e\<close> eb by linarith
      show "x - c < 2 powi q / 4" using \<open>x - c < u / 4\<close> by (simp add: u_def)
    qed
  qed
qed

lemma powi10_shift: "(10::rat) powi (a + b) = 10 powi a * 10 powi b"
  by (simp add: power_int_add)

lemma round_scaled:
  assumes "0 < P"
  shows "\<bar>of_int (round_half_even (x / P)) * P - x\<bar> \<le> P / 2"
proof -
  define s where "s = round_half_even (x / P)"
  have "\<bar>x / P - of_int s\<bar> \<le> 1/2" unfolding s_def by (rule round_half_even_close)
  moreover have "(x / P - of_int s) * P = x - of_int s * P" using assms by (simp add: field_simps)
  then have "\<bar>x / P - of_int s\<bar> * P = \<bar>x - of_int s * P\<bar>" using assms by (simp add: abs_mult_pos)
  then have "\<bar>x / P - of_int s\<bar> * P = \<bar>of_int s * P - x\<bar>" by (simp add: abs_minus_commute)
  ultimately show ?thesis using assms unfolding s_def by (simp add: field_simps)
qed

section \<open>Seventeen digits round-trip\<close>

text \<open>A \<open>k\<close>-digit candidate is within half a unit of its last digit.\<close>

lemma digits_cand_close:
  assumes x: "0 < x" and k: "0 < k"
  shows "case digits_cand x k of (n, s) \<Rightarrow>
           \<bar>of_nat s * 10 powi (n - int k) - x\<bar> \<le> 10 powi (rat_log10 x - int k + 1) / 2"
proof -
  define e where "e = rat_log10 x"
  define P :: rat where "P = 10 powi (e - int k + 1)"
  define s0 where "s0 = round_half_even (x / P)"
  have P: "0 < P" by (simp add: P_def)
  have close: "\<bar>of_int s0 * P - x\<bar> \<le> P / 2" unfolding s0_def using P by (rule round_scaled)
  have s0: "0 \<le> s0"
  proof -
    have "10 powi e \<le> x" using rat_log10_bounds [OF x] by (simp add: e_def)
    moreover have "P \<le> 10 powi e" unfolding P_def by (rule power_int_increasing) (use k in simp_all)
    ultimately have "P \<le> x" by linarith
    then have "P / 2 < x" using P by linarith
    show ?thesis
    proof (rule ccontr)
      assume "\<not> 0 \<le> s0"
      then have "of_int s0 * P \<le> 0" using P by (simp add: mult_nonpos_nonneg)
      then show False using close \<open>P / 2 < x\<close> unfolding abs_le_iff by linarith
    qed
  qed
  show ?thesis
  proof (cases "s0 = 10 ^ k")
    case True
    have "of_nat (10 ^ (k - 1)) * 10 powi (e + 2 - int k) = (10 powi (int (k - 1)) * 10 powi (e + 2 - int k) :: rat)"
      by simp
    also have "\<dots> = 10 powi (e + 1)" using k by (simp add: add.commute flip: powi10_shift)
    also have "\<dots> = 10 powi int k * P" using powi10_shift [of "int k" "e - int k + 1"] by (simp add: P_def)
    also have "\<dots> = of_int s0 * P" using True by simp
    finally show ?thesis using close True
      by (simp add: digits_cand_def Let_def e_def s0_def P_def)
  next
    case False
    have "(10::rat) powi (e + 1 - int k) = P" unfolding P_def by (simp add: algebra_simps)
    then have "of_nat (nat s0) * 10 powi (e + 1 - int k) = of_int s0 * P" using s0 by (simp add: P_def)
    then show ?thesis using close False
      by (simp add: digits_cand_def Let_def e_def s0_def P_def)
  qed
qed

lemma round_trips_17:
  assumes "0 < x" "round_to_double x = Num x"
  shows "round_trips x 17"
proof -
  obtain n s where d: "digits_cand x 17 = (n, s)" by (cases "digits_cand x 17")
  have "\<bar>of_nat s * 10 powi (n - 17) - x\<bar> \<le> 10 powi (rat_log10 x - 16) / 2"
    using digits_cand_close [OF assms(1), of 17] d by simp
  also have "\<dots> = 10 powi rat_log10 x / (2 * 10 ^ 16)"
    by (simp add: power_int_diff field_simps)
  also have "\<dots> \<le> x / (2 * 10 ^ 16)"
    using rat_log10_bounds [OF assms(1)] by (simp add: divide_right_mono)
  finally have "round_to_double (of_nat s * 10 powi (n - 17)) = Num x"
    by (rule round_to_double_stable [OF assms])
  then show ?thesis using d by (simp add: round_trips_def)
qed

text \<open>
  The digit search of \<open>Number::toString\<close> ends: for every positive double \<open>x\<close> the
  number of digits \<open>shortest_digits\<close> picks is the least \<open>k\<close> whose \<open>k\<close>-digit decimal
  rounds back to \<open>x\<close>, as the standard asks, and it is at most 17, so the search never
  falls back.
\<close>

lemma shortest_digits_least:
  assumes "0 < x" "round_to_double x = Num x"
  shows "fst (shortest_digits x) = (LEAST k. 0 < k \<and> round_trips x k) \<and> fst (shortest_digits x) \<le> 17"
proof -
  have r: "round_trips x 17" using round_trips_17 [OF assms] .
  have f: "find (round_trips x) [1..<18] = Some (LEAST k. 1 \<le> k \<and> round_trips x k)"
    using find_upt_least [of "round_trips x" 17 1 18] r by simp
  have "(LEAST k. 1 \<le> k \<and> round_trips x k) \<le> 17" using r by (intro Least_le) simp
  moreover have "(\<lambda>k. 1 \<le> k \<and> round_trips x k) = (\<lambda>k. 0 < k \<and> round_trips x k)" by auto
  ultimately show ?thesis using f by (simp add: shortest_digits_def Let_def)
qed

end
