(* ===== verification/Spec2Isabelle.thy ===== *)
theory Spec2Isabelle
  imports Abi Metadata Balance DoubleDigits
begin

text \<open>
  \<^bold>\<open>Superfluid skill resolvers: a verification development.\<close>

  The repository ships four command-line scripts under src/skills/superfluid/scripts:
  abi.mjs (contract ABIs from the \<open>@sfpro/sdk\<close> package), metadata.mjs (network
  metadata), tokenlist.mjs (the token list) and balance.mjs (live Super Token balances).
  Each loads one dataset with the same fetch-with-fallback routine (fetch from a CDN,
  persist to a cache directory, fall back to the cache when the fetch fails), resolves
  the user's query against it, and prints one JSON document. The development models
  these parts as shallow HOL definitions, one theory per part:

  \<^item> \<open>Prelude\<close>: JSON values as printed by \<open>JSON.stringify\<close>; the JavaScript
    primitives the scripts use (\<open>toLowerCase\<close> on Latin-1 strings as
    \<open>js_lower\<close>, \<open>indexOf\<close> as \<open>js_index_of\<close>, the de-duplication idiom
    \<open>filter((v, i, a) => a.indexOf(v) === i)\<close> as \<open>js_unique\<close>, property reads on
    plain objects with \<open>Object.prototype\<close> behind them as \<open>js_get\<close>); the outcome
    of one process run (\<open>outcome\<close>: a printed document, a diagnostic with status 1, an
    uncaught exception, or the help text) and its exit status.
  \<^item> \<open>Fetch\<close>: the cache store (a map from paths to file contents, \<open>cache\<close>), the
    environment of one run (\<open>world\<close>: the response \<open>fetch\<close> gets for each URL and
    how a cache write ends, including a torn write that leaves a prefix), the JSON-mode
    loader \<open>load_json\<close> (\<open>loadTokens\<close>, \<open>loadNetworks\<close>), successive runs sharing
    the cache (\<open>json_runs\<close>), and the module-mode loader \<open>load_module_at\<close>
    (\<open>loadModule\<close> of abi.mjs). \<open>JSON.parse\<close>, \<open>JSON.stringify\<close> and module
    evaluation are parameters of the loaders; the JSON round-trip law
    \<open>print_parse_roundtrip\<close> is a hypothesis where a property needs it.
  \<^item> \<open>Abi\<close>: \<open>ABI_MAP\<close> (\<open>abi_map\<close>), \<open>ALIASES\<close> (\<open>aliases\<close>),
    \<open>resolveContract\<close> (\<open>resolve_contract\<close>), \<open>cdnUrl\<close>, \<open>cacheFile\<close>,
    \<open>sdkImportPath\<close>, \<open>loadModule\<close> (\<open>load_module\<close>), the fragment filter
    (\<open>fragments\<close>) and its hint (\<open>named_entries\<close>), and the dispatch of
    abi.mjs (\<open>abi_main\<close>, \<open>abi_lookup\<close>, \<open>abi_output\<close>).
  \<^item> \<open>JsNumber\<close>: the JavaScript conversion \<open>Number(s)\<close> the resolvers apply to
    chain ids (\<open>string_to_number\<close>): ECMAScript StringToNumber on Latin-1 strings
    (trimming, decimal literals with fraction and exponent, \<open>Infinity\<close>, binary, octal and
    hexadecimal literals) and round-to-nearest-even to an IEEE binary64 value
    (\<open>round_to_double\<close>), with \<open>isNaN\<close> and \<open>===\<close> on the result.
  \<^item> \<open>Metadata\<close>: metadata.mjs. \<open>loadNetworks\<close> is the JSON-mode loader on
    \<open>networks_source\<close>; \<open>resolveNetwork\<close>, \<open>requireNetwork\<close> and
    \<open>summary\<close> keep their names (\<open>resolve_network\<close>, \<open>require_network\<close>,
    \<open>summary\<close>); each case of the \<open>switch\<close> is a branch of \<open>meta_command\<close>,
    with \<open>networks_cmd\<close>, \<open>contracts_output\<close>, \<open>contract_cmd\<close>,
    \<open>subgraph_output\<close> and \<open>automation_output\<close> for their outputs, and
    \<open>meta_main\<close> is the whole run (load, then dispatch).
  \<^item> \<open>Tokenlist\<close>: tokenlist.mjs. \<open>loadTokens\<close> is the JSON-mode loader on
    \<open>tokens_source\<close>, selecting \<open>data.tokens\<close>; \<open>isSuperToken\<close>,
    \<open>isUnderlying\<close> and \<open>tokenSummary\<close> are \<open>is_super_token\<close>,
    \<open>is_underlying\<close> and \<open>token_summary\<close>; the five commands are \<open>by_address\<close>,
    \<open>by_chain\<close>, \<open>by_symbol\<close>, \<open>super_token\<close> and \<open>stats\<close>, dispatched by
    \<open>tok_command\<close>, and \<open>tok_main\<close> is the whole run. The callbacks call
    \<open>toLowerCase\<close> and \<open>includes\<close> on whatever the JSON holds, so they are modelled
    as computations that may throw (\<open>js_filter\<close>, \<open>js_find\<close>, \<open>js_map_e\<close> of the
    prelude, with JavaScript's evaluation order and short-circuiting), and a well-formed
    token list (\<open>token_wf\<close>) is a hypothesis of the properties that need it. The
    functional lemmas \<open>by_address_wf\<close> ... \<open>stats_wf\<close> give each command's result on
    a well-formed list as plain list functions.
  \<^item> \<open>Formatters\<close>: \<open>formatBalance\<close>, \<open>formatFlowRate\<close> and \<open>formatTimestamp\<close> of
    balance.mjs (\<open>format_balance\<close>, \<open>format_flow_rate\<close>, \<open>format_timestamp\<close>) and
    the JavaScript arithmetic under them: \<open>Number(v)\<close> (\<open>js_to_number\<close>), binary64
    \<open>*\<close> and \<open>/\<close> rounded to nearest even (\<open>js_mul\<close>, \<open>js_div\<close>), \<open>10 ** d\<close>
    (\<open>js_pow10_num\<close>), \<open>toFixed\<close> as the standard's steps (\<open>js_to_fixed\<close>,
    \<open>js_to_fixed_num\<close>, \<open>fixed_digits\<close>), \<open>String(n)\<close> with its shortest
    round-trip digits (\<open>js_number_to_string\<close>), and \<open>toISOString\<close> with \<open>TimeClip\<close>
    and the ECMAScript calendar (\<open>time_clip\<close>, \<open>day_from_year\<close>,
    \<open>year_from_day\<close>, \<open>month_in_year\<close>, \<open>iso_string\<close>).
  \<^item> \<open>DoubleDigits\<close>: no definitions of its own; a validation of the model of
    \<open>Number::toString\<close>, the proof that seventeen decimal digits always round-trip through \<open>round_to_double\<close>, from the integer logarithms
    (\<open>rat_log2_bounds\<close>, \<open>rat_log10_bounds\<close>), the grid of doubles (\<open>double_grid\<close>)
    and the stability of rounding near a double (\<open>round_to_double_stable\<close>).
  \<^item> \<open>Balance\<close>: balance.mjs. \<open>loadTokens\<close> is the JSON-mode loader on
    \<open>bal_tokens_source\<close>, whose constants name the URL and the cache file of
    tokenlist.mjs (\<open>bal_tokens_source_shared\<close>: the two scripts share the cache); \<open>resolveToken\<close> is \<open>resolve_token\<close> (address search, then symbol
    search, with \<open>addr_match\<close> and \<open>sym_match\<close> as callbacks that may throw);
    \<open>fetchBalance\<close> is \<open>fetch_balance\<close>, whose URL \<open>balance_url\<close> serialises the
    \<open>URLSearchParams\<close> with \<open>form_encode\<close>; the result object is
    \<open>balance_json\<close> and \<open>super_token_json\<close>, with \<open>js_member\<close>,
    \<open>opt_member\<close> and \<open>read_member\<close> for \<open>.\<close> and \<open>?.\<close> and
    \<open>js_nullish_or\<close> for \<open>??\<close>; the \<open>balance\<close> case is \<open>balance_cmd\<close>, the
    dispatch \<open>bal_command\<close> and the whole run \<open>bal_main\<close>. A reader of the query
    string (\<open>query_params\<close>, \<open>form_decode\<close>) states what a request carries.

  What is proved. For the fetch protocol (theory \<open>Fetch\<close>): the cache fallback returns
  exactly the data of the last stored fetch (C1); a double failure reports the CDN URL and
  the fetch error and writes nothing (C2); once the cache holds a usable copy and no write
  is torn, no later run fails to load its dataset (C3, an invariant of the cache over any
  sequence of runs); and from the first run that fetches and stores a parsable dataset,
  whatever the cache held before, every later run loads one (C4, recovery).

  For abi.mjs (theory \<open>Abi\<close>): fragment lookup prints the one entry whose name matches
  up to case alone, several as an array, none as a diagnostic counting the distinct names
  (C5); contract resolution is case-insensitive and idempotent (C6); the offline
  diagnostic of \<open>loadModule\<close> is dead code, the run crashing instead (C7); a failed cache
  write makes \<open>loadModule\<close> import the stale cached module instead of the code it fetched
  (C8); every query whose lower-case form names a member of \<open>Object.prototype\<close> crashes
  the resolver (C9); every spelling of a contract absent from the SDK gets its own
  diagnostic (C10); and no other query reads \<open>entry.module\<close> on \<open>undefined\<close>, since
  every alias names an \<open>ABI_MAP\<close> entry (C11).

  For metadata.mjs (theory \<open>Metadata\<close>): a network is found both by the decimal string of
  its chain id and by its name in any letter case (C12); every run, the help included,
  needs the dataset, so offline without a cache even the help fails (C13); the
  \<open>contract\<close> command prints the address of a known role (C14), falls back to the
  network's own wrapper field for \<open>nativeTokenWrapper\<close> (C15) and lists the known roles
  for an unknown one (C16), but prints no address and succeeds for a role named like a
  member of \<open>Object.prototype\<close> (C17) and crashes on a network without
  \<open>contractsV1\<close> (C18); every spelling \<open>Number\<close> reads as an integer (hexadecimal,
  exponent, fraction, padded) selects the network the decimal string selects (C19); and the
  \<open>contracts\<close> listing and the \<open>contract\<close> command agree on every role (C20).

  For tokenlist.mjs (theory \<open>Tokenlist\<close>): no command throws on a well-formed token list
  (C21); a Super Token whose underlying token is missing from the list gets the "Not in
  token list" placeholder (C22); \<open>by-symbol\<close> with a non-numeric \<open>--chain-id\<close> reports
  an unknown symbol (C23); the per-chain totals of \<open>stats\<close> add up to the number of
  tokens (C24), and its chain list holds each chain id once, numbers ascending (C25);
  \<open>by-address\<close> is case-insensitive (C26).

  For the formatters of balance.mjs (theory \<open>Formatters\<close>): \<open>formatBalance\<close> always
  yields \<open>null\<close> or the raw value with a formatted string, and throws only for decimals of
  \<open>-1\<close> or less (C27, its type); a negative flow rate is its magnitude with the sign in
  front of both figures (C28); each formatter's \<open>null\<close> is characterised, zero being
  recognised by truthiness, so \<open>"-0"\<close> is a rate and the string \<open>"0"\<close> a date (C29); the
  formatted balance has exactly \<open>min(decimals, 8)\<close> fractional digits and is within half a
  unit of its last digit of \<open>balance / 10^decimals\<close> (C30); a timestamp is read as
  seconds, printed as the ISO date of \<open>1000 t\<close> ms, and out of range throws (C31). The
  runtime functions under them are validated by lemmas that are not claims about the
  scripts: \<open>toFixed\<close> prints the nearest decimal with the requested digits
  (\<open>to_fixed_nearest\<close>), the year of a day is ECMAScript's \<open>YearFromTime\<close>
  (\<open>year_from_day_greatest\<close>), the printed date is a valid calendar date of the day
  (\<open>civil_date_valid\<close>), and the digit search of \<open>Number::toString\<close> never takes its
  fallback (\<open>shortest_digits_least\<close>, theory \<open>DoubleDigits\<close>).

  For balance.mjs (theory \<open>Balance\<close>): on a well-formed list \<open>resolveToken\<close> never
  throws and returns a matching Super Token of the chain exactly when one exists (C32), the
  first address match when there is one (C33); the request carries exactly the chain, the
  token and the account, whatever characters they hold (C34, a round trip through the form
  encoding); with an address argument the request uses the address as typed and an HTTP
  error ends the run with status, body and URL (C35); an unknown symbol fails before any
  request (C36).

  Across the scripts (this theory): for one query, balance.mjs and the \<open>super-token\<close>
  command of tokenlist.mjs can select different tokens, the latter letting an earlier
  symbol match win over a later address match (C37); unknown flags of \<open>networks\<close> and
  \<open>by-chain\<close> are ignored rather than reported (C38); and a whole balance run composes the
  token loader, \<open>resolveToken\<close>, the request and \<open>balance_json\<close>, leaving the token
  list in the shared cache (C39).

  Modelling choices. Strings are lists of Latin-1 code units; \<open>toLowerCase\<close> is exact
  on that range. JSON numbers are the exact rationals of the doubles they denote. The
  datasets are modelled at the schema the CDNs publish; a payload that parses but breaks
  the schema is outside the model: a token without an address, a token list document
  \<open>null\<close> (whose \<open>data.tokens\<close> throws in JavaScript and falls back to the cache, where
  the model lets the later command crash), a \<open>contractsV1\<close> that is a string or a
  number (whose \<open>Object.keys\<close> the model treats as a crash), or list entries that are
  not objects. No fuel is used: every
  operation of the scripts is a bounded scan of a finite list, so every definition is a
  total, structurally recursive function.

  \<open>Number\<close> is exact: a literal is read as a rational and rounded once, as the
  standard prescribes; \<open>string_to_number (dec_string n) = Num n\<close> for every
  \<open>n \<le> 2^53\<close> (the integers a double holds exactly) is proved, not assumed.

  Numbers in the formatters are IEEE doubles: every product and quotient is rounded to
  the nearest binary64 value (\<open>round_to_double\<close>), so that the printed digits are those
  of the JavaScript run; \<open>toFixed\<close> and \<open>String(n)\<close> follow their algorithms in the
  standard. A decimals field that is not an integer is read as JavaScript reads it, but
  the schema only has integers. The calendar search \<open>month_from\<close> is a \<open>function\<close>
  with a measure (at most twelve months), not fuel.

  Not modelled: the CDN and REST services themselves (they are the \<open>net\<close> of a
  \<open>world\<close>), the text of the help blocks and of the hints printed with a diagnostic,
  the \<open>res.text()\<close> of a failed Super API answer failing (the body is then empty),
  and concurrent runs racing on one cache file. Characters are Latin-1 code units, so the
  UTF-8 encoding of \<open>URLSearchParams\<close> is modelled for code points below 256 only.
\<close>

section \<open>An example run of balance.mjs\<close>

text \<open>
  The token list of theory \<open>Tokenlist\<close> served by the CDN, and a Super API answer for
  one account holding 1.5 USDCx, streaming out 0.000001 USDCx a second, with 2.5 USDC of
  the underlying token (6 decimals).
\<close>

definition demo_snapshot :: json where
  "demo_snapshot =
     JObj [(''chain'', JNum 10), (''account'', JStr ''0xabc''), (''token'', JStr ''0x8430''),
           (''connectedBalance'', JStr ''1500000000000000000''), (''unconnectedBalance'', JStr ''0''),
           (''connectedNetFlow'', JStr ''-1000000000000''), (''timestamp'', JNum 1700000000),
           (''maybeCriticalAt'', JNull),
           (''underlyingToken'', JObj [(''address'', JStr ''0x7F5c''), (''decimals'', JNum 6),
                                      (''balance'', JStr ''2500000'')])]"

definition demo_parse :: "blob \<Rightarrow> json option" where
  "demo_parse b = (if b = ''tokens'' then Some (JObj [(''tokens'', JArr (map JObj demo_tokens))])
                   else if b = ''snapshot'' then Some demo_snapshot else None)"

definition demo_balance_world :: world where
  "demo_balance_world =
     \<lparr>net = (\<lambda>u. if u = tokens_url then Response 200 ''tokens''
                 else if u = ''https://superapi.kazpi.com/super-token-balance?chain=10&token=0x8430&account=0xabc''
                 then Response 200 ''snapshot'' else Response 404 ''Not Found''),
      disk = WriteOk\<rparr>"

section \<open>Properties across the scripts\<close>

text \<open>The formatted figures of the example answer.\<close>

lemma demo_fmt:
  "format_balance (Some (JStr ''1500000000000000000'')) (Num 18)
     = Inr (JObj [(''wei'', JStr ''1500000000000000000''), (''formatted'', JStr ''1.50000000'')])"
  "format_balance (Some (JStr ''0'')) (Num 18)
     = Inr (JObj [(''wei'', JStr ''0''), (''formatted'', JStr ''0.00000000'')])"
  "format_balance (Some (JStr ''2500000'')) (Num 6)
     = Inr (JObj [(''wei'', JStr ''2500000''), (''formatted'', JStr ''2.500000'')])"
  by (simp_all add: format_balance_def fmt_eval js_eval split del: if_split)

lemma demo_flow:
  "format_flow_rate (Some (JStr ''-1000000000000'')) (Num 18)
     = Inr (JObj [(''wei_per_second'', JStr ''-1000000000000''), (''tokens_per_second'', JStr ''-0.00000100''),
                  (''tokens_per_month'', JStr ''-2.5920'')])"
  by (simp add: format_flow_rate_def js_starts_with_def fmt_eval js_eval split del: if_split)

lemma demo_calendar:
  "year_from_day 19675 = 2023" "day_from_year 2023 = 19358" "leap_year 2023 = False"
  "month_in_year False 317 = 10"
  by (simp_all add: date_eval)

lemma demo_time:
  "format_timestamp (Some (JNum 1700000000))
     = Inr (JObj [(''unix'', JNum 1700000000), (''iso'', JStr ''2023-11-14T22:13:20.000Z'')])"
proof -
  have "iso_string 1700000000000 = ''2023-11-14T22:13:20.000Z''"
    by (simp add: iso_string_def demo_calendar Let_def month_start_def pad_def iso_year_def fmt_eval js_eval
        split del: if_split)
  then show ?thesis by (simp add: format_timestamp_def time_clip_def js_eval)
qed

lemma demo_null_timestamp: "format_timestamp (Some JNull) = Inr JNull"
  by (simp add: format_timestamp_def js_eval)

text \<open>
  C37. The two Super Token resolvers disagree: on any well-formed token list, when the
  first Super Token of the chain that matches the query matches it by symbol only and a
  later Super Token has the query as its address, \<open>super-token\<close> of tokenlist.mjs (one
  search on symbol or address) prints the first token, while \<open>resolveToken\<close> of
  balance.mjs (addresses first) selects a token with that address, a different one.
\<close>

theorem resolvers_disagree:
  assumes wf: "list_all token_wf ts" and nan: "\<not> js_is_nan (string_to_number a0)"
    and ct: "chain_tokens (string_to_number a0) ts = xs @ a # ys"
    and xs: "\<forall>t \<in> set xs. \<not> (tag_in t ''supertoken''
                               \<and> (token_symbol t = js_lower a1 \<or> token_address t = js_lower a1))"
    and a: "tag_in a ''supertoken''" "token_symbol a = js_lower a1" "token_address a \<noteq> js_lower a1"
    and b: "b \<in> set ys" "tag_in b ''supertoken''" "token_address b = js_lower a1"
  shows "super_token ts a0 a1 = Printed (super_result a (underlying_of (xs @ a # ys) a))
         \<and> (\<exists>t. resolve_token ts (string_to_number a0) a1 = Inr (Some t)
                \<and> token_address t = js_lower a1 \<and> t \<noteq> a)"
proof
  have "find (\<lambda>t. tag_in t ''supertoken'' \<and> (token_symbol t = js_lower a1 \<or> token_address t = js_lower a1))
          (xs @ a # ys) = Some a"
    using xs a by (intro find_append_first) auto
  then show "super_token ts a0 a1 = Printed (super_result a (underlying_of (xs @ a # ys) a))"
    using super_token_wf [OF wf, of a0 a1] nan ct by (simp add: Let_def)
next
  let ?A = "\<lambda>t. tag_in t ''supertoken'' \<and> token_address t = js_lower a1"
  have "b \<in> set (xs @ a # ys)" using b(1) by simp
  then obtain t where t: "find ?A (xs @ a # ys) = Some t"
    using b by (cases "find ?A (xs @ a # ys)") (auto simp: find_None_iff)
  then have "token_address t = js_lower a1" "t \<noteq> a" using a(3) by (auto dest!: find_SomeD)
  moreover have "resolve_token ts (string_to_number a0) a1 = Inr (Some t)"
    using resolve_token_wf [OF wf, of "string_to_number a0" a1] ct t by simp
  ultimately show "\<exists>t. resolve_token ts (string_to_number a0) a1 = Inr (Some t)
                       \<and> token_address t = js_lower a1 \<and> t \<noteq> a" by blast
qed

theorem resolvers_disagree_witness:
  "super_token [demo_clash_a, demo_clash_b] ''10'' ''0xbbbb'' = Printed (super_result demo_clash_a JNull)
   \<and> resolve_token [demo_clash_a, demo_clash_b] (Num 10) ''0xbbbb'' \<noteq> Inr (Some demo_clash_a)"
proof -
  have facts: "list_all token_wf [demo_clash_a, demo_clash_b]" "\<not> js_is_nan (string_to_number ''10'')"
      "chain_tokens (string_to_number ''10'') [demo_clash_a, demo_clash_b] = [] @ demo_clash_a # [demo_clash_b]"
      "tag_in demo_clash_a ''supertoken''" "token_symbol demo_clash_a = js_lower ''0xbbbb''"
      "token_address demo_clash_a \<noteq> js_lower ''0xbbbb''" "demo_clash_b \<in> set [demo_clash_b]"
      "tag_in demo_clash_b ''supertoken''" "token_address demo_clash_b = js_lower ''0xbbbb''"
    by (simp_all add: demo_clash_a_def demo_clash_b_def token_wf_def is_str_def tags_ok_def ua_ok_def
        underlying_address_def super_token_info_def chain_tokens_def on_chain_def tag_in_def
        token_symbol_def token_address_def str_of_def js_eval)
  have "underlying_of [demo_clash_a, demo_clash_b] demo_clash_a = JNull"
    by (simp add: underlying_of_def underlying_address_def super_token_info_def demo_clash_a_def js_eval)
  then show ?thesis
    using resolvers_disagree [OF facts(1,2,3) _ facts(4-9)] by (auto simp: js_eval)
qed

text \<open>
  C38. Unknown flags are not reported: \<open>metadata.mjs networks\<close> with any flag other
  than \<open>--mainnets\<close> and \<open>--testnets\<close> (a misspelt \<open>--testnet\<close> included) lists every
  network, and \<open>tokenlist.mjs by-chain\<close> with any second argument other than
  \<open>--super\<close> and \<open>--underlying\<close> lists every token of the chain, unfiltered, where the
  specification asks for the usage text on an unknown flag.
\<close>

theorem unknown_flags_ignored:
  assumes f: "flag \<notin> {''--mainnets'', ''--testnets''}" and g: "flag' \<notin> {''--super'', ''--underlying''}"
    and x: "\<not> js_is_nan (string_to_number a0)" "a0 \<noteq> []"
    and ne: "chain_tokens (string_to_number a0) ts \<noteq> []"
  shows "meta_command nets (''networks'' # flag # rest) = Printed (JArr (map summary nets))
       \<and> tok_command (Some ts) (''by-chain'' # a0 # flag' # rest')
           = Printed (summaries (chain_tokens (string_to_number a0) ts))"
proof
  show "meta_command nets (''networks'' # flag # rest) = Printed (JArr (map summary nets))"
    using f by (simp add: meta_command_def networks_cmd_def)
  show "tok_command (Some ts) (''by-chain'' # a0 # flag' # rest')
           = Printed (summaries (chain_tokens (string_to_number a0) ts))"
    using g x ne by (auto simp: tok_command_def with_tokens_def by_chain_def js_arg_def Let_def
        split: list.split)
qed

theorem unknown_flags_ignored_witness:
  "meta_command demo_networks [''networks'', ''--testnet''] = Printed (JArr (map summary demo_networks))
   \<and> tok_command (Some demo_tokens) [''by-chain'', ''10'', ''--supers'']
       = Printed (summaries (chain_tokens (Num 10) demo_tokens))"
proof -
  have f: "''--testnet'' \<notin> {''--mainnets'', ''--testnets''}" and g: "''--supers'' \<notin> {''--super'', ''--underlying''}"
    and x: "\<not> js_is_nan (string_to_number ''10'')" "''10'' \<noteq> []" and n: "string_to_number ''10'' = Num 10"
    by (simp_all add: js_eval)
  have ne: "chain_tokens (string_to_number ''10'') demo_tokens \<noteq> []"
    by (simp add: n demo_tokens_eval chain_tokens_def on_chain_def js_eval)
  show ?thesis using unknown_flags_ignored [OF f g x ne, of demo_networks "[]" "[]"] n by simp
qed

text \<open>
  C39. A whole run of \<open>balance.mjs balance <chain> <symbol> <account>\<close>, composed from
  the fetch protocol, the token resolver, the request and the formatters: when the token
  list loads (from the CDN or the cache) and the symbol resolves to a Super Token of the
  chain, the Super API is asked at the URL of the chain, that token's address as the
  list spells it and the account, and a 2xx answer is printed as \<open>balance_json\<close> of the
  answer with that token's metadata; the cache is the one the token loader left.
\<close>

theorem balance_end_to_end:
  assumes tokens: "load_json (bal_tokens_source parse print) w c = (Inr (Some ts), c')"
    and wf: "list_all token_wf ts"
    and args: "a0 \<noteq> []" "a1 \<noteq> []" "a2 \<noteq> []" "\<not> js_is_nan (string_to_number a0)" "\<not> js_starts_with ''0x'' a1"
    and found: "resolve_token ts (string_to_number a0) a1 = Inr (Some t)"
    and api: "net w (balance_url (string_to_number a0) (str_of (jmember t ''address'')) a2) = Response st body"
      "res_ok st" "parse body = Some data"
  shows "bal_main parse print (''balance'' # a0 # a1 # a2 # rest) w c
           = (js_run (js_then (balance_json data (Some t)) (\<lambda>j. Inr (Printed j))), c')"
  using tokens args found api
  by (simp add: bal_main_def bal_command_def balance_cmd_def fetch_balance_def Let_def js_arg_def)

theorem balance_end_to_end_witness:
  "bal_main demo_parse (\<lambda>_. ''tokens'') [''balance'', ''10'', ''USDCx'', ''0xabc''] demo_balance_world Map.empty
     = (Printed (JObj
          [(''chain'', JNum 10), (''account'', JStr ''0xabc''),
           (''superToken'', JObj [(''address'', JStr ''0x8430''), (''symbol'', JStr ''USDCx''),
              (''name'', JStr ''Super USD Coin''), (''decimals'', JNum 18), (''type'', JStr ''Wrapper'')]),
           (''balance'', JObj
              [(''connected'', JObj [(''wei'', JStr ''1500000000000000000''), (''formatted'', JStr ''1.50000000'')]),
               (''unconnected'', JObj [(''wei'', JStr ''0''), (''formatted'', JStr ''0.00000000'')])]),
           (''netFlow'', JObj [(''wei_per_second'', JStr ''-1000000000000''),
              (''tokens_per_second'', JStr ''-0.00000100''), (''tokens_per_month'', JStr ''-2.5920'')]),
           (''timestamp'', JObj [(''unix'', JNum 1700000000), (''iso'', JStr ''2023-11-14T22:13:20.000Z'')]),
           (''maybeCriticalAt'', JNull),
           (''underlyingToken'', JObj [(''address'', JStr ''0x7F5c''), (''decimals'', JNum 6),
              (''balance'', JObj [(''wei'', JStr ''2500000''), (''formatted'', JStr ''2.500000'')])])]),
        [tokens_file \<mapsto> ''tokens''])"
proof -
  have tokens: "load_json (bal_tokens_source demo_parse (\<lambda>_. ''tokens'')) demo_balance_world Map.empty
                  = (Inr (Some demo_tokens), [tokens_file \<mapsto> ''tokens''])"
    by (simp add: load_json_def bal_tokens_source_shared tokens_source_def demo_balance_world_def demo_parse_def response_text.simps
        res_ok_def demo_tokens_eval js_eval)
  have resolved: "resolve_token demo_tokens (string_to_number ''10'') ''USDCx'' = Inr (Some demo_usdcx)"
    using resolve_token_wf [OF demo_tokens_wf, of "Num 10" "''USDCx''"]
    by (simp add: demo_tokens_eval chain_tokens_def on_chain_def
        tag_in_def token_address_def token_symbol_def str_of_def js_eval)
  have api: "net demo_balance_world (balance_url (string_to_number ''10'') (str_of (jmember demo_usdcx ''address'')) ''0xabc'')
               = Response 200 ''snapshot''" "res_ok 200" "demo_parse ''snapshot'' = Some demo_snapshot"
    by (simp_all add: balance_url_demo demo_balance_world_def demo_parse_def res_ok_def tokens_url_def demo_usdcx_def
        str_of_def js_eval)
  have run: "bal_main demo_parse (\<lambda>_. ''tokens'') [''balance'', ''10'', ''USDCx'', ''0xabc''] demo_balance_world Map.empty
           = (js_run (js_then (balance_json demo_snapshot (Some demo_usdcx)) (\<lambda>j. Inr (Printed j))), [tokens_file \<mapsto> ''tokens''])"
    by (rule balance_end_to_end [OF tokens demo_tokens_wf _ _ _ _ _ resolved api])
       (simp_all add: js_starts_with_def js_eval)
  show ?thesis
    by (simp add: run js_run_def js_eval balance_json_def demo_snapshot_def read_member_def demo_usdcx_def
        js_member_def opt_member_def js_nullish_or_def demo_fmt demo_flow demo_time demo_null_timestamp super_token_json_def
        super_token_info_def jobj_def str_of_def)
qed

end
